(* ===== verification/Prelude.thy ===== *)
theory Prelude
  imports Main "HOL-Library.AList"
begin

text \<open>
  Shared vocabulary of the development: Go maps as association lists, Go results as sums,
  fixed-width integers as integers with the wrap-around written out, and the lemma
  collections the component theories feed to the simplifier.

  A Go map is an association list with distinct keys. The order of the list is one of the
  iteration orders the runtime may pick, so a theorem that a function gives equal results
  on two lists with the same lookups says that the function does not depend on that order.
\<close>

named_theorems gomap_simps \<open>lookups in Go maps after the operations of the code\<close>

section \<open>Go maps\<close>

type_synonym 'v gomap = "(string \<times> 'v) list"

abbreviation keys :: "'v gomap \<Rightarrow> string list" where
  "keys m \<equiv> map fst m"

abbreviation wf_map :: "'v gomap \<Rightarrow> bool" where
  "wf_map m \<equiv> distinct (keys m)"

text \<open>\<open>m[k] = v\<close>, and \<open>lo.Assign(m1, m2)\<close>, which copies \<open>m1\<close> and then \<open>m2\<close> over it.\<close>

abbreviation map_put :: "string \<Rightarrow> 'v \<Rightarrow> 'v gomap \<Rightarrow> 'v gomap" where
  "map_put \<equiv> AList.update"

abbreviation assign :: "'v gomap \<Rightarrow> 'v gomap \<Rightarrow> 'v gomap" where
  "assign \<equiv> AList.merge"

text \<open>\<open>maps.Equal\<close>: the same keys with the same values, in any order.\<close>

definition maps_equal :: "'v gomap \<Rightarrow> 'v gomap \<Rightarrow> bool" where
  "maps_equal m1 m2 \<longleftrightarrow> list_all (\<lambda>k. map_of m1 k = map_of m2 k) (keys m1 @ keys m2)"

lemma maps_equal_iff: "maps_equal m1 m2 \<longleftrightarrow> map_of m1 = map_of m2"
proof
  assume eq: "maps_equal m1 m2"
  show "map_of m1 = map_of m2"
  proof
    fix k
    show "map_of m1 k = map_of m2 k"
    proof (cases "k \<in> set (keys m1 @ keys m2)")
      case True
      with eq show ?thesis by (auto simp: maps_equal_def list_all_iff)
    next
      case False
      then have "map_of m1 k = None" "map_of m2 k = None"
        by (auto simp: map_of_eq_None_iff)
      then show ?thesis by simp
    qed
  qed
qed (simp add: maps_equal_def list_all_iff)

lemma maps_equal_refl [simp]: "maps_equal m m"
  by (simp add: maps_equal_iff)

lemma map_of_put [gomap_simps]: "map_of (map_put k v m) k' = (if k' = k then Some v else map_of m k')"
  by (simp add: update_conv')

lemma map_of_assign [gomap_simps]:
  "map_of (assign m1 m2) k = (case map_of m2 k of Some v \<Rightarrow> Some v | None \<Rightarrow> map_of m1 k)"
  by (simp add: merge_conv' map_add_def split: option.splits)

lemma set_keys_put: "set (keys (map_put k v m)) = insert k (set (keys m))"
  by (induction m) auto

lemma map_of_key [dest]: "map_of m k = Some v \<Longrightarrow> k \<in> set (keys m)"
  by (metis domI dom_map_of_conv_image_fst list.set_map)

lemma wf_map_put [intro]: "wf_map m \<Longrightarrow> wf_map (map_put k v m)"
  by (rule distinct_update)

lemma wf_map_assign [intro]: "wf_map m1 \<Longrightarrow> wf_map (assign m1 m2)"
  by (rule distinct_merge)

lemma distinct_map_neq: "distinct (map f (x # xs)) \<Longrightarrow> y \<in> set xs \<Longrightarrow> f y \<noteq> f x"
  by (simp del: set_map) (metis image_eqI set_map)

section \<open>Results\<close>

text \<open>
  A Go function that returns \<open>(T, error)\<close> returns a sum, the error on the left; one that
  returns only an \<open>error\<close> returns an option, \<open>None\<close> for \<open>nil\<close>.
\<close>

fun is_ok :: "'e + 'a \<Rightarrow> bool" where
  "is_ok (Inl _) = False"
| "is_ok (Inr _) = True"

lemma is_ok_iff: "is_ok r \<longleftrightarrow> (\<exists>x. r = Inr x)"
  by (cases r) auto

section \<open>Fixed-width integers\<close>

text \<open>
  Go's \<open>int64\<close> arithmetic wraps around. \<open>i64\<close> is the value of an \<open>int64\<close> whose exact
  value is its argument.
\<close>

definition i64 :: "int \<Rightarrow> int" where
  "i64 x = signed_take_bit 63 x"

abbreviation in_i64 :: "int \<Rightarrow> bool" where
  "in_i64 x \<equiv> - (2 ^ 63) \<le> x \<and> x < 2 ^ 63"

lemma i64_id [simp]: "in_i64 x \<Longrightarrow> i64 x = x"
  by (simp add: i64_def signed_take_bit_int_eq_self)

lemma i64_range: "in_i64 (i64 x)"
  using signed_take_bit_int_greater_eq_minus_exp [of 63 x] signed_take_bit_int_less_exp [of 63 x]
  by (simp add: i64_def)

end
