(* ===== verification/Float64.thy ===== *)
theory Float64
  imports Complex_Main Prelude
begin

text \<open>
  Go's \<open>float64\<close>: IEEE 754 binary64 with rounding to nearest, ties to even. A finite value is
  the rational number it denotes (the two zeros are one value: no comparison of the code
  tells them apart), an operation computes the exact rational result and rounds it, and
  comparisons with NaN are false. Gradual underflow and overflow to infinity are modelled.
  Every operation rounds on its own: Go allows an implementation to fuse a multiplication
  and an addition, which the default amd64 build does not do.
\<close>

section \<open>Rounding\<close>

abbreviation p2 :: "int \<Rightarrow> rat" where
  "p2 e \<equiv> 2 powi e"

text \<open>Round half to even.\<close>

definition rhe :: "rat \<Rightarrow> int" where
  "rhe r = (let f = \<lfloor>r\<rfloor>; d = r - of_int f in
     if d < 1 / 2 then f else if 1 / 2 < d then f + 1 else if even f then f else f + 1)"

function nlog :: "int \<Rightarrow> int" where
  "nlog n = (if n \<le> 1 then 0 else 1 + nlog (n div 2))"
  by pat_completeness auto
termination
  by (relation "measure nat") auto

declare nlog.simps [simp del]

text \<open>The binary exponent of a positive rational.\<close>

definition ilog2 :: "rat \<Rightarrow> int" where
  "ilog2 x = (let (a, b) = quotient_of x; e = nlog a - nlog b in
     if p2 e \<le> x then e else e - 1)"

text \<open>The exponent of the last of the 53 significant bits, bounded below by gradual underflow.\<close>

definition qexp :: "rat \<Rightarrow> int" where
  "qexp x = max (ilog2 x - 52) (-1074)"

definition rnd_pos :: "rat \<Rightarrow> rat" where
  "rnd_pos x = (let q = qexp x in of_int (rhe (x / p2 q)) * p2 q)"

datatype f64 = Fin rat | PInf | NInf | NaN

text \<open>Values of at least \<open>2 ^ 1024\<close> after rounding overflow to infinity.\<close>

definition f64_limit :: rat where
  "f64_limit = p2 1024"

definition rnd :: "rat \<Rightarrow> f64" where
  "rnd x =
     (if x = 0 then Fin 0
      else if 0 < x then (let r = rnd_pos x in if r < f64_limit then Fin r else PInf)
      else (let r = rnd_pos (- x) in if r < f64_limit then Fin (- r) else NInf))"

section \<open>Arithmetic and comparison\<close>

instantiation f64 :: "{ord, plus, times}"
begin

fun plus_f64 :: "f64 \<Rightarrow> f64 \<Rightarrow> f64" where
  "Fin a + Fin b = rnd (a + b)"
| "NaN + _ = NaN"
| "_ + NaN = NaN"
| "PInf + NInf = NaN"
| "NInf + PInf = NaN"
| "PInf + _ = PInf"
| "_ + PInf = PInf"
| "NInf + _ = NInf"
| "_ + NInf = NInf"

fun times_f64 :: "f64 \<Rightarrow> f64 \<Rightarrow> f64" where
  "Fin a * Fin b = rnd (a * b)"
| "NaN * _ = NaN"
| "_ * NaN = NaN"
| "Fin a * PInf = (if a = 0 then NaN else if 0 < a then PInf else NInf)"
| "PInf * Fin a = (if a = 0 then NaN else if 0 < a then PInf else NInf)"
| "Fin a * NInf = (if a = 0 then NaN else if 0 < a then NInf else PInf)"
| "NInf * Fin a = (if a = 0 then NaN else if 0 < a then NInf else PInf)"
| "PInf * PInf = PInf"
| "NInf * NInf = PInf"
| "PInf * NInf = NInf"
| "NInf * PInf = NInf"

fun less_eq_f64 :: "f64 \<Rightarrow> f64 \<Rightarrow> bool" where
  "Fin a \<le> Fin b \<longleftrightarrow> a \<le> b"
| "NaN \<le> _ \<longleftrightarrow> False"
| "_ \<le> NaN \<longleftrightarrow> False"
| "NInf \<le> _ \<longleftrightarrow> True"
| "_ \<le> PInf \<longleftrightarrow> True"
| "PInf \<le> _ \<longleftrightarrow> False"
| "_ \<le> NInf \<longleftrightarrow> False"

definition less_f64 :: "f64 \<Rightarrow> f64 \<Rightarrow> bool" where
  "(x :: f64) < y \<longleftrightarrow> x \<le> y \<and> \<not> y \<le> x"

instance ..

end

text \<open>Division by a nonzero finite constant, the only division the code does.\<close>

fun fdiv :: "f64 \<Rightarrow> rat \<Rightarrow> f64" where
  "fdiv (Fin a) c = rnd (a / c)"
| "fdiv PInf c = (if 0 < c then PInf else NInf)"
| "fdiv NInf c = (if 0 < c then NInf else PInf)"
| "fdiv NaN c = NaN"

text \<open>\<open>math.Ceil\<close>, and the conversions between \<open>int64\<close> and \<open>float64\<close>.\<close>

fun fceil :: "f64 \<Rightarrow> f64" where
  "fceil (Fin a) = Fin (of_int \<lceil>a\<rceil>)"
| "fceil x = x"

definition f64_of_i64 :: "int \<Rightarrow> f64" where
  "f64_of_i64 n = rnd (of_int n)"

text \<open>
  \<open>int64(f)\<close> truncates towards zero. The result for a value an \<open>int64\<close> cannot hold, and for
  NaN, is left to the implementation: it is the argument \<open>oor\<close>.
\<close>

definition trunc :: "rat \<Rightarrow> int" where
  "trunc r = (if 0 \<le> r then \<lfloor>r\<rfloor> else \<lceil>r\<rceil>)"

fun i64_of_f64 :: "(f64 \<Rightarrow> int) \<Rightarrow> f64 \<Rightarrow> int" where
  "i64_of_f64 oor (Fin r) = (if in_i64 (trunc r) then trunc r else oor (Fin r))"
| "i64_of_f64 oor x = oor x"

section \<open>Facts about rounding\<close>

lemma rhe_of_int [simp]: "rhe (of_int n) = n"
  by (simp add: rhe_def)

lemma rhe_bounds: "\<lfloor>r\<rfloor> \<le> rhe r" "rhe r \<le> \<lfloor>r\<rfloor> + 1"
  by (simp_all add: rhe_def Let_def)

lemma rhe_mono: "r \<le> s \<Longrightarrow> rhe r \<le> rhe s"
proof -
  assume le: "r \<le> s"
  then have f: "\<lfloor>r\<rfloor> \<le> \<lfloor>s\<rfloor>" by (rule floor_mono)
  show ?thesis
  proof (cases "\<lfloor>r\<rfloor> = \<lfloor>s\<rfloor>")
    case True
    with le show ?thesis by (auto simp: rhe_def Let_def)
  next
    case False
    with f have "\<lfloor>r\<rfloor> + 1 \<le> \<lfloor>s\<rfloor>" by simp
    with rhe_bounds [of r] rhe_bounds [of s] show ?thesis by linarith
  qed
qed

lemma p2_pos [simp]: "0 < p2 e"
  by simp

lemma p2_mono: "a \<le> b \<Longrightarrow> p2 a \<le> p2 b"
  by (rule power_int_increasing) simp_all

lemma p2_diff_int: "q \<le> k \<Longrightarrow> p2 k / p2 q = of_int (2 ^ nat (k - q))"
proof -
  assume "q \<le> k"
  have "p2 k / p2 q = p2 (k - q)" by (rule power_int_diff [symmetric]) simp
  with \<open>q \<le> k\<close> show ?thesis by (simp add: power_int_def)
qed

lemma nlog_bounds: "0 < n \<Longrightarrow> 0 \<le> nlog n \<and> 2 ^ nat (nlog n) \<le> n \<and> n < 2 ^ Suc (nat (nlog n))"
proof (induction n rule: nlog.induct)
  case (1 n)
  show ?case
  proof (cases "n \<le> 1")
    case True
    with "1.prems" have "n = 1" by simp
    then show ?thesis by (simp add: nlog.simps)
  next
    case False
    let ?m = "nlog (n div 2)"
    from False have IH: "0 \<le> ?m" "2 ^ nat ?m \<le> n div 2" "n div 2 < 2 ^ Suc (nat ?m)"
      using "1.IH" by simp_all
    have eq: "nlog n = 1 + ?m" using False by (subst nlog.simps) simp
    have "nat (1 + ?m) = Suc (nat ?m)" using IH(1) by simp
    moreover have "2 * (n div 2) \<le> n" "n \<le> 2 * (n div 2) + 1" by presburger+
    ultimately show ?thesis using IH unfolding eq by simp
  qed
qed

lemma nlog_rat: "0 < a \<Longrightarrow> p2 (nlog a) \<le> of_int a \<and> of_int a < p2 (nlog a + 1)"
proof -
  assume "0 < a"
  then have b: "0 \<le> nlog a" "2 ^ nat (nlog a) \<le> a" "a < 2 ^ Suc (nat (nlog a))"
    using nlog_bounds [of a] by simp_all
  then have "of_int ((2 :: int) ^ nat (nlog a)) \<le> (of_int a :: rat)"
    "(of_int a :: rat) < of_int ((2 :: int) ^ Suc (nat (nlog a)))"
    by (simp_all only: of_int_le_iff of_int_less_iff)
  with b(1) show ?thesis by (simp add: power_int_add) (simp add: power_int_def)
qed

lemma ilog2_bounds:
  assumes "0 < x"
  shows "p2 (ilog2 x) \<le> x" "x < p2 (ilog2 x + 1)"
proof -
  obtain a b where q: "quotient_of x = (a, b)" by (cases "quotient_of x")
  then have b: "0 < b" and x: "x = of_int a / of_int b"
    by (auto dest: quotient_of_denom_pos quotient_of_div)
  with \<open>0 < x\<close> have a: "0 < a" by (auto simp: zero_less_divide_iff)
  define la lb where "la = nlog a" and "lb = nlog b"
  have la: "p2 la \<le> of_int a" "of_int a < p2 (la + 1)"
    and lb: "p2 lb \<le> of_int b" "of_int b < p2 (lb + 1)"
    using nlog_rat [OF a] nlog_rat [OF b] by (simp_all add: la_def lb_def)
  have "x < p2 (la + 1) / p2 lb"
    unfolding x using la lb a b by (intro frac_less) simp_all
  then have up: "x < p2 (la - lb + 1)"
    by (simp add: power_int_diff [symmetric] algebra_simps)
  have "p2 la / p2 (lb + 1) < x"
    unfolding x using la lb a b by (intro frac_less2) simp_all
  then have lo: "p2 (la - lb - 1) < x"
    by (simp add: power_int_diff [symmetric] algebra_simps)
  have "ilog2 x = (if p2 (la - lb) \<le> x then la - lb else la - lb - 1)"
    by (simp add: ilog2_def q la_def lb_def)
  with up lo show "p2 (ilog2 x) \<le> x" "x < p2 (ilog2 x + 1)"
    by auto
qed

lemma p2_less_imp: "p2 a < p2 b \<Longrightarrow> a < b"
  using p2_mono [of b a] by (cases "a < b") auto

lemma ilog2_mono: "0 < x \<Longrightarrow> x \<le> y \<Longrightarrow> ilog2 x \<le> ilog2 y"
proof -
  assume "0 < x" "x \<le> y"
  then have "p2 (ilog2 x) < p2 (ilog2 y + 1)"
    using ilog2_bounds [of x] ilog2_bounds [of y] by linarith
  then show ?thesis by (drule_tac p2_less_imp) simp
qed

lemma qexp_mono: "0 < x \<Longrightarrow> x \<le> y \<Longrightarrow> qexp x \<le> qexp y"
  using ilog2_mono [of x y] by (simp add: qexp_def)

text \<open>Powers of two above the last significant bit are kept by rounding, from both sides.\<close>

lemma rnd_pos_le_p2:
  assumes "0 < x" "x \<le> p2 k" "qexp x \<le> k"
  shows "rnd_pos x \<le> p2 k"
proof -
  let ?q = "qexp x"
  have "x / p2 ?q \<le> p2 k / p2 ?q"
    using assms by (simp add: divide_right_mono)
  then have "rhe (x / p2 ?q) \<le> 2 ^ nat (k - ?q)"
    unfolding p2_diff_int [OF assms(3)] using rhe_mono rhe_of_int by metis
  then have "(of_int (rhe (x / p2 ?q)) :: rat) \<le> of_int (2 ^ nat (k - ?q))"
    by (simp only: of_int_le_iff)
  also have "\<dots> = p2 k / p2 ?q" by (rule p2_diff_int [symmetric, OF assms(3)])
  finally show ?thesis
    by (simp add: rnd_pos_def Let_def field_simps)
qed

lemma p2_le_rnd_pos:
  assumes "0 < x" "p2 k \<le> x" "qexp x \<le> k"
  shows "p2 k \<le> rnd_pos x"
proof -
  let ?q = "qexp x"
  have "p2 k / p2 ?q \<le> x / p2 ?q"
    using assms by (simp add: divide_right_mono)
  then have "2 ^ nat (k - ?q) \<le> rhe (x / p2 ?q)"
    unfolding p2_diff_int [OF assms(3)] using rhe_mono rhe_of_int by metis
  then have "of_int (2 ^ nat (k - ?q)) \<le> (of_int (rhe (x / p2 ?q)) :: rat)"
    by (simp only: of_int_le_iff)
  then have "p2 k / p2 ?q \<le> of_int (rhe (x / p2 ?q))"
    by (simp only: p2_diff_int [OF assms(3)])
  then show ?thesis
    by (simp add: rnd_pos_def Let_def field_simps)
qed

lemma rnd_pos_nonneg: "0 < x \<Longrightarrow> 0 \<le> rnd_pos x"
proof -
  assume "0 < x"
  then have "0 \<le> x / p2 (qexp x)" by simp
  then have "rhe 0 \<le> rhe (x / p2 (qexp x))" by (rule rhe_mono)
  then show ?thesis by (simp add: rnd_pos_def Let_def rhe_def)
qed

lemma rnd_pos_mono:
  assumes "0 < x" "x \<le> y"
  shows "rnd_pos x \<le> rnd_pos y"
proof (cases "qexp x = qexp y")
  case True
  have "x / p2 (qexp x) \<le> y / p2 (qexp y)"
    using assms(2) by (simp add: True divide_right_mono)
  then have "rhe (x / p2 (qexp x)) \<le> rhe (y / p2 (qexp y))" by (rule rhe_mono)
  then show ?thesis by (simp add: rnd_pos_def Let_def True)
next
  case False
  with qexp_mono [OF assms] have q: "qexp x < qexp y" by simp
  then have y: "qexp y = ilog2 y - 52" and l: "ilog2 x < ilog2 y"
    by (auto simp: qexp_def max_def split: if_splits)
  have "x < p2 (ilog2 x + 1)" using ilog2_bounds(2) [OF assms(1)] .
  also have "\<dots> \<le> p2 (ilog2 y)" using l by (intro p2_mono) simp
  finally have "rnd_pos x \<le> p2 (ilog2 y)"
    using q y assms(1) by (intro rnd_pos_le_p2) simp_all
  also have "\<dots> \<le> rnd_pos y"
    using assms y ilog2_bounds(1) [of y] by (intro p2_le_rnd_pos) simp_all
  finally show ?thesis .
qed


lemma rnd_0 [simp]: "rnd 0 = Fin 0"
  by (simp add: rnd_def)

lemma rnd_not_NaN [simp]: "rnd x \<noteq> NaN" "NaN \<noteq> rnd x"
  by (simp_all add: rnd_def Let_def)

lemma le_NaN [simp]: "\<not> x \<le> NaN" "\<not> NaN \<le> x" "\<not> x < NaN" "\<not> NaN < x"
  by (cases x; simp add: less_f64_def)+

lemma Fin_less [simp]: "Fin a < Fin b \<longleftrightarrow> a < b"
  by (auto simp: less_f64_def)

lemma le_f64_trans: "(x :: f64) \<le> y \<Longrightarrow> y \<le> z \<Longrightarrow> x \<le> z"
  by (cases x; cases y; cases z) auto

lemma le_f64_refl [simp]: "x \<noteq> NaN \<Longrightarrow> (x :: f64) \<le> x"
  by (cases x) auto

lemma not_le_f64: "x \<noteq> NaN \<Longrightarrow> y \<noteq> NaN \<Longrightarrow> \<not> (x :: f64) \<le> y \<longleftrightarrow> y < x"
  by (cases x; cases y) (auto simp: less_f64_def)

lemma rnd_mono_pos:
  assumes "0 < x" "x \<le> y"
  shows "rnd x \<le> rnd y"
  using rnd_pos_mono [OF assms] assms by (auto simp: rnd_def Let_def)

lemma rnd_minus: "rnd (- x) = (case rnd x of Fin r \<Rightarrow> Fin (- r) | PInf \<Rightarrow> NInf | NInf \<Rightarrow> PInf | NaN \<Rightarrow> NaN)"
  by (simp add: rnd_def Let_def)

lemma rnd_nonneg: "0 \<le> x \<Longrightarrow> Fin 0 \<le> rnd x"
  using rnd_pos_nonneg [of x] by (auto simp: rnd_def Let_def)

lemma rnd_nonpos: "x \<le> 0 \<Longrightarrow> rnd x \<le> Fin 0"
  using rnd_nonneg [of "- x"] by (simp add: rnd_minus split: f64.splits)

lemma rnd_mono: "x \<le> y \<Longrightarrow> rnd x \<le> rnd y"
proof -
  assume le: "x \<le> y"
  consider "0 < x" | "x \<le> 0" "0 \<le> y" | "y < 0" by linarith
  then show ?thesis
  proof cases
    case 1
    with le show ?thesis by (intro rnd_mono_pos)
  next
    case 2
    then show ?thesis using rnd_nonneg rnd_nonpos le_f64_trans by blast
  next
    case 3
    then have "rnd (- y) \<le> rnd (- x)" using le by (intro rnd_mono_pos) simp_all
    then show ?thesis by (simp add: rnd_minus split: f64.splits)
  qed
qed

text \<open>Values bounded by a power of two: no overflow, so no infinity and no NaN.\<close>

definition fbound :: "int \<Rightarrow> f64 \<Rightarrow> bool" where
  "fbound k x \<longleftrightarrow> (case x of Fin r \<Rightarrow> \<bar>r\<bar> \<le> p2 k | _ \<Rightarrow> False)"

lemma qexp_le: "0 < x \<Longrightarrow> x \<le> p2 k \<Longrightarrow> -1074 \<le> k \<Longrightarrow> qexp x \<le> k"
proof -
  assume x: "0 < x" "x \<le> p2 k" and k: "-1074 \<le> k"
  have "p2 (ilog2 x) \<le> p2 k" using ilog2_bounds(1) [OF x(1)] x(2) by linarith
  moreover have "p2 (k + 1) = 2 * p2 k" by (simp add: power_int_add)
  ultimately have "p2 (ilog2 x) < p2 (k + 1)" using p2_pos [of k] by linarith
  then have "ilog2 x \<le> k" using p2_less_imp by fastforce
  with k show ?thesis by (simp add: qexp_def)
qed

lemma rnd_pos_bound: "0 < x \<Longrightarrow> x \<le> p2 k \<Longrightarrow> -1074 \<le> k \<Longrightarrow> rnd_pos x \<le> p2 k"
  by (intro rnd_pos_le_p2 qexp_le)

lemma fbound_rnd:
  assumes "\<bar>x\<bar> \<le> p2 k" "-1074 \<le> k" "k \<le> 1023"
  shows "fbound k (rnd x)"
proof -
  have lim: "p2 k < f64_limit"
    unfolding f64_limit_def using assms(3) by (intro power_int_strict_increasing) simp_all
  consider "x = 0" | "0 < x" | "x < 0" by linarith
  then show ?thesis
  proof cases
    case 2
    with lim rnd_pos_bound [of x k] rnd_pos_nonneg [of x] assms show ?thesis
      by (auto simp: fbound_def rnd_def Let_def)
  next
    case 3
    with lim rnd_pos_bound [of "- x" k] rnd_pos_nonneg [of "- x"] assms show ?thesis
      by (auto simp: fbound_def rnd_def Let_def)
  qed (simp add: fbound_def)
qed

lemma fbound_mono: "fbound j x \<Longrightarrow> j \<le> k \<Longrightarrow> fbound k x"
  using p2_mono [of j k] by (auto simp: fbound_def split: f64.splits)

lemma fbound_add:
  assumes "fbound k x" "fbound k y" "-1074 \<le> k" "k < 1023"
  shows "fbound (k + 1) (x + y)"
proof -
  obtain a b where [simp]: "x = Fin a" "y = Fin b" and ab: "\<bar>a\<bar> \<le> p2 k" "\<bar>b\<bar> \<le> p2 k"
    using assms(1,2) by (auto simp: fbound_def split: f64.splits)
  have "\<bar>a + b\<bar> \<le> p2 (k + 1)" using ab by (simp add: power_int_add)
  then show ?thesis using assms(3,4) by (simp add: fbound_rnd)
qed

lemma fbound_mult:
  assumes "fbound k x" "fbound 0 c" "-1074 \<le> k" "k \<le> 1023"
  shows "fbound k (x * c)"
proof -
  obtain a b where [simp]: "x = Fin a" "c = Fin b" and ab: "\<bar>a\<bar> \<le> p2 k" "\<bar>b\<bar> \<le> 1"
    using assms(1,2) by (auto simp: fbound_def split: f64.splits)
  have "\<bar>a * b\<bar> \<le> p2 k * 1"
    unfolding abs_mult using ab by (intro mult_mono) simp_all
  then show ?thesis using assms(3,4) by (simp add: fbound_rnd)
qed

lemma fbound_not_NaN: "fbound k x \<Longrightarrow> x \<noteq> NaN"
  by (auto simp: fbound_def)

text \<open>Addition, and multiplication and division by a nonnegative constant, are monotone.\<close>

lemma add_mono_f64:
  assumes "fbound k x" "fbound k y" "fbound k x'" "fbound k y'" "x \<le> x'" "y \<le> y'"
  shows "x + y \<le> x' + (y' :: f64)"
  using assms by (auto simp: fbound_def intro!: rnd_mono add_mono split: f64.splits)

lemma mult_const_mono:
  assumes "fbound k x" "fbound k x'" "x \<le> x'" "0 \<le> c"
  shows "x * Fin c \<le> x' * Fin c"
  using assms by (auto simp: fbound_def intro!: rnd_mono mult_right_mono split: f64.splits)

lemma fdiv_const_mono:
  assumes "fbound k x" "fbound k x'" "x \<le> x'" "0 < c"
  shows "fdiv x c \<le> fdiv x' c"
  using assms by (auto simp: fbound_def intro!: rnd_mono divide_right_mono split: f64.splits)

lemma f64_of_i64_mono: "m \<le> n \<Longrightarrow> f64_of_i64 m \<le> f64_of_i64 n"
  by (simp add: f64_of_i64_def rnd_mono)

lemma fbound_f64_of_i64: "in_i64 n \<Longrightarrow> fbound 63 (f64_of_i64 n)"
proof -
  assume "in_i64 n"
  then have "\<bar>n\<bar> \<le> 2 ^ 63" by linarith
  then have "\<bar>of_int n :: rat\<bar> \<le> of_int (2 ^ 63)" unfolding of_int_abs [symmetric] of_int_le_iff .
  then have "\<bar>of_int n :: rat\<bar> \<le> p2 63" by (simp add: power_int_def)
  then show ?thesis by (simp add: f64_of_i64_def fbound_rnd)
qed


text \<open>
  A certificate for a rounding: the significand and the exponent of the result. It lets a
  concrete rounding be checked by rational arithmetic, without computing a logarithm.
\<close>

lemma rhe_eqI: "\<bar>r - of_int m\<bar> < 1 / 2 \<Longrightarrow> rhe r = m"
proof -
  assume "\<bar>r - of_int m\<bar> < 1 / 2"
  then have r: "r - of_int m < 1 / 2" "of_int m - r < 1 / 2" by linarith+
  show ?thesis
  proof (cases "of_int m \<le> r")
    case True
    with r have "\<lfloor>r\<rfloor> = m" by (intro floor_unique) linarith+
    with r show ?thesis by (simp add: rhe_def)
  next
    case False
    with r have "\<lfloor>r\<rfloor> = m - 1" by (intro floor_unique) (simp, linarith)+
    with r show ?thesis by (simp add: rhe_def)
  qed
qed

lemma ilog2_eqI: "0 < x \<Longrightarrow> p2 e \<le> x \<Longrightarrow> x < p2 (e + 1) \<Longrightarrow> ilog2 x = e"
proof -
  assume x: "0 < x" "p2 e \<le> x" "x < p2 (e + 1)"
  then have "p2 (ilog2 x) < p2 (e + 1)" "p2 e < p2 (ilog2 x + 1)"
    using ilog2_bounds [of x] by linarith+
  then have "ilog2 x < e + 1" "e < ilog2 x + 1" by (blast dest: p2_less_imp)+
  then show ?thesis by simp
qed

lemma rnd_eqI:
  assumes "p2 (q + 52) \<le> x" "x < p2 (q + 53)" "-1074 \<le> q" "q \<le> 970"
    and "\<bar>x - of_int m * p2 q\<bar> < p2 q / 2"
  shows "rnd x = Fin (of_int m * p2 q)"
proof -
  have x: "0 < x" using assms(1) p2_pos [of "q + 52"] by linarith
  have "ilog2 x = q + 52" using assms(1,2) x by (intro ilog2_eqI) (simp_all add: add.commute)
  with assms(3) have q: "qexp x = q" by (simp add: qexp_def)
  have "x / p2 q - of_int m = (x - of_int m * p2 q) / p2 q" by (simp add: field_simps)
  also have "\<bar>\<dots>\<bar> < 1 / 2" using assms(5) by (simp add: field_simps)
  finally have "rhe (x / p2 q) = m" by (rule rhe_eqI)
  then have r: "rnd_pos x = of_int m * p2 q" by (simp add: rnd_pos_def q)
  have "fbound (q + 53) (rnd x)"
    using assms(2-4) x by (intro fbound_rnd) simp_all
  with x r show ?thesis by (auto simp: fbound_def rnd_def Let_def split: if_splits)
qed

section \<open>Ranges without underflow\<close>

text \<open>
  \<open>coarse lo hi x\<close>: zero, or between two powers of two far from the ends of the format. On
  such values doubling commutes with every operation, because only the exponent changes.
\<close>

definition coarse :: "int \<Rightarrow> int \<Rightarrow> f64 \<Rightarrow> bool" where
  "coarse lo hi x \<longleftrightarrow> (case x of Fin r \<Rightarrow> r = 0 \<or> p2 lo \<le> r \<and> r \<le> p2 hi | _ \<Rightarrow> False)"

fun twice :: "f64 \<Rightarrow> f64" where
  "twice (Fin a) = Fin (2 * a)"
| "twice x = x"

lemma rnd_p2: "-1022 \<le> k \<Longrightarrow> k \<le> 1022 \<Longrightarrow> rnd (p2 k) = Fin (p2 k)"
proof -
  assume k: "-1022 \<le> k" "k \<le> 1022"
  have e: "of_int (2 ^ 52) * p2 (k - 52) = p2 k"
    using power_int_add [of "2 :: rat" 52 "k - 52"] by simp
  have "p2 k < p2 (k - 52 + 53)" by (intro power_int_strict_increasing) simp_all
  with k e show ?thesis
    using rnd_eqI [of "k - 52" "p2 k" "2 ^ 52"] by simp
qed

lemma coarse_rnd:
  assumes "x = 0 \<or> p2 lo \<le> x \<and> x \<le> p2 hi" "-1022 \<le> lo" "hi \<le> 1022"
  shows "coarse lo hi (rnd x)"
proof (cases "x = 0")
  case False
  with assms have x: "p2 lo \<le> x" "x \<le> p2 hi" by auto
  have "\<not> p2 (hi + 1) \<le> p2 lo" if "hi < lo"
    using x that power_int_strict_increasing [of hi lo "2 :: rat"] by linarith
  have le: "lo \<le> hi" using x power_int_strict_increasing [of hi lo "2 :: rat"] by (cases "hi < lo") auto
  have "rnd (p2 lo) \<le> rnd x" "rnd x \<le> rnd (p2 hi)" using x by (simp_all add: rnd_mono)
  then show ?thesis
    using assms(2,3) le by (cases "rnd x") (auto simp: rnd_p2 coarse_def)
qed (simp add: coarse_def)

lemma rnd_twice:
  assumes "x = 0 \<or> p2 lo \<le> x \<and> x \<le> p2 hi" "-1022 \<le> lo" "hi \<le> 1021"
  shows "rnd (2 * x) = twice (rnd x)"
proof (cases "x = 0")
  case False
  with assms have x: "p2 lo \<le> x" "x \<le> p2 hi" by auto
  then have pos: "0 < x" using p2_pos [of lo] by linarith
  let ?e = "ilog2 x"
  have b: "p2 ?e \<le> x" "x < p2 (?e + 1)" using ilog2_bounds [OF pos] by auto
  have e2: "ilog2 (2 * x) = ?e + 1"
    using b pos by (intro ilog2_eqI) (simp_all add: power_int_add add.commute)
  have "p2 lo < p2 (?e + 1)" using b x by linarith
  then have "-1022 \<le> ?e" using p2_less_imp assms(2) by fastforce
  then have q: "qexp x = ?e - 52" "qexp (2 * x) = qexp x + 1" by (simp_all add: qexp_def e2)
  have r: "rnd_pos (2 * x) = 2 * rnd_pos x"
    by (simp add: rnd_pos_def Let_def q(2) power_int_add)
  have "coarse lo hi (rnd x)" "coarse (lo + 1) (hi + 1) (rnd (2 * x))"
    using assms x by (auto intro!: coarse_rnd simp: power_int_add)
  with r pos show ?thesis
    by (auto simp: rnd_def Let_def coarse_def split: if_splits)
qed simp

lemma coarse_op:
  assumes "coarse lo hi (Fin a)" "c = 0 \<or> p2 lo' \<le> c \<and> c \<le> p2 hi'"
  shows "a * c = 0 \<or> p2 (lo + lo') \<le> a * c \<and> a * c \<le> p2 (hi + hi')"
proof (cases "a = 0 \<or> c = 0")
  case False
  with assms have a: "p2 lo \<le> a" "a \<le> p2 hi" "p2 lo' \<le> c" "c \<le> p2 hi'" by (auto simp: coarse_def)
  have nn: "0 \<le> p2 lo" "0 \<le> p2 lo'" "0 \<le> p2 hi" "0 \<le> p2 hi'" by (simp_all add: less_imp_le)
  with a have "0 \<le> a" "0 \<le> c" by linarith+
  with a nn have "p2 lo * p2 lo' \<le> a * c" "a * c \<le> p2 hi * p2 hi'"
    by (auto intro!: mult_mono)
  then show ?thesis by (simp add: power_int_add)
qed auto

lemma coarse_mult:
  assumes "coarse lo hi x" "p2 lo' \<le> c" "c \<le> p2 hi'" "-1022 \<le> lo + lo'" "hi + hi' \<le> 1021"
  shows "coarse (lo + lo') (hi + hi') (x * Fin c) \<and> twice x * Fin c = twice (x * Fin c)"
proof -
  obtain a where a: "x = Fin a" using assms(1) by (cases x) (auto simp: coarse_def)
  note op = coarse_op [OF assms(1) [unfolded a], of c lo' hi']
  show ?thesis
    using coarse_rnd [OF op] rnd_twice [OF op] assms by (simp add: a mult.assoc)
qed

lemma coarse_fdiv:
  assumes "coarse lo hi x" "-1022 \<le> lo - n" "hi - n \<le> 1021"
  shows "coarse (lo - n) (hi - n) (fdiv x (p2 n)) \<and> fdiv (twice x) (p2 n) = twice (fdiv x (p2 n))"
proof -
  obtain a where a: "x = Fin a" using assms(1) by (cases x) (auto simp: coarse_def)
  have "a / p2 n = a * p2 (- n)" by (simp add: power_int_minus divide_inverse)
  then show ?thesis
    using coarse_mult [OF assms(1), of "- n" "p2 (- n)" "- n"] assms
    by (simp add: a power_int_minus divide_inverse)
qed

lemma coarse_sum:
  fixes l h a b :: rat
  shows "0 < l \<Longrightarrow> 0 < h \<Longrightarrow> a = 0 \<or> l \<le> a \<and> a \<le> h \<Longrightarrow> b = 0 \<or> l \<le> b \<and> b \<le> h \<Longrightarrow>
    a + b = 0 \<or> l \<le> a + b \<and> a + b \<le> h * 2"
  by auto

lemma coarse_add:
  assumes "coarse lo hi x" "coarse lo hi y" "-1022 \<le> lo" "hi < 1021"
  shows "coarse lo (hi + 1) (x + y) \<and> twice x + twice y = twice (x + y)"
proof -
  obtain a b where ab: "x = Fin a" "y = Fin b"
    using assms(1,2) by (cases x; cases y) (auto simp: coarse_def)
  have s: "a + b = 0 \<or> p2 lo \<le> a + b \<and> a + b \<le> p2 (hi + 1)"
    using coarse_sum [OF p2_pos p2_pos] assms(1,2) by (simp add: ab coarse_def power_int_add)
  show ?thesis
    using coarse_rnd [OF s] rnd_twice [OF s] assms by (simp add: ab distrib_left)
qed

lemma coarse_weaken: "coarse lo hi x \<Longrightarrow> lo' \<le> lo \<Longrightarrow> hi \<le> hi' \<Longrightarrow> coarse lo' hi' x"
  using p2_mono [of lo' lo] p2_mono [of hi hi'] by (auto simp: coarse_def split: f64.splits)

lemma coarse_i64:
  assumes "0 \<le> n" "n \<le> 2 ^ k" "k \<le> 64"
  shows "coarse 0 (int k) (f64_of_i64 n) \<and> f64_of_i64 (2 * n) = twice (f64_of_i64 n)"
proof -
  have "of_int n \<le> (of_int (2 ^ k) :: rat)" using assms(2) unfolding of_int_le_iff .
  then have s: "of_int n = (0 :: rat) \<or> p2 0 \<le> of_int n \<and> of_int n \<le> p2 (int k)"
    using assms(1) by (auto simp: power_int_def)
  show ?thesis
    using coarse_rnd [OF s] rnd_twice [OF s] assms by (simp add: f64_of_i64_def)
qed

section \<open>Integers below 2 to the 53 are exact\<close>

lemma rnd_nat53:
  assumes "0 \<le> n" "n < 2 ^ 53"
  shows "rnd (of_int n) = Fin (of_int n)"
proof (cases "n = 0")
  case False
  define x where "x = (of_int n :: rat)"
  have pos: "0 < x" using assms False by (simp add: x_def)
  have "x < of_int (2 ^ 53)" unfolding x_def of_int_less_iff by (rule assms)
  then have x53: "x < p2 53" by (simp add: power_int_def)
  then have "p2 (ilog2 x) < p2 53" using ilog2_bounds(1) [OF pos] by linarith
  then have "ilog2 x < 53" by (rule p2_less_imp)
  then have q: "qexp x \<le> 0" by (simp add: qexp_def)
  have "x / p2 (qexp x) = of_int (n * 2 ^ nat (- qexp x))"
    using q p2_diff_int [of "qexp x" 0] by (simp add: x_def divide_inverse power_int_minus)
  then have e: "of_int (rhe (x / p2 (qexp x))) = x / p2 (qexp x)" by (simp only: rhe_of_int)
  have "rnd_pos x = x" unfolding rnd_pos_def Let_def e using p2_pos [of "qexp x"] by simp
  moreover have "x < f64_limit"
    using x53 p2_mono [of 53 1024] by (simp add: f64_limit_def)
  ultimately show ?thesis using pos by (simp add: rnd_def x_def)
qed simp

lemma f64_of_nat53 [simp]: "0 \<le> n \<Longrightarrow> n < 2 ^ 53 \<Longrightarrow> f64_of_i64 n = Fin (of_int n)"
  by (simp add: f64_of_i64_def rnd_nat53)

text \<open>Rounding a value between zero and an exact integer stays between them.\<close>

lemma rnd_between:
  assumes "0 \<le> x" "x \<le> of_int n" "n < 2 ^ 53"
  shows "\<exists>r. rnd x = Fin r \<and> 0 \<le> r \<and> r \<le> of_int n"
proof -
  have "0 \<le> n" using assms(1,2) by (metis of_int_0_le_iff order_trans)
  then have "rnd x \<le> Fin (of_int n)" using rnd_mono [OF assms(2)] assms(3) by (simp add: rnd_nat53)
  moreover have "Fin 0 \<le> rnd x" using assms(1) by (rule rnd_nonneg)
  ultimately show ?thesis by (cases "rnd x") auto
qed

end
