(* ===== verification/GoStrings.thy ===== *)
theory GoStrings
  imports Float64 "HOL-Library.Sublist" "HOL-Library.Char_ord" "HOL-Library.List_Lexorder"
begin

text \<open>
  The functions of Go's \<open>strings\<close>, \<open>strconv\<close> and \<open>fmt\<close> packages that the provider calls,
  on strings as byte sequences: a \<open>char\<close> is one byte, \<open>length\<close> is Go's \<open>len\<close>, and the
  order on strings is Go's \<open><\<close>.
\<close>

abbreviation byte :: "int \<Rightarrow> char" where
  "byte n \<equiv> char_of n"

abbreviation ord :: "char \<Rightarrow> int" where
  "ord c \<equiv> of_char c"

section \<open>strings: searching and cutting\<close>

definition cut_prefix :: "string \<Rightarrow> string \<Rightarrow> string option" where
  "cut_prefix s p = (if prefix p s then Some (drop (length p) s) else None)"

fun contains :: "string \<Rightarrow> string \<Rightarrow> bool" where
  "contains [] sub \<longleftrightarrow> sub = []"
| "contains (c # s) sub \<longleftrightarrow> prefix sub (c # s) \<or> contains s sub"

definition contains_any :: "string \<Rightarrow> string \<Rightarrow> bool" where
  "contains_any s chars = list_ex (\<lambda>c. c \<in> set chars) s"

text \<open>\<open>strings.Cut\<close> at a one-byte separator: before, after, found.\<close>

definition cut :: "string \<Rightarrow> char \<Rightarrow> string \<times> string \<times> bool" where
  "cut s c = (takeWhile (\<lambda>x. x \<noteq> c) s, drop 1 (dropWhile (\<lambda>x. x \<noteq> c) s), c \<in> set s)"

fun split_on :: "char \<Rightarrow> string \<Rightarrow> string list" where
  "split_on c [] = [[]]"
| "split_on c (x # s) =
     (if x = c then [] # split_on c s
      else case split_on c s of [] \<Rightarrow> [[x]] | p # ps \<Rightarrow> (x # p) # ps)"

fun join_with :: "string \<Rightarrow> string list \<Rightarrow> string" where
  "join_with sep [] = []"
| "join_with sep [s] = s"
| "join_with sep (s # ss) = s @ sep @ join_with sep ss"

text \<open>\<open>strings.Trim\<close> with an ASCII cutset.\<close>

definition trim :: "string \<Rightarrow> string \<Rightarrow> string" where
  "trim s cutset = (let inside = (\<lambda>c. c \<in> set cutset) in
     rev (dropWhile inside (rev (dropWhile inside s))))"

text \<open>
  \<open>strings.TrimSpace\<close>: the runes \<open>unicode.IsSpace\<close> accepts, in UTF-8. The first byte of each
  starts a rune and the encodings are valid, so decoding from either end meets exactly
  these byte sequences.
\<close>

definition space_runes :: "string list" where
  "space_runes =
     map (map byte)
       ([[9], [10], [11], [12], [13], [32], [0xC2, 0x85], [0xC2, 0xA0], [0xE1, 0x9A, 0x80]]
        @ map (\<lambda>n. [0xE2, 0x80, n]) ([0x80 .. 0x8A] @ [0xA8, 0xA9, 0xAF])
        @ [[0xE2, 0x81, 0x9F], [0xE3, 0x80, 0x80]])"

function strip_runes :: "string list \<Rightarrow> string \<Rightarrow> string" where
  "strip_runes rs s =
     (case find (\<lambda>r. r \<noteq> [] \<and> prefix r s) rs of
        None \<Rightarrow> s
      | Some r \<Rightarrow> strip_runes rs (drop (length r) s))"
  by pat_completeness auto
termination
  by (relation "measure (\<lambda>(rs, s). length s)") (auto simp: find_Some_iff prefix_def)

declare strip_runes.simps [simp del]

definition trim_space :: "string \<Rightarrow> string" where
  "trim_space s = rev (strip_runes (map rev space_runes) (rev (strip_runes space_runes s)))"

text \<open>
  \<open>strings.ToLower\<close>. On ASCII it maps bytes; otherwise it maps runes with Unicode's tables,
  which are the argument \<open>ul\<close>.
\<close>

definition ascii_lower :: "char \<Rightarrow> char" where
  "ascii_lower c = (if 65 \<le> ord c \<and> ord c \<le> 90 then byte (ord c + 32) else c)"

definition to_lower :: "(string \<Rightarrow> string) \<Rightarrow> string \<Rightarrow> string" where
  "to_lower ul s = (if list_all (\<lambda>c. ord c < 128) s then map ascii_lower s else ul s)"

section \<open>fmt: decimal and hexadecimal numbers\<close>

definition digit :: "int \<Rightarrow> char" where
  "digit n = byte (if n < 10 then 48 + n else 87 + n)"

function show_nat :: "int \<Rightarrow> string" where
  "show_nat n = (if n < 10 then [digit n] else show_nat (n div 10) @ [digit (n mod 10)])"
  by pat_completeness auto
termination
  by (relation "measure nat") auto

declare show_nat.simps [simp del]

definition show_int :: "int \<Rightarrow> string" where
  "show_int i = (if i < 0 then CHR ''-'' # show_nat (- i) else show_nat i)"

text \<open>\<open>%016x\<close> of a 64-bit value.\<close>

definition hex16 :: "int \<Rightarrow> string" where
  "hex16 n = map (\<lambda>i. digit (n div 16 ^ i mod 16)) (rev [0 ..< 16])"

text \<open>
  \<open>fmt.Sprint\<close> of a \<open>float64\<close> with an integral value, the only kind the code prints: the
  shortest decimal significand that reads back as the value, in exponent form from \<open>1e+06\<close> on.
  \<open>sig_digits\<close> is that significand, searched from \<open>k\<close> digits on; 17 digits always suffice.
\<close>

fun sig_digits :: "nat \<Rightarrow> int \<Rightarrow> int \<Rightarrow> int \<Rightarrow> int" where
  "sig_digits 0 k e n = n"
| "sig_digits (Suc fuel) k e n =
     (let unit = (if k \<le> e then 10 ^ nat (e + 1 - k) else 1); m = rhe (of_int n / of_int unit) in
      if rnd (of_int (m * unit)) = rnd (of_int n) then m * unit else sig_digits fuel (k + 1) e n)"

definition show_exp :: "int \<Rightarrow> string" where
  "show_exp n =
     (let ds = show_nat n; e = int (length ds) - 1; sig = rev (dropWhile (\<lambda>c. c = CHR ''0'') (rev ds)) in
      hd sig # (if tl sig = [] then [] else CHR ''.'' # tl sig)
      @ ''e+'' @ (if e < 10 then ''0'' else []) @ show_nat e)"

definition sprint_integral :: "f64 \<Rightarrow> string" where
  "sprint_integral x = (case x of
       NaN \<Rightarrow> ''NaN'' | PInf \<Rightarrow> ''+Inf'' | NInf \<Rightarrow> ''-Inf''
     | Fin r \<Rightarrow>
         (let n = \<lfloor>\<bar>r\<bar>\<rfloor>; e = int (length (show_nat n)) - 1; m = sig_digits 17 1 e n in
          (if r < 0 then ''-'' else [])
          @ (if n = 0 then ''0'' else if 1000000 \<le> m then show_exp m else show_nat m)))"

section \<open>strconv.ParseFloat\<close>

definition digit_val :: "bool \<Rightarrow> char \<Rightarrow> int option" where
  "digit_val hex c = (let n = ord c in
     if 48 \<le> n \<and> n \<le> 57 then Some (n - 48)
     else if hex \<and> 97 \<le> n \<and> n \<le> 102 then Some (n - 87)
     else if hex \<and> 65 \<le> n \<and> n \<le> 70 then Some (n - 55)
     else None)"

text \<open>
  The mantissa loop of \<open>readFloat\<close>: the digits read so far as an integer, the number of them
  after the dot, whether there were any, and the rest of the input.
\<close>

fun read_mant :: "bool \<Rightarrow> string \<Rightarrow> bool \<Rightarrow> bool \<Rightarrow> int \<Rightarrow> int \<Rightarrow> bool \<times> int \<times> int \<times> string" where
  "read_mant hex [] dot any m fd = (any, m, fd, [])"
| "read_mant hex (c # s) dot any m fd =
     (if c = CHR ''_'' then read_mant hex s dot any m fd
      else if c = CHR ''.'' then
        (if dot then (any, m, fd, c # s) else read_mant hex s True any m fd)
      else case digit_val hex c of
          None \<Rightarrow> (any, m, fd, c # s)
        | Some d \<Rightarrow>
            read_mant hex s dot True (m * (if hex then 16 else 10) + d) (if dot then fd + 1 else fd))"

fun read_exp :: "string \<Rightarrow> int \<Rightarrow> int \<times> string" where
  "read_exp [] e = (e, [])"
| "read_exp (c # s) e =
     (if c = CHR ''_'' then read_exp s e
      else case digit_val False c of
          None \<Rightarrow> (e, c # s)
        | Some d \<Rightarrow> read_exp s (if e < 10000 then e * 10 + d else e))"

text \<open>\<open>underscoreOK\<close>: the last symbol seen is a digit, an underscore, or something else.\<close>

datatype seen = SeenStart | SeenDigit | SeenUnderscore | SeenOther

fun under_ok :: "bool \<Rightarrow> string \<Rightarrow> seen \<Rightarrow> bool" where
  "under_ok hex [] saw \<longleftrightarrow> saw \<noteq> SeenUnderscore"
| "under_ok hex (c # s) saw \<longleftrightarrow>
     (if digit_val hex c \<noteq> None then under_ok hex s SeenDigit
      else if c = CHR ''_'' then saw = SeenDigit \<and> under_ok hex s SeenUnderscore
      else saw \<noteq> SeenUnderscore \<and> under_ok hex s SeenOther)"

definition strip_sign :: "string \<Rightarrow> bool \<times> string" where
  "strip_sign s = (case s of
       c # t \<Rightarrow> if c = CHR ''-'' then (True, t) else if c = CHR ''+'' then (False, t) else (False, s)
     | [] \<Rightarrow> (False, s))"

definition underscore_ok :: "string \<Rightarrow> bool" where
  "underscore_ok s = (let t = snd (strip_sign s) in
     case t of
       a # b # u \<Rightarrow>
         (if a = CHR ''0'' \<and> b \<in> set ''bBoOxX'' then under_ok (b \<in> set ''xX'') u SeenDigit
          else under_ok False t SeenStart)
     | _ \<Rightarrow> under_ok False t SeenStart)"

text \<open>The exponent part: \<open>None\<close> is a syntax error, otherwise its value and the rest.\<close>

definition read_exponent :: "bool \<Rightarrow> string \<Rightarrow> (int \<times> string) option" where
  "read_exponent hex s = (case s of
       c # t \<Rightarrow>
         if c \<in> set (if hex then ''pP'' else ''eE'') then
           (let (neg, u) = strip_sign t in
            case u of
              d # _ \<Rightarrow>
                if digit_val False d = None then None
                else (let (e, rest) = read_exp u 0 in Some (if neg then - e else e, rest))
            | [] \<Rightarrow> None)
         else if hex then None else Some (0, s)
     | [] \<Rightarrow> if hex then None else Some (0, s))"

definition parse_special :: "string \<Rightarrow> f64 option" where
  "parse_special s = (let l = map ascii_lower s; (neg, t) = strip_sign l in
     if l = ''nan'' then Some NaN
     else if t = ''inf'' \<or> t = ''infinity'' then Some (if neg then NInf else PInf)
     else None)"

text \<open>
  A well-formed number denotes the rational of its digits, rounded once; one that rounds to
  infinity is a range error. Both kinds of error are \<open>None\<close>.
\<close>

definition parse_number :: "string \<Rightarrow> f64 option" where
  "parse_number s = (let (neg, t) = strip_sign s;
       hex = (case t of a # b # _ # _ \<Rightarrow> a = CHR ''0'' \<and> b \<in> set ''xX'' | _ \<Rightarrow> False);
       (any, m, fd, u) = read_mant hex (if hex then drop 2 t else t) False False 0 0 in
     if \<not> any then None
     else case read_exponent hex u of
         None \<Rightarrow> None
       | Some (e, rest) \<Rightarrow>
           if rest \<noteq> [] \<or> (CHR ''_'' \<in> set s \<and> \<not> underscore_ok s) then None
           else (let v = (if hex then of_int m * 2 powi (e - 4 * fd) else of_int m * 10 powi (e - fd)) in
             case rnd (if neg then - v else v) of Fin r \<Rightarrow> Some (Fin r) | _ \<Rightarrow> None))"

definition parse_float :: "string \<Rightarrow> f64 option" where
  "parse_float s = (case parse_special s of Some x \<Rightarrow> Some x | None \<Rightarrow> parse_number s)"

end
