(* ===== verification/GoErrors.thy ===== *)
theory GoErrors
  imports GoStrings
begin

text \<open>
  Go error values, as far as the code distinguishes them: the SDK's API error with its status
  code, body and message; Kubernetes API errors with their reason; karpenter's error kinds;
  and errors made with \<open>fmt.Errorf\<close>, kept as their format and arguments, with the wrapped
  cause for \<open>%w\<close>.
\<close>

datatype kube_reason = KNotFound | KOtherReason string

datatype go_error =
    ApiError int string string
    \<comment> \<open>\<open>*oapierror.GenericOpenAPIError\<close>: \<open>StatusCode\<close>, \<open>Body\<close>, \<open>ErrorMessage\<close>\<close>
  | TransportError string
    \<comment> \<open>any other error of the SDK: network, decoding\<close>
  | KubeError kube_reason string "string list"
    \<comment> \<open>\<open>*errors.StatusError\<close> of the Kubernetes API: reason, format and arguments of the message\<close>
  | Errorf string "string list"
  | Wrapf string "string list" go_error
    \<comment> \<open>\<open>fmt.Errorf(format, args..., err)\<close> with \<open>%w\<close>\<close>
  | NilWrapf string "string list"
    \<comment> \<open>\<open>fmt.Errorf\<close> with \<open>%w\<close> and a nil error: a non-nil error that wraps nothing\<close>
  | NodeClaimNotFoundError go_error
  | InsufficientCapacityError go_error
  | NodeClassNotReadyError go_error
  | CreateError go_error string string
    \<comment> \<open>cause, condition reason, and the condition message's format, whose \<open>%s\<close> is the error the cause wraps\<close>
  | Combined "go_error list"
    \<comment> \<open>\<open>errors.Join\<close> and \<open>multierr.Combine\<close>\<close>

type_synonym 'a result = "go_error + 'a"

text \<open>What a reconciler returns: an error, or \<open>RequeueAfter\<close>, 0 in an empty result.\<close>

type_synonym reconciled = "int result"

text \<open>\<open>fmt.Errorf\<close> with \<open>%w\<close>, where the wrapped error may be nil.\<close>

definition wrapf :: "string \<Rightarrow> string list \<Rightarrow> go_error option \<Rightarrow> go_error" where
  "wrapf fmt args e = (case e of None \<Rightarrow> NilWrapf fmt args | Some e' \<Rightarrow> Wrapf fmt args e')"

text \<open>
  \<open>errors.As(err, &apiErr)\<close>: the first API error of the chain that \<open>%w\<close> builds. Karpenter's
  error kinds end the chain; the code never looks for an API error under one of them.
\<close>

fun as_api_error :: "go_error \<Rightarrow> (int \<times> string \<times> string) option" where
  "as_api_error (ApiError code body msg) = Some (code, body, msg)"
| "as_api_error (Wrapf _ _ e) = as_api_error e"
| "as_api_error _ = None"

text \<open>The recognisers of karpenter and of the Kubernetes client, which follow \<open>%w\<close> too.\<close>

fun is_nodeclaim_not_found :: "go_error \<Rightarrow> bool" where
  "is_nodeclaim_not_found (NodeClaimNotFoundError _) \<longleftrightarrow> True"
| "is_nodeclaim_not_found (Wrapf _ _ e) \<longleftrightarrow> is_nodeclaim_not_found e"
| "is_nodeclaim_not_found _ \<longleftrightarrow> False"

fun is_kube_not_found :: "go_error \<Rightarrow> bool" where
  "is_kube_not_found (KubeError r _ _) \<longleftrightarrow> r = KNotFound"
| "is_kube_not_found (Wrapf _ _ e) \<longleftrightarrow> is_kube_not_found e"
| "is_kube_not_found _ \<longleftrightarrow> False"

definition ignore_nodeclaim_not_found :: "go_error \<Rightarrow> go_error option" where
  "ignore_nodeclaim_not_found e = (if is_nodeclaim_not_found e then None else Some e)"

definition ignore_kube_not_found :: "go_error \<Rightarrow> go_error option" where
  "ignore_kube_not_found e = (if is_kube_not_found e then None else Some e)"

text \<open>\<open>errors.Join\<close> and \<open>multierr.Combine\<close>: nil when there is no error among the arguments.\<close>

definition combine_errors :: "go_error option list \<Rightarrow> go_error option" where
  "combine_errors es = (let real = List.map_filter id es in if real = [] then None else Some (Combined real))"

lemma combine_errors_None: "combine_errors es = None \<longleftrightarrow> (\<forall>e \<in> set es. e = None)"
proof -
  have "List.map_filter id es = [] \<longleftrightarrow> (\<forall>e \<in> set es. e = None)"
    by (induction es) (auto split: option.splits)
  then show ?thesis by (simp add: combine_errors_def Let_def)
qed

lemma combine_errors_Some: "combine_errors es = Some x \<Longrightarrow> \<exists>e \<in> set es. \<exists>y. e = Some y"
  using combine_errors_None [of es] by auto

lemma combine_errors_all_None [simp]: "(\<And>e. e \<in> set es \<Longrightarrow> e = None) \<Longrightarrow> combine_errors es = None"
  by (simp add: combine_errors_None)

end
