(* ===== verification/ApiTypes.thy ===== *)
theory ApiTypes
  imports GoErrors
begin

text \<open>
  The data of the provider: the StackitNodeClass resource with its accessors
  (\<open>pkg/apis/v1alpha1\<close>), and the fields of Karpenter's NodeClaim, NodePool, InstanceType and
  Offering that the code reads and writes. A pointer field is an option, a Kubernetes
  \<open>DeletionTimestamp\<close> is an option, and \<open>time.Time\<close> is the number of nanoseconds since the
  zero time, so that \<open>IsZero\<close> is equality with 0.
\<close>

section \<open>Labels and annotations (labels.go)\<close>

definition Group :: string where
  "Group = ''karpenter.k8s.stackit''"

definition LabelNodeClass :: string where
  "LabelNodeClass = Group @ ''/nodeclass''"

definition LabelInstanceCPU :: string where
  "LabelInstanceCPU = Group @ ''/instance-cpu''"

definition LabelInstanceMemory :: string where
  "LabelInstanceMemory = Group @ ''/instance-memory''"

definition LabelInstanceFamily :: string where
  "LabelInstanceFamily = Group @ ''/instance-family''"

definition LabelInstanceDisk :: string where
  "LabelInstanceDisk = Group @ ''/instance-disk''"

definition AnnotationStackitNodeClassHash :: string where
  "AnnotationStackitNodeClassHash = Group @ ''/stackitnodeclass-hash''"

definition AnnotationStackitNodeClassHashVersion :: string where
  "AnnotationStackitNodeClassHashVersion = Group @ ''/stackitnodeclass-hash-version''"

definition TerminationFinalizer :: string where
  "TerminationFinalizer = Group @ ''/termination''"

text \<open>Karpenter's \<open>NodePoolLabelKey\<close> and the other label keys of upstream.\<close>

definition NodePoolLabelKey :: string where
  "NodePoolLabelKey = ''karpenter.sh/nodepool''"

definition CapacityTypeLabelKey :: string where
  "CapacityTypeLabelKey = ''karpenter.sh/capacity-type''"

definition CapacityTypeOnDemand :: string where
  "CapacityTypeOnDemand = ''on-demand''"

definition LabelTopologyZone :: string where
  "LabelTopologyZone = ''topology.kubernetes.io/zone''"

definition LabelTopologyRegion :: string where
  "LabelTopologyRegion = ''topology.kubernetes.io/region''"

definition LabelInstanceTypeStable :: string where
  "LabelInstanceTypeStable = ''node.kubernetes.io/instance-type''"

definition LabelArchStable :: string where
  "LabelArchStable = ''kubernetes.io/arch''"

definition LabelOSStable :: string where
  "LabelOSStable = ''kubernetes.io/os''"

definition LabelWindowsBuild :: string where
  "LabelWindowsBuild = ''node.kubernetes.io/windows-build''"

text \<open>What \<open>init\<close> makes of Karpenter's sets: restricted label domains and well known labels.\<close>

definition RestrictedLabelDomains :: "string list" where
  "RestrictedLabelDomains = [Group]"

definition StackitWellKnownLabels :: "string set" where
  "StackitWellKnownLabels = {LabelInstanceCPU, LabelInstanceMemory, LabelInstanceFamily, LabelInstanceDisk}"

definition register_labels :: "string set \<times> string set \<Rightarrow> string set \<times> string set" where
  "register_labels karpenter =
     (let (restricted, wellKnown) = karpenter; unused = [LabelWindowsBuild]
      in (restricted \<union> set RestrictedLabelDomains, wellKnown \<union> StackitWellKnownLabels - set unused))"

definition LabelKeyManagedBy :: string where
  "LabelKeyManagedBy = ''karpenter.sh/managed-by''"

definition LabelKeyNodePool :: string where
  "LabelKeyNodePool = NodePoolLabelKey"

definition LabelKeyNodeClaim :: string where
  "LabelKeyNodeClaim = ''karpenter.sh/nodeclaim''"

definition LabelKeyNodeClass :: string where
  "LabelKeyNodeClass = LabelNodeClass"

definition ManagedLabelKeys :: "string list" where
  "ManagedLabelKeys = [LabelKeyManagedBy, LabelKeyNodePool, LabelKeyNodeClaim, LabelKeyNodeClass]"

lemmas label_key_defs =
  Group_def LabelNodeClass_def NodePoolLabelKey_def LabelKeyManagedBy_def LabelKeyNodePool_def
  LabelKeyNodeClaim_def LabelKeyNodeClass_def

lemmas node_label_defs =
  Group_def LabelInstanceCPU_def LabelInstanceMemory_def LabelInstanceFamily_def LabelInstanceDisk_def
  CapacityTypeLabelKey_def LabelTopologyZone_def LabelTopologyRegion_def LabelInstanceTypeStable_def
  LabelArchStable_def LabelOSStable_def

lemma managed_keys_distinct: "distinct ManagedLabelKeys"
  by (simp add: ManagedLabelKeys_def label_key_defs)

section \<open>StackitNodeClass (stackitnodeclass.go, stackitnodeclass_status.go)\<close>

record boot_volume_source_spec =
  bvs_id :: string
  bvs_type :: "string option"

record boot_volume_spec =
  bv_source :: boot_volume_source_spec
  bv_size :: int
  bv_performance_class :: "string option"
  bv_delete_on_termination :: "bool option"

record networking_spec =
  net_network_id :: "string option"
  net_nic_ids :: "string list"

record kubelet_configuration =
  kc_cluster_dns :: "string list"
  kc_max_pods :: "int option"
  kc_pods_per_core :: "int option"
  kc_system_reserved :: "string gomap"
  kc_kube_reserved :: "string gomap"
  kc_eviction_hard :: "string gomap option"
  kc_eviction_soft :: "string gomap option"
  kc_eviction_soft_grace_period :: "int gomap"
  kc_eviction_max_pod_grace_period :: "int option"
  kc_cpu_cfs_quota :: "bool option"

record nodeclass_spec =
  spec_availability_zones :: "string list"
  spec_boot_volume :: boot_volume_spec
  spec_user_data :: "string option"
  spec_networking :: networking_spec
  spec_security_groups :: "string list"
  spec_keypair_name :: "string option"
  spec_affinity_group :: "string option"
  spec_service_account_mails :: "string list"
  spec_labels :: "string gomap"
  spec_server_name_prefix :: "string option"
  spec_kubelet :: "kubelet_configuration option"

datatype condition_status = CondTrue | CondFalse | CondUnknown

text \<open>A condition's message is a format with arguments, and the error printed at its end, if any.\<close>

datatype cond_message = Message string "string list" "go_error option"

record condition =
  cond_type :: string
  cond_status :: condition_status
  cond_reason :: string
  cond_message :: cond_message
  cond_observed_generation :: int

record availability_zone =
  az_id :: string

record nodeclass =
  nc_name :: string
  nc_generation :: int
  nc_deletion_timestamp :: "int option"
  nc_annotations :: "string gomap"
  nc_finalizers :: "string list"
  nc_spec :: nodeclass_spec
  nc_availability_zones :: "availability_zone list"
  nc_conditions :: "condition list"

text \<open>\<open>DeletionTimestamp.IsZero()\<close> of a \<open>*metav1.Time\<close>: nil or the zero time.\<close>

definition is_zero_time :: "int option \<Rightarrow> bool" where
  "is_zero_time t = (case t of None \<Rightarrow> True | Some n \<Rightarrow> n = 0)"

definition StackitNodeClassHashVersion :: string where
  "StackitNodeClassHashVersion = ''v1''"

text \<open>
  \<open>Hash\<close>: \<open>hs\<close> is the rendering of \<open>hashstructure.Hash\<close> on the specification.
\<close>

definition nodeclass_hash :: "(nodeclass_spec \<Rightarrow> string) \<Rightarrow> nodeclass \<Rightarrow> string" where
  "nodeclass_hash hs nc = (let hashable = (nc_spec nc)\<lparr>spec_labels := []\<rparr> in hs hashable)"

definition kubelet_configuration_of :: "nodeclass \<Rightarrow> kubelet_configuration option" where
  "kubelet_configuration_of nc = spec_kubelet (nc_spec nc)"

definition boot_volume_size_gb :: "nodeclass \<Rightarrow> int" where
  "boot_volume_size_gb nc = bv_size (spec_boot_volume (nc_spec nc))"

definition boot_volume_source_type :: "nodeclass \<Rightarrow> string" where
  "boot_volume_source_type nc =
     (case bvs_type (bv_source (spec_boot_volume (nc_spec nc))) of Some t \<Rightarrow> t | None \<Rightarrow> ''image'')"

definition delete_boot_volume_on_termination :: "nodeclass \<Rightarrow> bool" where
  "delete_boot_volume_on_termination nc =
     (case bv_delete_on_termination (spec_boot_volume (nc_spec nc)) of Some b \<Rightarrow> b | None \<Rightarrow> True)"

definition availability_zone_ids :: "nodeclass \<Rightarrow> string list" where
  "availability_zone_ids nc = map az_id (nc_availability_zones nc)"

definition ConditionTypeAvailabilityZonesReady :: string where
  "ConditionTypeAvailabilityZonesReady = ''AvailabilityZonesReady''"

definition ConditionTypeValidationSucceeded :: string where
  "ConditionTypeValidationSucceeded = ''ValidationSucceeded''"

definition GetConditions :: "nodeclass \<Rightarrow> condition list" where
  "GetConditions nodeClass = nc_conditions nodeClass"

definition SetConditions :: "condition list \<Rightarrow> nodeclass \<Rightarrow> nodeclass" where
  "SetConditions conditions nodeClass = nodeClass\<lparr>nc_conditions := conditions\<rparr>"

text \<open>
  The conditions that \<open>Ready\<close> depends on; \<open>status.NewReadyConditions\<close>, which keeps the conditions
  through \<open>GetConditions\<close> and \<open>SetConditions\<close>, is a parameter.
\<close>

definition StatusConditions :: "(string list \<Rightarrow> nodeclass \<Rightarrow> 'set) \<Rightarrow> nodeclass \<Rightarrow> 'set" where
  "StatusConditions newReadyConditions nodeClass =
     newReadyConditions [ConditionTypeAvailabilityZonesReady, ConditionTypeValidationSucceeded] nodeClass"

section \<open>Karpenter's resources\<close>

text \<open>
  \<open>'q\<close> is the type of \<open>resource.Quantity\<close>. A \<open>scheduling.Requirements\<close> that the code builds
  holds one \<open>In\<close> requirement for each key: it is a map from the key to the values.
\<close>

type_synonym requirements = "string list gomap"

type_synonym 'q resource_list = "'q gomap"

record node_requirement =
  nr_key :: string
  nr_operator :: string
  nr_values :: "string list"
  nr_min_values :: "int option"

record 'q nodeclaim =
  claim_name :: string
  claim_uid :: string
  claim_labels :: "string gomap"
  claim_annotations :: "string gomap"
  claim_creation_timestamp :: int
  claim_deletion_timestamp :: "int option"
  claim_nodeclass_ref :: "string option"
  claim_requirements :: "node_requirement list"
  claim_requests :: "'q resource_list"
  claim_provider_id :: string
  claim_capacity :: "'q resource_list"
  claim_allocatable :: "'q resource_list"
  claim_drifted :: bool

record nodepool =
  pool_name :: string
  pool_uid :: string
  pool_nodeclass_ref :: "string option"

record offering =
  of_requirements :: requirements
  of_price :: f64
  of_available :: bool

record 'q overhead =
  ov_kube_reserved :: "'q resource_list"
  ov_system_reserved :: "'q resource_list"
  ov_eviction_threshold :: "'q resource_list"

record 'q instance_type =
  it_name :: string
  it_requirements :: requirements
  it_offerings :: "offering list"
  it_capacity :: "'q resource_list"
  it_overhead :: "'q overhead"

end
