(* ===== verification/Utils.thy ===== *)
theory Utils
  imports ApiTypes "HOL-Library.Multiset"
begin

text \<open>
  \<open>pkg/utils/utils.go\<close>: provider ids, the zone sanitiser, the labels the controller stamps on
  servers and their validation, the label selector of the list call, and small helpers.
\<close>

section \<open>Provider ids\<close>

definition ProviderIDPrefix :: string where
  "ProviderIDPrefix = ''stackit://''"

definition ParseInstanceID :: "string \<Rightarrow> string result" where
  "ParseInstanceID providerID =
     (case cut_prefix providerID ProviderIDPrefix of
        None \<Rightarrow> Inl (Errorf ''provider id does not match known format'' [providerID])
      | Some sid \<Rightarrow>
          if sid = [] \<or> contains sid ''/''
          then Inl (Errorf ''provider id does not match known format'' [providerID])
          else Inr sid)"

definition ProviderID :: "string \<Rightarrow> string" where
  "ProviderID sid = ProviderIDPrefix @ sid"

section \<open>Zones\<close>

definition zone_char :: "char \<Rightarrow> bool" where
  "zone_char c = (let n = ord c in
     c = CHR ''-'' \<or> (97 \<le> n \<and> n \<le> 122) \<or> (65 \<le> n \<and> n \<le> 90) \<or> (48 \<le> n \<and> n \<le> 57)
     \<or> c = CHR ''_'' \<or> c = CHR ''.'')"

text \<open>
  \<open>zoneSanitizeRegex.ReplaceAllString(zone, "-")\<close>: each maximal run of characters outside the
  class becomes one dash. Every byte of a rune outside ASCII is outside the class, so runs
  of bytes and runs of runes are the same.
\<close>

function replace_runs :: "string \<Rightarrow> string" where
  "replace_runs [] = []"
| "replace_runs (c # s) =
     (if zone_char c then c # replace_runs s
      else CHR ''-'' # replace_runs (dropWhile (\<lambda>x. \<not> zone_char x) s))"
  by pat_completeness auto
termination
  by (relation "measure length") (auto simp: le_imp_less_Suc length_dropWhile_le)

definition SanitizeZone :: "string \<Rightarrow> string" where
  "SanitizeZone zone =
     (let sanitized = replace_runs zone;
          sanitized = trim sanitized ''-_.''
      in if 63 < length sanitized then take 63 sanitized else sanitized)"

section \<open>Sorted keys\<close>

text \<open>
  \<open>sortedKeys\<close>: \<open>lo.Keys\<close> in the map's iteration order, then insertion sort in place. \<open>sift\<close>
  is the inner loop with \<open>j\<close> counting down, \<open>sort_from\<close> the outer loop.
\<close>

fun sift :: "string list \<Rightarrow> nat \<Rightarrow> string list" where
  "sift ks 0 = ks"
| "sift ks (Suc j) =
     (if ks ! Suc j < ks ! j then sift (ks[Suc j := ks ! j, j := ks ! Suc j]) j else ks)"

function sort_from :: "string list \<Rightarrow> nat \<Rightarrow> string list" where
  "sort_from ks i = (if i < length ks then sort_from (sift ks i) (Suc i) else ks)"
  by pat_completeness auto

lemma length_sift [simp]: "length (sift ks j) = length ks"
  by (induction ks j rule: sift.induct) auto

termination sort_from
  by (relation "measure (\<lambda>(ks, i). length ks - i)") auto

declare sort_from.simps [simp del]

definition sortedKeys :: "'v gomap \<Rightarrow> string list" where
  "sortedKeys m = sort_from (keys m) 1"

section \<open>Labels\<close>

text \<open>Go's \<open>m[k]\<close> on a \<open>map[string]string\<close>: the zero value for a missing key.\<close>

definition map_get :: "string gomap \<Rightarrow> string \<Rightarrow> string" where
  "map_get m k = (case map_of m k of Some v \<Rightarrow> v | None \<Rightarrow> [])"

definition ManagedLabels :: "nodeclass \<Rightarrow> 'q nodeclaim \<Rightarrow> string \<Rightarrow> string gomap" where
  "ManagedLabels nodeClass nodeClaim clusterName =
     (let managed = map_put LabelKeyNodeClaim (claim_name nodeClaim)
            (map_put LabelKeyNodeClass (nc_name nodeClass)
              (map_put LabelKeyManagedBy clusterName []));
          managed = (case map_of (claim_labels nodeClaim) NodePoolLabelKey of
              Some nodePool \<Rightarrow> map_put LabelKeyNodePool nodePool managed
            | None \<Rightarrow> managed)
      in assign (spec_labels (nc_spec nodeClass)) managed)"

definition maxLabelKeyLength :: nat where
  "maxLabelKeyLength = 255"

definition maxLabelValueLength :: nat where
  "maxLabelValueLength = 255"

text \<open>\<open>labelKeyRegex\<close> and \<open>labelValueRegex\<close>.\<close>

definition label_key_match :: "string \<Rightarrow> bool" where
  "label_key_match s \<longleftrightarrow> s \<noteq> [] \<and> list_all (\<lambda>c. 0x21 \<le> ord c \<and> ord c \<le> 0x7E) s"

definition label_value_match :: "string \<Rightarrow> bool" where
  "label_value_match s \<longleftrightarrow> list_all (\<lambda>c. 0x20 \<le> ord c \<and> ord c \<le> 0x7E) s"

text \<open>The problems of one label: a format with its arguments.\<close>

definition label_problem :: "string \<Rightarrow> string \<Rightarrow> (string \<times> string list) list" where
  "label_problem key value =
     (if key = [] then [(''\"\": key must not be empty'', [])]
      else if length key > maxLabelKeyLength then
        [(''%q: key must be at most %d characters'', [key, show_int (int maxLabelKeyLength)])]
      else if \<not> label_key_match key then
        [(''%q: key must be printable ASCII without whitespace'', [key])]
      else if contains_any key '',='' then
        [(''%q: key must not contain ',' or '=', which delimit the label selector'', [key])]
      else if length value > maxLabelValueLength then
        [(''%q: value must be at most %d characters'', [key, show_int (int maxLabelValueLength)])]
      else if \<not> label_value_match value then [(''%q: value must be printable ASCII'', [key])]
      else if contains value '','' then
        [(''%q: value must not contain ',', which delimits the label selector'', [key])]
      else [])
     @ (if key \<in> set ManagedLabelKeys then [(''%q: key is managed by Karpenter'', [key])] else [])"

definition ValidateLabels :: "string gomap \<Rightarrow> go_error option" where
  "ValidateLabels labels =
     (let problems = concat (map (\<lambda>key. label_problem key (map_get labels key)) (sortedKeys labels)) in
      if problems = [] then None
      else Some (Errorf ''labels failed validation requirements''
             (concat (map (\<lambda>(fmt, args). fmt # args) problems))))"

definition LabelSelector :: "string gomap \<Rightarrow> string" where
  "LabelSelector labels =
     join_with '','' (map (\<lambda>key. key @ ''='' @ map_get labels key) (sortedKeys labels))"

text \<open>Values of the SDK's \<open>map[string]interface{}\<close>: strings, and everything else.\<close>

datatype api_value = APIString string | APIOther string

definition LabelsToAPI :: "string gomap option \<Rightarrow> api_value gomap option" where
  "LabelsToAPI labels = map_option (map (\<lambda>(k, v). (k, APIString v))) labels"

definition LabelsFromAPI :: "api_value gomap \<Rightarrow> string gomap" where
  "LabelsFromAPI labels =
     List.map_filter (\<lambda>(k, v). case v of APIString s \<Rightarrow> Some (k, s) | APIOther _ \<Rightarrow> None) labels"

section \<open>Helpers\<close>

text \<open>\<open>PrettySlice\<close> on strings: the loop from index \<open>i\<close>.\<close>

fun pretty_from :: "string list \<Rightarrow> int \<Rightarrow> int \<Rightarrow> string" where
  "pretty_from [] maxItems i = []"
| "pretty_from (x # xs) maxItems i =
     (if i > maxItems - 1 then '' and '' @ show_int (int (length (x # xs))) @ '' other(s)''
      else (if i > 0 then '', '' else []) @ x @ pretty_from xs maxItems (i + 1))"

definition PrettySlice :: "string list \<Rightarrow> int \<Rightarrow> string" where
  "PrettySlice s maxItems = pretty_from s maxItems 0"

text \<open>\<open>env\<close> is \<open>os.LookupEnv\<close>.\<close>

definition WithDefaultFloat64 :: "(string \<Rightarrow> string option) \<Rightarrow> string \<Rightarrow> f64 \<Rightarrow> f64" where
  "WithDefaultFloat64 env key def =
     (case env key of
        None \<Rightarrow> def
      | Some val \<Rightarrow> (case parse_float val of None \<Rightarrow> def | Some f \<Rightarrow> f))"


section \<open>Facts about provider ids\<close>

text \<open>What \<open>makeInstanceID\<close> can name: an id that is not empty and has no slash.\<close>

definition instance_id_ok :: "string \<Rightarrow> bool" where
  "instance_id_ok sid \<longleftrightarrow> sid \<noteq> [] \<and> CHR ''/'' \<notin> set sid"

lemma contains_single: "contains s [c] \<longleftrightarrow> c \<in> set s"
  by (induction s) auto

lemma ParseInstanceID_cases:
  "ParseInstanceID p =
     (if prefix ProviderIDPrefix p \<and> instance_id_ok (drop (length ProviderIDPrefix) p)
      then Inr (drop (length ProviderIDPrefix) p)
      else Inl (Errorf ''provider id does not match known format'' [p]))"
  by (auto simp: ParseInstanceID_def cut_prefix_def instance_id_ok_def contains_single)

text \<open>
  The contract the rest of the program relies on: ids are rendered and parsed back without
  loss, and nothing else parses. The garbage collector compares rendered ids, the cloud
  provider and the labeling controller parse them.
\<close>

locale provider_id_format =
  fixes render :: "string \<Rightarrow> string"
    and parse :: "string \<Rightarrow> string result"
    and valid :: "string \<Rightarrow> bool"
  assumes parse_render: "valid i \<Longrightarrow> parse (render i) = Inr i"
    and parse_sound: "parse p = Inr i \<Longrightarrow> valid i \<and> p = render i"
begin

lemma parse_iff: "parse p = Inr i \<longleftrightarrow> valid i \<and> p = render i"
  using parse_render parse_sound by blast

lemma render_inj: "valid i \<Longrightarrow> valid j \<Longrightarrow> render i = render j \<Longrightarrow> i = j"
  using parse_render by (metis sum.inject(2))

lemma parse_inj: "parse p = Inr i \<Longrightarrow> parse p' = Inr i \<Longrightarrow> p = p'"
  using parse_sound by blast

lemma rendered_member:
  "valid i \<Longrightarrow> (\<And>j. j \<in> J \<Longrightarrow> valid j) \<Longrightarrow> render i \<in> render ` J \<longleftrightarrow> i \<in> J"
  using render_inj by blast

end

interpretation pid: provider_id_format ProviderID ParseInstanceID instance_id_ok
proof unfold_locales
  fix i assume "instance_id_ok i"
  then show "ParseInstanceID (ProviderID i) = Inr i"
    by (simp add: ParseInstanceID_cases ProviderID_def)
next
  fix p i assume "ParseInstanceID p = Inr i"
  then show "instance_id_ok i \<and> p = ProviderID i"
    by (auto simp: ParseInstanceID_cases ProviderID_def prefix_def split: if_splits)
qed

text \<open>
  C40 A provider id parses to a server id exactly when it is the rendering of that id, which is
  not empty and has no slash; every other string is the one error of the parser.
\<close>

theorem ParseInstanceID_exact:
  "(ParseInstanceID p = Inr i \<longleftrightarrow> instance_id_ok i \<and> p = ProviderID i)
   \<and> (is_ok (ParseInstanceID p)
      \<longleftrightarrow> ParseInstanceID p \<noteq> Inl (Errorf ''provider id does not match known format'' [p]))"
  using pid.parse_iff [of p i] by (simp add: ParseInstanceID_cases)

section \<open>Facts about sorted keys\<close>

definition sink :: "string list \<Rightarrow> string \<Rightarrow> string list" where
  "sink xs x = rev (dropWhile (\<lambda>z. x < z) (rev xs)) @ x # rev (takeWhile (\<lambda>z. x < z) (rev xs))"

lemma sift_sink: "sift (xs @ x # ys) (length xs) = sink xs x @ ys"
proof (induction xs arbitrary: ys rule: rev_induct)
  case Nil
  show ?case by (simp add: sink_def)
next
  case (snoc z xs)
  have upd: "((xs @ [z]) @ x # ys)[Suc (length xs) := z, length xs := x] = xs @ x # z # ys"
    by (simp add: list_update_append)
  show ?case
    using snoc.IH [of "z # ys"] upd by (simp add: sink_def nth_append)
qed

lemma mset_sink: "mset (sink xs x) = add_mset x (mset xs)"
proof -
  have "mset (takeWhile (\<lambda>z. x < z) (rev xs)) + mset (dropWhile (\<lambda>z. x < z) (rev xs)) = mset xs"
    by (metis mset_append mset_rev takeWhile_dropWhile_id)
  then show ?thesis by (simp add: sink_def ac_simps)
qed

lemma sorted_sink:
  assumes "sorted xs"
  shows "sorted (sink xs x)"
proof -
  let ?hi = "takeWhile (\<lambda>z. x < z) (rev xs)" and ?lo = "dropWhile (\<lambda>z. x < z) (rev xs)"
  have xs: "xs = rev ?lo @ rev ?hi"
    by (metis rev_append rev_rev_ident takeWhile_dropWhile_id)
  with assms have lo: "sorted (rev ?lo)" and hi: "sorted (rev ?hi)"
    by (metis sorted_append)+
  have "z \<le> x" if "z \<in> set (rev ?lo)" for z
  proof -
    have "?lo \<noteq> []" using that by (metis empty_iff list.set(1) set_rev)
    then obtain y ys where y: "?lo = y # ys" by (meson neq_Nil_conv)
    then have "\<not> x < y" using hd_dropWhile [of "\<lambda>z. x < z" "rev xs"] by auto
    moreover from lo y that have "z \<le> y" by (auto simp: sorted_append)
    ultimately show ?thesis by simp
  qed
  moreover have "x \<le> z" if "z \<in> set ?hi" for z
    using set_takeWhileD [OF that] by (simp add: less_imp_le)
  ultimately show ?thesis
    using lo hi by (fastforce simp: sink_def sorted_append intro: order_trans)
qed

lemma sort_from_sorted:
  "sorted (take i ks) \<Longrightarrow> sorted (sort_from ks i) \<and> mset (sort_from ks i) = mset ks"
proof (induction ks i rule: sort_from.induct)
  case (1 ks i)
  show ?case
  proof (cases "i < length ks")
    case True
    define xs x ys where "xs = take i ks" and "x = ks ! i" and "ys = drop (Suc i) ks"
    have ks: "ks = xs @ x # ys" and len: "length xs = i"
      using True by (simp_all add: xs_def x_def ys_def id_take_nth_drop)
    have s: "sift ks i = sink xs x @ ys"
      using sift_sink [of xs x ys] ks len by simp
    have "size (mset (sink xs x)) = Suc i" by (simp add: mset_sink len)
    then have "take (Suc i) (sink xs x @ ys) = sink xs x" by simp
    moreover have "sorted (sink xs x)" using "1.prems" by (simp add: xs_def sorted_sink)
    ultimately have "sorted (take (Suc i) (sift ks i))" by (simp add: s)
    moreover have "mset (sift ks i) = mset ks" unfolding s by (subst ks) (simp add: mset_sink)
    ultimately have "sorted (sort_from (sift ks i) (Suc i)) \<and> mset (sort_from (sift ks i) (Suc i)) = mset ks"
      using "1.IH" True by simp
    with True show ?thesis by (simp add: sort_from.simps [of ks i])
  next
    case False
    with "1.prems" show ?thesis by (simp add: sort_from.simps [of ks i])
  qed
qed

lemma sortedKeys_sort: "sortedKeys m = sort (keys m)"
proof -
  have "sorted (take 1 (keys m))" by (cases m) simp_all
  then have "sorted (sortedKeys m)" "mset (sortedKeys m) = mset (keys m)"
    using sort_from_sorted unfolding sortedKeys_def by blast+
  then show ?thesis by (metis properties_for_sort)
qed

lemma sortedKeys_set: "wf_map m \<Longrightarrow> sortedKeys m = sorted_list_of_set (dom (map_of m))"
  using sorted_list_of_set_sort_remdups [of "keys m"]
  by (simp add: sortedKeys_sort dom_map_of_conv_image_fst distinct_remdups_id)

lemma sortedKeys_perm:
  "wf_map m1 \<Longrightarrow> wf_map m2 \<Longrightarrow> map_of m1 = map_of m2 \<Longrightarrow> sortedKeys m1 = sortedKeys m2"
  by (simp add: sortedKeys_set)

lemma set_sortedKeys [simp]: "set (sortedKeys m) = set (keys m)"
  by (simp add: sortedKeys_sort)


section \<open>Facts about the zone sanitiser\<close>

text \<open>The characters \<open>SanitizeZone\<close> trims, and the values it leaves alone.\<close>

definition zone_edge :: "char \<Rightarrow> bool" where
  "zone_edge c \<longleftrightarrow> c \<in> set ''-_.''"

definition zone_trimmed :: "string \<Rightarrow> bool" where
  "zone_trimmed s \<longleftrightarrow> list_all zone_char s \<and> (s = [] \<or> \<not> zone_edge (hd s) \<and> \<not> zone_edge (last s))"

lemma replace_runs_chars: "list_all zone_char (replace_runs s)"
proof (induction s rule: replace_runs.induct)
  case (2 c s)
  have "zone_char CHR ''-''" by (simp add: zone_char_def)
  with 2 show ?case by simp
qed simp

lemma replace_runs_id: "list_all zone_char s \<Longrightarrow> replace_runs s = s"
  by (induction s) simp_all

lemma list_all_sub: "list_all P s \<Longrightarrow> set t \<subseteq> set s \<Longrightarrow> list_all P t"
  by (auto simp: list_all_iff)

lemma trim_edges:
  "trim s cs = [] \<or> hd (trim s cs) \<notin> set cs \<and> last (trim s cs) \<notin> set cs"
proof (cases "trim s cs = []")
  case False
  define inside where "inside = (\<lambda>c. c \<in> set cs)"
  define t where "t = dropWhile inside s"
  have tr: "trim s cs = rev (dropWhile inside (rev t))"
    by (simp add: trim_def Let_def inside_def t_def)
  with False have ne: "dropWhile inside (rev t) \<noteq> []" by auto
  have last: "\<not> inside (last (trim s cs))"
    using hd_dropWhile [OF ne] by (simp add: tr last_rev)
  from ne have tne: "t \<noteq> []" by auto
  obtain u where u: "t = trim s cs @ u"
    by (metis rev_append rev_rev_ident takeWhile_dropWhile_id tr)
  then have "hd (trim s cs) = hd t" using False by (metis hd_append2)
  moreover have "\<not> inside (hd t)" using tne hd_dropWhile unfolding t_def by blast
  ultimately show ?thesis using last by (simp add: inside_def)
qed simp

lemma set_trim: "set (trim s cs) \<subseteq> set s"
  by (auto simp: trim_def Let_def dest!: set_dropWhileD)

lemma trim_id: "s = [] \<or> hd s \<notin> set cs \<and> last s \<notin> set cs \<Longrightarrow> trim s cs = s"
proof (cases s)
  case (Cons a l)
  moreover assume "s = [] \<or> hd s \<notin> set cs \<and> last s \<notin> set cs"
  moreover have "rev s = last s # rev (butlast s)" using Cons by (metis append_butlast_last_id list.distinct(1) rev_eq_Cons_iff rev_rev_ident)
  ultimately show ?thesis
    by (simp add: trim_def Let_def)
qed (simp add: trim_def)

lemma length_trim: "length (trim s cs) \<le> length s"
  using length_dropWhile_le [of "\<lambda>c. c \<in> set cs" "rev (dropWhile (\<lambda>c. c \<in> set cs) s)"]
    length_dropWhile_le [of "\<lambda>c. c \<in> set cs" s]
  by (simp add: trim_def Let_def)

lemma trim_runs_trimmed: "zone_trimmed (trim (replace_runs z) ''-_.'')"
  using trim_edges [of "replace_runs z" "''-_.''"] list_all_sub [OF replace_runs_chars set_trim]
  by (auto simp: zone_trimmed_def zone_edge_def)

lemma zone_trimmed_fix: "zone_trimmed s \<Longrightarrow> trim (replace_runs s) ''-_.'' = s"
  using trim_id [of s "''-_.''"] by (auto simp: zone_trimmed_def zone_edge_def replace_runs_id)

lemma replace_runs_length: "length (replace_runs z) \<le> length z"
proof (induction z rule: replace_runs.induct)
  case (2 c s)
  then show ?case using length_dropWhile_le [of "\<lambda>x. \<not> zone_char x" s] by (cases "zone_char c") auto
qed simp

lemma trim_length: "length (trim s cs) \<le> length s"
  using length_dropWhile_le [of "\<lambda>c. c \<in> set cs" s]
    length_dropWhile_le [of "\<lambda>c. c \<in> set cs" "rev (dropWhile (\<lambda>c. c \<in> set cs) s)"]
  by (simp add: trim_def Let_def)

text \<open>A zone that fits is sanitised once and for all.\<close>

lemma SanitizeZone_short: "length z \<le> 63 \<Longrightarrow> SanitizeZone (SanitizeZone z) = SanitizeZone z"
  using replace_runs_length [of z] trim_length [of "replace_runs z" "''-_.''"] zone_trimmed_fix [OF trim_runs_trimmed [of z]]
  by (simp add: SanitizeZone_def Let_def)

lemma SanitizeZone_length: "length (SanitizeZone z) \<le> 63"
  by (simp add: SanitizeZone_def Let_def)

lemma SanitizeZone_prefix: "\<exists>t. zone_trimmed t \<and> SanitizeZone z = take 63 t"
  using trim_runs_trimmed [of z] by (auto simp: SanitizeZone_def Let_def intro!: exI [of _ "trim (replace_runs z) ''-_.''"])

text \<open>
  The sanitiser's image and fixed points: its result always has at most 63 characters, all
  of them allowed in a label value, and starts with none of \<open>-_.\<close>; and the strings it leaves
  unchanged are exactly its results that are also trimmed at the end, so that a zone whose
  trimmed form fits in 63 characters is sanitised once and for all.
\<close>

lemma SanitizeZone_image:
  "list_all zone_char (SanitizeZone z) \<and> length (SanitizeZone z) \<le> 63
   \<and> list_all (\<lambda>c. \<not> zone_edge c) (take 1 (SanitizeZone z))
   \<and> (SanitizeZone z = z \<longleftrightarrow> zone_trimmed z \<and> length z \<le> 63)
   \<and> (SanitizeZone (SanitizeZone z) = SanitizeZone z \<longleftrightarrow> zone_trimmed (SanitizeZone z))"
proof -
  have fixed: "SanitizeZone y = y \<longleftrightarrow> zone_trimmed y \<and> length y \<le> 63" for y
  proof
    assume eq: "SanitizeZone y = y"
    then have len: "length y \<le> 63" using SanitizeZone_length [of y] by simp
    have "y = trim (replace_runs y) ''-_.''"
    proof (rule ccontr)
      assume ne: "y \<noteq> trim (replace_runs y) ''-_.''"
      with eq have long: "63 < length (trim (replace_runs y) ''-_.'')"
        by (auto simp: SanitizeZone_def Let_def split: if_splits)
      have all: "list_all zone_char y"
        using eq SanitizeZone_prefix [of y]
        by (auto simp: zone_trimmed_def intro: list_all_sub dest!: set_take_subset [THEN subsetD])
      then have "length (trim (replace_runs y) ''-_.'') \<le> length y"
        using length_trim [of y "''-_.''"] replace_runs_id [OF all] by simp
      with long len show False by simp
    qed
    with len show "zone_trimmed y \<and> length y \<le> 63" using trim_runs_trimmed by metis
  next
    assume "zone_trimmed y \<and> length y \<le> 63"
    then show "SanitizeZone y = y" by (simp add: SanitizeZone_def zone_trimmed_fix)
  qed
  obtain t where t: "zone_trimmed t" "SanitizeZone z = take 63 t"
    using SanitizeZone_prefix by blast
  have "list_all zone_char (take 63 t)"
    using t(1) by (auto simp: zone_trimmed_def list_all_iff dest: in_set_takeD)
  moreover have "list_all (\<lambda>c. \<not> zone_edge c) (take 1 (take 63 t))"
    using t(1) by (cases t) (auto simp: zone_trimmed_def)
  ultimately show ?thesis
    using t(2) fixed [of z] fixed [of "SanitizeZone z"] SanitizeZone_length [of z] by simp
qed

section \<open>Facts about labels\<close>

text \<open>What a user label has to satisfy, and what the list API reads out of a selector.\<close>

definition label_ok :: "string \<Rightarrow> string \<Rightarrow> bool" where
  "label_ok k v \<longleftrightarrow>
     k \<noteq> [] \<and> length k \<le> 255 \<and> list_all (\<lambda>c. 0x21 \<le> ord c \<and> ord c \<le> 0x7E) k
     \<and> CHR '','' \<notin> set k \<and> CHR ''='' \<notin> set k
     \<and> length v \<le> 255 \<and> list_all (\<lambda>c. 0x20 \<le> ord c \<and> ord c \<le> 0x7E) v \<and> CHR '','' \<notin> set v
     \<and> k \<notin> set ManagedLabelKeys"

definition parse_selector :: "string \<Rightarrow> string gomap" where
  "parse_selector s = map (\<lambda>part. let (k, v, _) = cut part CHR ''='' in (k, v)) (split_on CHR '','' s)"

lemma label_problem_Nil: "label_problem k v = [] \<longleftrightarrow> label_ok k v"
  by (auto simp: label_problem_def label_ok_def maxLabelKeyLength_def maxLabelValueLength_def
      label_key_match_def label_value_match_def contains_any_def list_ex_iff contains_single)

lemma map_get_map_of: "map_of m k = Some v \<Longrightarrow> map_get m k = v"
  by (simp add: map_get_def)

lemma ValidateLabels_None_iff:
  "ValidateLabels m = None \<longleftrightarrow> list_all (\<lambda>k. label_ok k (map_get m k)) (keys m)"
proof -
  have "concat (map (\<lambda>k. label_problem k (map_get m k)) (sortedKeys m)) = []
        \<longleftrightarrow> (\<forall>k \<in> set (keys m). label_ok k (map_get m k))"
    by (simp add: label_problem_Nil)
  then show ?thesis by (simp add: ValidateLabels_def Let_def list_all_iff)
qed

lemma ValidateLabels_entry:
  assumes "ValidateLabels m = None" "map_of m k = Some v"
  shows "label_ok k v"
proof -
  have "k \<in> set (keys m)" using assms(2) by (metis domI dom_map_of_conv_image_fst list.set_map)
  then show ?thesis
    using assms by (metis ValidateLabels_None_iff list_all_iff map_get_map_of)
qed

lemma split_on_free: "c \<notin> set s \<Longrightarrow> split_on c s = [s]"
  by (induction s) auto

lemma split_on_append: "c \<notin> set s \<Longrightarrow> split_on c (s @ c # t) = s # split_on c t"
  by (induction s) auto

lemma split_on_join:
  "ss \<noteq> [] \<Longrightarrow> (\<And>s. s \<in> set ss \<Longrightarrow> c \<notin> set s) \<Longrightarrow> split_on c (join_with [c] ss) = ss"
proof (induction "[c]" ss rule: join_with.induct)
  case (3 s t ss)
  then have "c \<notin> set s" by simp
  with 3 show ?case by (simp add: split_on_append)
qed (auto simp: split_on_free)

lemma cut_append: "c \<notin> set k \<Longrightarrow> cut (k @ c # v) c = (k, v, True)"
  by (induction k) (auto simp: cut_def)

text \<open>
  The selector of a non-empty validated label map reads back as that map: the separators
  the validation bans cannot occur inside a key or a value.
\<close>

lemma LabelSelector_roundtrip:
  assumes ne: "m \<noteq> []" and valid: "ValidateLabels m = None"
  shows "map_of (parse_selector (LabelSelector m)) = map_of m"
proof -
  let ?part = "\<lambda>k. k @ ''='' @ map_get m k"
  have ok: "label_ok k (map_get m k)" if "k \<in> set (keys m)" for k
    using valid that unfolding ValidateLabels_None_iff list_all_iff by blast
  have ne': "map ?part (sortedKeys m) \<noteq> []" using ne set_sortedKeys [of m] by (metis list.map_disc_iff set_empty)
  have free: "CHR '','' \<notin> set s" if "s \<in> set (map ?part (sortedKeys m))" for s
  proof -
    from that obtain k where "k \<in> set (sortedKeys m)" "s = ?part k" unfolding set_map by blast
    with ok [of k] show ?thesis by (simp add: label_ok_def)
  qed
  have "parse_selector (LabelSelector m)
        = map (\<lambda>part. let (k, v, _) = cut part CHR ''='' in (k, v)) (map ?part (sortedKeys m))"
    using split_on_join [OF ne' free] by (simp add: parse_selector_def LabelSelector_def)
  also have "\<dots> = map (\<lambda>k. (k, map_get m k)) (sortedKeys m)"
    using ok unfolding map_map by (intro map_cong refl) (simp add: cut_append label_ok_def)
  finally have eq: "parse_selector (LabelSelector m) = map (\<lambda>k. (k, map_get m k)) (sortedKeys m)" .
  show ?thesis
  proof
    fix k
    show "map_of (parse_selector (LabelSelector m)) k = map_of m k"
    proof (cases "map_of m k")
      case None
      then have "k \<notin> set (keys m)" by (simp add: map_of_eq_None_iff)
      then have "k \<notin> set (sortedKeys m)" by simp
      with None eq show ?thesis by (simp add: map_of_map_restrict)
    next
      case (Some v)
      then have "k \<in> set (sortedKeys m)"
        by (metis domI dom_map_of_conv_image_fst list.set_map set_sortedKeys)
      with Some eq show ?thesis by (simp add: map_of_map_restrict map_get_def)
    qed
  qed
qed

lemma LabelSelector_roundtrip_witness:
  "map_of (parse_selector (LabelSelector [(''b'', ''x=y''), (''a'', ''1'')])) ''b'' = Some ''x=y''"
  using LabelSelector_roundtrip [of "[(''b'', ''x=y''), (''a'', ''1'')]"]
  by (simp add: ValidateLabels_None_iff label_ok_def map_get_def ManagedLabelKeys_def label_key_defs)

text \<open>
  The labels on a server: the controller's four keys have exactly the values it derives from
  the cluster, the NodeClass and the NodeClaim, whatever the user wrote under them, the
  NodePool key only when the NodeClaim carries one; every other key is the user's.
\<close>

lemma ManagedLabels_lookup:
  "map_of (ManagedLabels nodeClass nodeClaim clusterName) k =
     (if k = LabelKeyManagedBy then Some clusterName
      else if k = LabelKeyNodeClass then Some (nc_name nodeClass)
      else if k = LabelKeyNodeClaim then Some (claim_name nodeClaim)
      else if k = LabelKeyNodePool \<and> map_of (claim_labels nodeClaim) NodePoolLabelKey \<noteq> None
      then map_of (claim_labels nodeClaim) NodePoolLabelKey
      else map_of (spec_labels (nc_spec nodeClass)) k)"
proof -
  have "distinct [LabelKeyManagedBy, LabelKeyNodePool, LabelKeyNodeClaim, LabelKeyNodeClass]"
    using managed_keys_distinct by (simp add: ManagedLabelKeys_def)
  then show ?thesis
    by (auto simp: ManagedLabels_def Let_def gomap_simps split: option.splits)
qed

lemma ManagedLabels_wf:
  "wf_map (spec_labels (nc_spec nodeClass)) \<Longrightarrow> wf_map (ManagedLabels nodeClass nodeClaim clusterName)"
  unfolding ManagedLabels_def Let_def by (rule wf_map_assign)

lemma LabelsFromAPI_lookup:
  "wf_map labels \<Longrightarrow>
     map_of (LabelsFromAPI labels) k =
       (case map_of labels k of Some (APIString s) \<Rightarrow> Some s | _ \<Rightarrow> None)"
proof (induction labels)
  case (Cons kv labels)
  obtain k' v where kv: "kv = (k', v)" by force
  with Cons.prems have "map_of labels k' = None" by (simp add: map_of_eq_None_iff)
  then show ?case
    using Cons by (cases v) (auto simp: LabelsFromAPI_def kv)
qed (simp add: LabelsFromAPI_def)

lemma LabelsFromAPI_ToAPI:
  "LabelsFromAPI (case LabelsToAPI (Some m) of Some l \<Rightarrow> l | None \<Rightarrow> []) = m"
  by (induction m) (auto simp: LabelsFromAPI_def LabelsToAPI_def)

text \<open>
  What is stamped on a server is what is read back from it: converting labels to the SDK's
  type and back is the identity, and on the way back every key keeps its value if that is a
  string and is dropped otherwise.
\<close>

lemma labels_api_roundtrip:
  assumes "wf_map api"
  shows "map_option LabelsFromAPI (LabelsToAPI labels) = labels
    \<and> map_of (LabelsFromAPI api) k = (case map_of api k of Some (APIString s) \<Rightarrow> Some s | _ \<Rightarrow> None)"
  using assms LabelsFromAPI_ToAPI LabelsFromAPI_lookup
  by (cases labels) (simp_all add: LabelsToAPI_def)

lemma labels_api_roundtrip_witness:
  "map_of (LabelsFromAPI [(''a'', APIString ''x''), (''b'', APIOther ''1'')]) ''b'' = None
   \<and> map_option LabelsFromAPI (LabelsToAPI (Some [(''a'', ''x'')])) = Some [(''a'', ''x'')]"
  using labels_api_roundtrip [of "[(''a'', APIString ''x''), (''b'', APIOther ''1'')]"] by simp

section \<open>Facts about the helpers\<close>

lemma pretty_from_spec:
  assumes "0 \<le> i" "i \<le> maxItems"
  shows "pretty_from xs maxItems i =
    (if i > 0 \<and> take (nat (maxItems - i)) xs \<noteq> [] then '', '' else [])
    @ join_with '', '' (take (nat (maxItems - i)) xs)
    @ (if int (length xs) > maxItems - i
       then '' and '' @ show_int (int (length xs) - (maxItems - i)) @ '' other(s)'' else [])"
  using assms
proof (induction xs arbitrary: i)
  case (Cons x xs)
  show ?case
  proof (cases "i = maxItems")
    case False
    with Cons.prems have n: "nat (maxItems - i) = Suc (nat (maxItems - (i + 1)))" by simp
    have j: "join_with '', '' (x # ys) = x @ (if ys \<noteq> [] then '', '' else []) @ join_with '', '' ys" for ys
      by (cases ys) simp_all
    have "int (length (x # xs)) - (maxItems - i) = int (length xs) - (maxItems - (i + 1))" by simp
    then show ?thesis
      using Cons.IH [of "i + 1"] Cons.prems False by (simp add: n j algebra_simps del: join_with.simps)
  qed simp
qed simp

text \<open>
  A log line shows at most \<open>maxItems\<close> elements, separated by commas, and counts the ones
  it leaves out.
\<close>

lemma PrettySlice_spec:
  "PrettySlice xs (int n) =
     join_with '', '' (take n xs)
     @ (if n < length xs then '' and '' @ show_int (int (length xs - n)) @ '' other(s)'' else [])"
  using pretty_from_spec [of 0 "int n" xs] by (auto simp: PrettySlice_def)

end
