(* ===== verification/StackitSdk.thy ===== *)
theory StackitSdk
  imports Utils
begin

text \<open>
  \<open>pkg/stackit/sdk.go\<close>: the interface \<open>API\<close> to the STACKIT IaaS service, its implementation
  \<open>Client\<close> on the generated SDK, and the classification of the SDK's errors.

  The generated SDK is not part of the repository. It is the record \<open>'w sdk\<close> of its calls, each
  a function of the state \<open>'w\<close> of the outside world. \<open>API\<close> is a Go interface: it is a record
  of functions too, and \<open>Client\<close> is the function from the one to the other.
\<close>

section \<open>The SDK's data\<close>

text \<open>
  \<open>iaas.Server\<close>, \<open>iaas.MachineType\<close> and \<open>iaas.CreateServerPayload\<close>: the fields the code reads
  and writes; an optional field is an option.
\<close>

record boot_volume =
  sbv_id :: "string option"

record server =
  srv_id :: "string option"
  srv_name :: string
  srv_availability_zone :: "string option"
  srv_machine_type :: string
  srv_status :: "string option"
  srv_created_at :: "int option"
  srv_labels :: "api_value gomap option"
  srv_boot_volume :: "boot_volume option"

record machine_type =
  mt_name :: string
  mt_vcpus :: int
  mt_ram :: int
  mt_disk :: int
  mt_description :: "string option"
  mt_extra_specs :: "string gomap"

datatype networking_payload = NetworkId "string option" | NicIds "string list"

record boot_volume_payload =
  bvp_size :: int
  bvp_delete_on_termination :: bool
  bvp_performance_class :: "string option"
  bvp_source_id :: string
  bvp_source_type :: string

record create_payload =
  cp_name :: string
  cp_machine_type :: string
  cp_availability_zone :: "string option"
  cp_labels :: "api_value gomap option"
  cp_networking :: networking_payload
  cp_boot_volume :: boot_volume_payload
  cp_user_data :: "string option"
  cp_keypair_name :: "string option"
  cp_affinity_group :: "string option"
  cp_security_groups :: "string list"
  cp_service_account_mails :: "string list"

text \<open>A getter of an optional field returns the zero value when the field is missing.\<close>

definition get_or :: "'a \<Rightarrow> 'a option \<Rightarrow> 'a" where
  "get_or zero x = (case x of Some v \<Rightarrow> v | None \<Rightarrow> zero)"

section \<open>The SDK and the interface\<close>

text \<open>
  The calls of \<open>iaas.DefaultAPI\<close>, with the project and region each is given. A list call may
  return no response object. \<open>sdk_list_servers\<close> takes the details flag and the selector,
  \<open>None\<close> when it is not set.
\<close>

record 'w sdk =
  sdk_create_server :: "string \<Rightarrow> string \<Rightarrow> create_payload \<Rightarrow> 'w \<Rightarrow> server result \<times> 'w"
  sdk_get_server :: "string \<Rightarrow> string \<Rightarrow> string \<Rightarrow> 'w \<Rightarrow> server result \<times> 'w"
  sdk_delete_server :: "string \<Rightarrow> string \<Rightarrow> string \<Rightarrow> 'w \<Rightarrow> go_error option \<times> 'w"
  sdk_list_servers :: "string \<Rightarrow> string \<Rightarrow> bool \<Rightarrow> string option \<Rightarrow> 'w \<Rightarrow> server list option result \<times> 'w"
  sdk_update_server :: "string \<Rightarrow> string \<Rightarrow> string \<Rightarrow> api_value gomap option \<Rightarrow> 'w \<Rightarrow> go_error option \<times> 'w"
  sdk_list_machine_types :: "string \<Rightarrow> string \<Rightarrow> 'w \<Rightarrow> machine_type list option result \<times> 'w"
  sdk_list_availability_zones :: "string \<Rightarrow> 'w \<Rightarrow> string list option result \<times> 'w"
  sdk_delete_volume :: "string \<Rightarrow> string \<Rightarrow> string \<Rightarrow> 'w \<Rightarrow> go_error option \<times> 'w"

record 'w api =
  api_CreateServer :: "create_payload \<Rightarrow> 'w \<Rightarrow> server result \<times> 'w"
  api_GetServer :: "string \<Rightarrow> 'w \<Rightarrow> server result \<times> 'w"
  api_DeleteServer :: "string \<Rightarrow> 'w \<Rightarrow> go_error option \<times> 'w"
  api_ListServers :: "string \<Rightarrow> 'w \<Rightarrow> server list result \<times> 'w"
  api_UpdateServerLabels :: "string \<Rightarrow> string gomap option \<Rightarrow> 'w \<Rightarrow> go_error option \<times> 'w"
  api_ListMachineTypes :: "'w \<Rightarrow> machine_type list result \<times> 'w"
  api_ListAvailabilityZones :: "'w \<Rightarrow> string list result \<times> 'w"
  api_DeleteVolume :: "string \<Rightarrow> 'w \<Rightarrow> go_error option \<times> 'w"

record 'w client =
  client_api :: "'w sdk"
  client_projectID :: string
  client_region :: string

text \<open>\<open>mk\<close> is \<open>iaas.NewAPIClient\<close> with the options and the region.\<close>

definition NewClient :: "(string \<Rightarrow> 'w sdk result) \<Rightarrow> string \<Rightarrow> string \<Rightarrow> 'w client result" where
  "NewClient mk projectID region =
     (if projectID = [] then Inl (Errorf ''stackit: project id is required'' [])
      else if region = [] then Inl (Errorf ''stackit: region is required'' [])
      else case mk region of
          Inl e \<Rightarrow> Inl (Wrapf ''creating stackit iaas client'' [] e)
        | Inr sdk \<Rightarrow> Inr \<lparr>client_api = sdk, client_projectID = projectID, client_region = region\<rparr>)"

definition NewClientWithAPI :: "'w sdk \<Rightarrow> string \<Rightarrow> string \<Rightarrow> 'w client" where
  "NewClientWithAPI api projectID region = \<lparr>client_api = api, client_projectID = projectID, client_region = region\<rparr>"

definition Client_Region :: "'w client \<Rightarrow> string" where
  "Client_Region c = client_region c"

definition Client_ProjectID :: "'w client \<Rightarrow> string" where
  "Client_ProjectID c = client_projectID c"

text \<open>The shape the calls share: wrap the error, keep the value.\<close>

definition wrap_result :: "string \<Rightarrow> string list \<Rightarrow> 'a result \<times> 'w \<Rightarrow> 'a result \<times> 'w" where
  "wrap_result fmt args rw = (case rw of
       (Inl e, w) \<Rightarrow> (Inl (Wrapf fmt args e), w)
     | (Inr x, w) \<Rightarrow> (Inr x, w))"

definition wrap_error :: "string \<Rightarrow> string list \<Rightarrow> go_error option \<times> 'w \<Rightarrow> go_error option \<times> 'w" where
  "wrap_error fmt args rw = (case rw of
       (Some e, w) \<Rightarrow> (Some (Wrapf fmt args e), w)
     | (None, w) \<Rightarrow> (None, w))"

definition items :: "'a list option result \<times> 'w \<Rightarrow> 'a list result \<times> 'w" where
  "items rw = (case rw of
       (Inl e, w) \<Rightarrow> (Inl e, w)
     | (Inr None, w) \<Rightarrow> (Inr [], w)
     | (Inr (Some xs), w) \<Rightarrow> (Inr xs, w))"

definition CreateServer :: "'w client \<Rightarrow> create_payload \<Rightarrow> 'w \<Rightarrow> server result \<times> 'w" where
  "CreateServer c payload w =
     wrap_result ''creating server'' []
       (sdk_create_server (client_api c) (client_projectID c) (client_region c) payload w)"

definition GetServer :: "'w client \<Rightarrow> string \<Rightarrow> 'w \<Rightarrow> server result \<times> 'w" where
  "GetServer c serverID w =
     wrap_result ''getting server %s'' [serverID]
       (sdk_get_server (client_api c) (client_projectID c) (client_region c) serverID w)"

definition DeleteServer :: "'w client \<Rightarrow> string \<Rightarrow> 'w \<Rightarrow> go_error option \<times> 'w" where
  "DeleteServer c serverID w =
     wrap_error ''deleting server %s'' [serverID]
       (sdk_delete_server (client_api c) (client_projectID c) (client_region c) serverID w)"

definition ListServers :: "'w client \<Rightarrow> string \<Rightarrow> 'w \<Rightarrow> server list result \<times> 'w" where
  "ListServers c labelSelector w =
     items (wrap_result ''listing servers'' []
       (sdk_list_servers (client_api c) (client_projectID c) (client_region c) True
          (if labelSelector \<noteq> [] then Some labelSelector else None) w))"

definition UpdateServerLabels ::
  "'w client \<Rightarrow> string \<Rightarrow> string gomap option \<Rightarrow> 'w \<Rightarrow> go_error option \<times> 'w" where
  "UpdateServerLabels c serverID labels w =
     wrap_error ''updating labels on server %s'' [serverID]
       (sdk_update_server (client_api c) (client_projectID c) (client_region c) serverID
          (LabelsToAPI labels) w)"

definition ListMachineTypes :: "'w client \<Rightarrow> 'w \<Rightarrow> machine_type list result \<times> 'w" where
  "ListMachineTypes c w =
     items (wrap_result ''listing machine types'' []
       (sdk_list_machine_types (client_api c) (client_projectID c) (client_region c) w))"

definition ListAvailabilityZones :: "'w client \<Rightarrow> 'w \<Rightarrow> string list result \<times> 'w" where
  "ListAvailabilityZones c w =
     items (wrap_result ''listing availability zones'' []
       (sdk_list_availability_zones (client_api c) (client_region c) w))"

definition DeleteVolume :: "'w client \<Rightarrow> string \<Rightarrow> 'w \<Rightarrow> go_error option \<times> 'w" where
  "DeleteVolume c volumeID w =
     wrap_error ''deleting volume %s'' [volumeID]
       (sdk_delete_volume (client_api c) (client_projectID c) (client_region c) volumeID w)"

text \<open>\<open>*Client\<close> as an \<open>API\<close>.\<close>

definition client_as_api :: "'w client \<Rightarrow> 'w api" where
  "client_as_api c =
     \<lparr>api_CreateServer = CreateServer c, api_GetServer = GetServer c, api_DeleteServer = DeleteServer c,
      api_ListServers = ListServers c, api_UpdateServerLabels = UpdateServerLabels c,
      api_ListMachineTypes = ListMachineTypes c, api_ListAvailabilityZones = ListAvailabilityZones c,
      api_DeleteVolume = DeleteVolume c\<rparr>"

section \<open>Classification of errors\<close>

definition hasStatus :: "go_error \<Rightarrow> int \<Rightarrow> bool" where
  "hasStatus err code =
     (case as_api_error err of None \<Rightarrow> False | Some (status, _, _) \<Rightarrow> status = code)"

definition IsNotFound :: "go_error \<Rightarrow> bool" where
  "IsNotFound err = hasStatus err 404"

definition IsConflict :: "go_error \<Rightarrow> bool" where
  "IsConflict err = hasStatus err 409"

definition IsUnauthorized :: "go_error \<Rightarrow> bool" where
  "IsUnauthorized err = (hasStatus err 401 \<or> hasStatus err 403)"

definition IsRetryable :: "go_error \<Rightarrow> bool" where
  "IsRetryable err =
     (case as_api_error err of None \<Rightarrow> False
      | Some (status, _, _) \<Rightarrow> status \<ge> 500 \<or> status = 429)"

definition capacityMessageFragments :: "string list" where
  "capacityMessageFragments =
     [''no valid host'', ''not enough hosts available'', ''insufficient capacity'',
      ''resource quota exceeded'', ''quota exceeded'']"

definition IsInsufficientCapacity :: "(string \<Rightarrow> string) \<Rightarrow> go_error \<Rightarrow> bool" where
  "IsInsufficientCapacity ul err =
     (case as_api_error err of
        None \<Rightarrow> False
      | Some (status, raw, msg) \<Rightarrow>
          if status = 409 \<or> status = 403 \<or> status = 422 \<or> status = 503
          then (let body = to_lower ul (raw @ '' '' @ msg)
                in list_ex (\<lambda>fragment. contains body fragment) capacityMessageFragments)
          else False)"

lemmas classify_defs =
  hasStatus_def IsNotFound_def IsConflict_def IsUnauthorized_def IsRetryable_def IsInsufficientCapacity_def

lemma classify_Wrapf [simp]:
  "hasStatus (Wrapf fmt args e) = hasStatus e"
  "IsNotFound (Wrapf fmt args e) = IsNotFound e"
  "IsConflict (Wrapf fmt args e) = IsConflict e"
  "IsUnauthorized (Wrapf fmt args e) = IsUnauthorized e"
  "IsRetryable (Wrapf fmt args e) = IsRetryable e"
  "IsInsufficientCapacity ul (Wrapf fmt args e) = IsInsufficientCapacity ul e"
  by (simp_all add: classify_defs fun_eq_iff)

section \<open>The interface\<close>

text \<open>
  What the callers of the interface rely on: a call fails exactly when the SDK's call behind it
  does, leaves the same world, and its error is classified like the SDK's.
\<close>

definition same_class :: "(string \<Rightarrow> string) \<Rightarrow> go_error \<Rightarrow> go_error \<Rightarrow> bool" where
  "same_class ul e e' \<longleftrightarrow>
     IsNotFound e' = IsNotFound e \<and> IsConflict e' = IsConflict e \<and> IsUnauthorized e' = IsUnauthorized e
     \<and> IsRetryable e' = IsRetryable e \<and> IsInsufficientCapacity ul e' = IsInsufficientCapacity ul e"

fun res_agrees :: "(go_error \<Rightarrow> go_error \<Rightarrow> bool) \<Rightarrow> ('a \<Rightarrow> 'b) \<Rightarrow> 'a result \<times> 'w \<Rightarrow> 'b result \<times> 'w \<Rightarrow> bool" where
  "res_agrees R f (Inl e, w) (Inl e', w') \<longleftrightarrow> R e e' \<and> w' = w"
| "res_agrees R f (Inr x, w) (Inr y, w') \<longleftrightarrow> y = f x \<and> w' = w"
| "res_agrees R f (Inl _, _) (Inr _, _) \<longleftrightarrow> False"
| "res_agrees R f (Inr _, _) (Inl _, _) \<longleftrightarrow> False"

fun err_agrees :: "(go_error \<Rightarrow> go_error \<Rightarrow> bool) \<Rightarrow> go_error option \<times> 'w \<Rightarrow> go_error option \<times> 'w \<Rightarrow> bool" where
  "err_agrees R (None, w) (None, w') \<longleftrightarrow> w' = w"
| "err_agrees R (Some e, w) (Some e', w') \<longleftrightarrow> R e e' \<and> w' = w"
| "err_agrees R (None, _) (Some _, _) \<longleftrightarrow> False"
| "err_agrees R (Some _, _) (None, _) \<longleftrightarrow> False"

lemma wrap_result_agrees: "res_agrees (same_class ul) id rw (wrap_result fmt args rw)"
  by (cases rw; cases "fst rw") (auto simp: wrap_result_def same_class_def)

lemma wrap_error_agrees: "err_agrees (same_class ul) rw (wrap_error fmt args rw)"
  by (cases rw; cases "fst rw") (auto simp: wrap_error_def same_class_def)

lemma items_agrees:
  "res_agrees (same_class ul) (get_or []) rw (items (wrap_result fmt args rw))"
  by (cases rw; cases "fst rw")
     (auto simp: wrap_result_def items_def same_class_def get_or_def split: option.splits)

text \<open>
  C39 The client is transparent: every call of the interface reaches the SDK with the client's
  project and region, keeps the value it returns (an absent list is empty), and fails exactly
  when the SDK fails, with an error in the same classes. So a caller that asks for the class
  of an error the client returned asks for the class of the API's own answer.
\<close>

theorem client_transparent:
  "let sdk = client_api c; p = client_projectID c; r = client_region c in
     res_agrees (same_class ul) id (sdk_create_server sdk p r payload w) (api_CreateServer (client_as_api c) payload w)
     \<and> res_agrees (same_class ul) id (sdk_get_server sdk p r i w) (api_GetServer (client_as_api c) i w)
     \<and> err_agrees (same_class ul) (sdk_delete_server sdk p r i w) (api_DeleteServer (client_as_api c) i w)
     \<and> res_agrees (same_class ul) (get_or [])
         (sdk_list_servers sdk p r True (if sel = [] then None else Some sel) w)
         (api_ListServers (client_as_api c) sel w)
     \<and> err_agrees (same_class ul) (sdk_update_server sdk p r i (LabelsToAPI labels) w)
         (api_UpdateServerLabels (client_as_api c) i labels w)
     \<and> res_agrees (same_class ul) (get_or []) (sdk_list_machine_types sdk p r w)
         (api_ListMachineTypes (client_as_api c) w)
     \<and> res_agrees (same_class ul) (get_or []) (sdk_list_availability_zones sdk r w)
         (api_ListAvailabilityZones (client_as_api c) w)
     \<and> err_agrees (same_class ul) (sdk_delete_volume sdk p r v w) (api_DeleteVolume (client_as_api c) v w)"
  by (simp add: Let_def client_as_api_def CreateServer_def GetServer_def DeleteServer_def ListServers_def
      UpdateServerLabels_def ListMachineTypes_def ListAvailabilityZones_def DeleteVolume_def
      wrap_result_agrees wrap_error_agrees items_agrees)

text \<open>
  The classes a caller tells apart: a 404 is in no other class, a rejected credential is
  never a fault of the service, and capacity overlaps them only where the API reports
  placement with a 409, quota with a 403, or exhaustion with a 503.
\<close>

lemma classification:
  "(IsNotFound e \<longrightarrow> \<not> IsConflict e \<and> \<not> IsUnauthorized e \<and> \<not> IsRetryable e \<and> \<not> IsInsufficientCapacity ul e)
   \<and> (IsUnauthorized e \<longrightarrow> \<not> IsConflict e \<and> \<not> IsRetryable e)
   \<and> (IsInsufficientCapacity ul e \<and> IsRetryable e \<longrightarrow> hasStatus e 503)
   \<and> (IsInsufficientCapacity ul e \<and> IsUnauthorized e \<longrightarrow> hasStatus e 403)
   \<and> (IsInsufficientCapacity ul e \<and> IsConflict e \<longrightarrow> hasStatus e 409)"
  by (auto simp: classify_defs split: option.splits)

lemma classification_witness:
  "hasStatus (Wrapf ''creating server'' [] (ApiError 503 ''No valid host was found'' [])) 503"
proof -
  let ?e = "Wrapf ''creating server'' [] (ApiError 503 ''No valid host was found'' [])"
  have "IsRetryable ?e" by (simp add: IsRetryable_def)
  moreover have "IsInsufficientCapacity id ?e" by code_simp
  ultimately show ?thesis using classification [of ?e id] by blast
qed

end
