(* ===== verification/Cache.thy ===== *)
theory Cache
  imports Utils "HOL-Library.Word"
begin

text \<open>
  \<open>pkg/cache\<close>: the record of offerings that STACKIT reported as out of capacity, with the
  sequence numbers its readers key their own caches on.

  The TTL cache itself is a third-party package. It is the record \<open>cache_ops\<close> of the calls the
  code makes on it, with \<open>cache_laws\<close> for what its documentation promises. Time is a step
  \<open>c_tick\<close> of the environment after which entries may have expired, and \<open>c_janitor\<close> is the
  package's cleanup goroutine.
\<close>

section \<open>Durations (cache.go)\<close>

text \<open>In nanoseconds, as \<open>time.Duration\<close>.\<close>

definition Second :: int where
  "Second = 1000000000"

definition Minute :: int where
  "Minute = 60 * Second"

definition Hour :: int where
  "Hour = 60 * Minute"

definition DefaultTTL :: int where
  "DefaultTTL = Minute"

definition UnavailableOfferingsTTL :: int where
  "UnavailableOfferingsTTL = 3 * Minute"

definition InstanceTypesAndOfferingsTTL :: int where
  "InstanceTypesAndOfferingsTTL = 5 * Minute"

definition DiscoveredCapacityCacheTTL :: int where
  "DiscoveredCapacityCacheTTL = 60 * 24 * Hour"

definition ValidationTTL :: int where
  "ValidationTTL = 30 * Minute"

definition DefaultCleanupInterval :: int where
  "DefaultCleanupInterval = Minute"

definition UnavailableOfferingsCleanupInterval :: int where
  "UnavailableOfferingsCleanupInterval = 10 * Second"

section \<open>The cache package\<close>

text \<open>
  \<open>c_new ttl interval\<close> is \<open>cache.New\<close>; \<open>c_set\<close> is \<open>SetDefault\<close>. Deletion and the janitor
  return the keys for which the package runs the \<open>OnEvicted\<close> callback; \<open>Flush\<close> runs none.
  \<open>c_keys\<close> are the keys of the entries held, expired ones that are not yet cleaned up included.
\<close>

record ('c, 'v) cache_ops =
  c_new :: "int \<Rightarrow> int \<Rightarrow> 'c"
  c_get :: "'c \<Rightarrow> string \<Rightarrow> 'v option"
  c_set :: "string \<Rightarrow> 'v \<Rightarrow> 'c \<Rightarrow> 'c"
  c_delete :: "string \<Rightarrow> 'c \<Rightarrow> 'c \<times> string list"
  c_flush :: "'c \<Rightarrow> 'c"
  c_janitor :: "'c \<Rightarrow> 'c \<times> string list"
  c_tick :: "int \<Rightarrow> 'c \<Rightarrow> 'c"
  c_keys :: "'c \<Rightarrow> string list"

definition law_new :: "('c, 'v) cache_ops \<Rightarrow> bool" where
  "law_new C \<longleftrightarrow> (\<forall>ttl i k. c_get C (c_new C ttl i) k = None)"

definition law_set :: "('c, 'v) cache_ops \<Rightarrow> bool" where
  "law_set C \<longleftrightarrow> (\<forall>k v c k'. c_get C (c_set C k v c) k' = (if k' = k then Some v else c_get C c k'))"

definition law_delete :: "('c, 'v) cache_ops \<Rightarrow> bool" where
  "law_delete C \<longleftrightarrow> (\<forall>k c k'. c_get C (fst (c_delete C k c)) k' = (if k' = k then None else c_get C c k'))"

definition law_evict :: "('c, 'v) cache_ops \<Rightarrow> bool" where
  "law_evict C \<longleftrightarrow> (\<forall>k c. snd (c_delete C k c) = (if k \<in> set (c_keys C c) then [k] else []))"

definition law_flush :: "('c, 'v) cache_ops \<Rightarrow> bool" where
  "law_flush C \<longleftrightarrow> (\<forall>c k. c_get C (c_flush C c) k = None)"

definition law_janitor :: "('c, 'v) cache_ops \<Rightarrow> bool" where
  "law_janitor C \<longleftrightarrow> (\<forall>c k. c_get C (fst (c_janitor C c)) k = c_get C c k)"

definition law_expired :: "('c, 'v) cache_ops \<Rightarrow> bool" where
  "law_expired C \<longleftrightarrow> (\<forall>c. \<forall>k \<in> set (snd (c_janitor C c)). k \<in> set (c_keys C c) \<and> c_get C c k = None)"

definition law_keys :: "('c, 'v) cache_ops \<Rightarrow> bool" where
  "law_keys C \<longleftrightarrow>
     (\<forall>ttl i. c_keys C (c_new C ttl i) = [])
     \<and> (\<forall>k v c. set (c_keys C (c_set C k v c)) = insert k (set (c_keys C c)))
     \<and> (\<forall>k c. set (c_keys C (fst (c_delete C k c))) = set (c_keys C c) - {k})
     \<and> (\<forall>c. c_keys C (c_flush C c) = [])
     \<and> (\<forall>c. set (c_keys C (fst (c_janitor C c))) = set (c_keys C c) - set (snd (c_janitor C c)))
     \<and> (\<forall>n c. c_keys C (c_tick C n c) = c_keys C c)"

definition law_held :: "('c, 'v) cache_ops \<Rightarrow> bool" where
  "law_held C \<longleftrightarrow> (\<forall>k c. c_get C c k \<noteq> None \<longrightarrow> k \<in> set (c_keys C c))"

definition law_tick :: "('c, 'v) cache_ops \<Rightarrow> bool" where
  "law_tick C \<longleftrightarrow> (\<forall>n c k. c_get C (c_tick C n c) k \<noteq> None \<longrightarrow> c_get C (c_tick C n c) k = c_get C c k)"

definition cache_laws :: "('c, 'v) cache_ops \<Rightarrow> bool" where
  "cache_laws C \<longleftrightarrow>
     law_new C \<and> law_set C \<and> law_delete C \<and> law_evict C \<and> law_flush C \<and> law_janitor C
     \<and> law_expired C \<and> law_keys C \<and> law_held C \<and> law_tick C"

lemmas cache_law_defs =
  cache_laws_def law_new_def law_set_def law_delete_def law_evict_def law_flush_def law_janitor_def
  law_expired_def law_keys_def law_held_def law_tick_def

lemma cache_get_new [simp]: "cache_laws C \<Longrightarrow> c_get C (c_new C ttl i) k = None"
  by (simp add: cache_laws_def law_new_def)

lemma cache_get_set [simp]:
  "cache_laws C \<Longrightarrow> c_get C (c_set C k v c) k' = (if k' = k then Some v else c_get C c k')"
  by (simp add: cache_laws_def law_set_def)

lemma cache_get_delete [simp]:
  "cache_laws C \<Longrightarrow> c_get C (fst (c_delete C k c)) k' = (if k' = k then None else c_get C c k')"
  by (simp add: cache_laws_def law_delete_def)

lemma cache_get_flush [simp]: "cache_laws C \<Longrightarrow> c_get C (c_flush C c) k = None"
  by (simp add: cache_laws_def law_flush_def)

lemma cache_get_janitor [simp]: "cache_laws C \<Longrightarrow> c_get C (fst (c_janitor C c)) k = c_get C c k"
  by (simp add: cache_laws_def law_janitor_def)

lemma cache_get_tick: "cache_laws C \<Longrightarrow> c_get C (c_tick C n c) k \<noteq> None \<Longrightarrow> c_get C (c_tick C n c) k = c_get C c k"
  by (simp add: cache_laws_def law_tick_def)

lemma cache_evict [simp]:
  "cache_laws C \<Longrightarrow> snd (c_delete C k c) = (if k \<in> set (c_keys C c) then [k] else [])"
  by (simp add: cache_laws_def law_evict_def)

lemma cache_expired:
  "cache_laws C \<Longrightarrow> k \<in> set (snd (c_janitor C c)) \<Longrightarrow> k \<in> set (c_keys C c) \<and> c_get C c k = None"
  by (simp add: cache_laws_def law_expired_def)

lemma cache_held: "cache_laws C \<Longrightarrow> c_get C c k \<noteq> None \<Longrightarrow> k \<in> set (c_keys C c)"
  by (simp add: cache_laws_def law_held_def)

lemma cache_keys [simp]:
  assumes "cache_laws C"
  shows "c_keys C (c_new C ttl i) = []" "c_keys C (c_flush C c) = []" "c_keys C (c_tick C n c) = c_keys C c"
    "set (c_keys C (c_set C k v c)) = insert k (set (c_keys C c))"
    "set (c_keys C (fst (c_delete C k c))) = set (c_keys C c) - {k}"
    "set (c_keys C (fst (c_janitor C c))) = set (c_keys C c) - set (snd (c_janitor C c))"
  using assms by (simp_all add: cache_laws_def law_keys_def)

subsection \<open>A cache that satisfies the laws\<close>

text \<open>
  An implementation on association lists with a clock, which the instances of the theorems
  use: an entry is readable until its deadline has passed.
\<close>

record 'v timed =
  tm_now :: int
  tm_ttl :: int
  tm_entries :: "('v \<times> int) gomap"

definition timed_get :: "'v timed \<Rightarrow> string \<Rightarrow> 'v option" where
  "timed_get c k = (case map_of (tm_entries c) k of
       Some (v, deadline) \<Rightarrow> if tm_now c \<le> deadline then Some v else None
     | None \<Rightarrow> None)"

definition timed_cache :: "('v timed, 'v) cache_ops" where
  "timed_cache =
     \<lparr>c_new = (\<lambda>ttl i. \<lparr>tm_now = 0, tm_ttl = ttl, tm_entries = []\<rparr>),
      c_get = timed_get,
      c_set = (\<lambda>k v c. c\<lparr>tm_entries := map_put k (v, tm_now c + max 1 (tm_ttl c)) (tm_entries c)\<rparr>),
      c_delete = (\<lambda>k c. (c\<lparr>tm_entries := filter (\<lambda>(k', _). k' \<noteq> k) (tm_entries c)\<rparr>,
         if map_of (tm_entries c) k = None then [] else [k])),
      c_flush = (\<lambda>c. c\<lparr>tm_entries := []\<rparr>),
      c_janitor = (\<lambda>c.
         (c\<lparr>tm_entries := filter (\<lambda>(k, _). timed_get c k \<noteq> None) (tm_entries c)\<rparr>,
          filter (\<lambda>k. timed_get c k = None) (keys (tm_entries c)))),
      c_tick = (\<lambda>n c. c\<lparr>tm_now := tm_now c + max 0 n\<rparr>),
      c_keys = (\<lambda>c. keys (tm_entries c))\<rparr>"

lemma map_of_filter_key: "map_of (filter (\<lambda>(k, _). P k) m) k = (if P k then map_of m k else None)"
  by (induction m) auto

lemma timed_get_key: "timed_get c k \<noteq> None \<Longrightarrow> k \<in> set (keys (tm_entries c))"
  by (auto simp: timed_get_def simp del: set_map split: option.splits)

lemma set_keys_filter: "set (keys (filter (\<lambda>(k, _). P k) m)) = {k \<in> set (keys m). P k}"
  by (induction m) auto

lemma timed_cache_laws: "cache_laws timed_cache"
  unfolding cache_laws_def
proof (intro conjI)
  show "law_keys timed_cache"
    unfolding law_keys_def
    by (auto simp: timed_cache_def set_keys_filter set_keys_put simp del: set_map)
  show "law_held timed_cache"
    unfolding law_held_def timed_cache_def cache_ops.simps by (intro allI impI) (rule timed_get_key)
  show "law_evict timed_cache"
    by (auto simp: law_evict_def timed_cache_def map_of_eq_None_iff)
  show "law_expired timed_cache"
    by (auto simp: law_expired_def timed_cache_def simp del: set_map)
  show "law_tick timed_cache"
    by (auto simp: law_tick_def timed_cache_def timed_get_def split: option.splits)
qed (auto simp: law_new_def law_set_def law_delete_def law_flush_def law_janitor_def timed_cache_def
     timed_get_def gomap_simps map_of_filter_key split: option.splits if_splits)

lemma timed_new [simp]: "c_get timed_cache (c_new timed_cache ttl i) k = None"
  by (rule cache_get_new [OF timed_cache_laws])

section \<open>UnavailableOfferings (unavailableofferings.go)\<close>

text \<open>The mutexes and the atomic make each access to a counter one step.\<close>

record 'c unavailable_offerings =
  uo_offerings :: 'c
  uo_offering_seq :: "64 word gomap"
  uo_zones :: 'c
  uo_zone_seq :: "64 word"

definition NewUnavailableOfferings :: "('c, unit) cache_ops \<Rightarrow> 'c unavailable_offerings" where
  "NewUnavailableOfferings C =
     \<lparr>uo_offerings = c_new C UnavailableOfferingsTTL UnavailableOfferingsCleanupInterval,
      uo_offering_seq = [],
      uo_zones = c_new C UnavailableOfferingsTTL UnavailableOfferingsCleanupInterval,
      uo_zone_seq = 0\<rparr>"

definition seq_of :: "64 word gomap \<Rightarrow> string \<Rightarrow> 64 word" where
  "seq_of m k = (case map_of m k of Some n \<Rightarrow> n | None \<Rightarrow> 0)"

definition bump :: "string \<Rightarrow> 64 word gomap \<Rightarrow> 64 word gomap" where
  "bump machineType m = map_put machineType (seq_of m machineType + 1) m"

text \<open>The two eviction callbacks; the first panics (\<open>None\<close>) on a key without a colon.\<close>

definition offering_evicted :: "string \<Rightarrow> 'c unavailable_offerings \<Rightarrow> 'c unavailable_offerings option" where
  "offering_evicted k u =
     (let (machineType, _, ok) = cut k CHR '':'' in
      if \<not> ok then None else Some (u\<lparr>uo_offering_seq := bump machineType (uo_offering_seq u)\<rparr>))"

definition zone_evicted :: "'c unavailable_offerings \<Rightarrow> 'c unavailable_offerings" where
  "zone_evicted u = u\<lparr>uo_zone_seq := uo_zone_seq u + 1\<rparr>"

fun offerings_evicted ::
  "string list \<Rightarrow> 'c unavailable_offerings \<Rightarrow> 'c unavailable_offerings option" where
  "offerings_evicted [] u = Some u"
| "offerings_evicted (k # ks) u =
     (case offering_evicted k u of None \<Rightarrow> None | Some u' \<Rightarrow> offerings_evicted ks u')"

definition SeqNum :: "'c unavailable_offerings \<Rightarrow> string \<Rightarrow> 64 word" where
  "SeqNum u machineType = seq_of (uo_offering_seq u) machineType + uo_zone_seq u"

definition uo_key :: "string \<Rightarrow> string \<Rightarrow> string" where
  "uo_key machineType zone = machineType @ '':'' @ zone"

definition IsUnavailable ::
  "('c, unit) cache_ops \<Rightarrow> 'c unavailable_offerings \<Rightarrow> string \<Rightarrow> string \<Rightarrow> bool" where
  "IsUnavailable C u machineType zone =
     (let offeringFound = c_get C (uo_offerings u) (uo_key machineType zone) \<noteq> None;
          zoneFound = c_get C (uo_zones u) zone \<noteq> None
      in offeringFound \<or> zoneFound)"

definition MarkUnavailable ::
  "('c, unit) cache_ops \<Rightarrow> string \<Rightarrow> string \<Rightarrow> 'c unavailable_offerings \<Rightarrow> 'c unavailable_offerings" where
  "MarkUnavailable C machineType zone u =
     u\<lparr>uo_offerings := c_set C (uo_key machineType zone) () (uo_offerings u),
       uo_offering_seq := bump machineType (uo_offering_seq u)\<rparr>"

definition MarkZoneUnavailable ::
  "('c, unit) cache_ops \<Rightarrow> string \<Rightarrow> 'c unavailable_offerings \<Rightarrow> 'c unavailable_offerings" where
  "MarkZoneUnavailable C zone u =
     u\<lparr>uo_zones := c_set C zone () (uo_zones u), uo_zone_seq := uo_zone_seq u + 1\<rparr>"

definition uo_Delete ::
  "('c, unit) cache_ops \<Rightarrow> string \<Rightarrow> string \<Rightarrow> 'c unavailable_offerings \<Rightarrow> 'c unavailable_offerings option" where
  "uo_Delete C machineType zone u =
     (let (c, evicted) = c_delete C (uo_key machineType zone) (uo_offerings u)
      in offerings_evicted evicted (u\<lparr>uo_offerings := c\<rparr>))"

definition uo_Flush :: "('c, unit) cache_ops \<Rightarrow> 'c unavailable_offerings \<Rightarrow> 'c unavailable_offerings" where
  "uo_Flush C u = u\<lparr>uo_offerings := c_flush C (uo_offerings u), uo_zones := c_flush C (uo_zones u)\<rparr>"

text \<open>What the caches do on their own: time passes, and each janitor runs.\<close>

definition uo_tick :: "('c, unit) cache_ops \<Rightarrow> int \<Rightarrow> 'c unavailable_offerings \<Rightarrow> 'c unavailable_offerings" where
  "uo_tick C n u = u\<lparr>uo_offerings := c_tick C n (uo_offerings u), uo_zones := c_tick C n (uo_zones u)\<rparr>"

definition uo_offering_janitor ::
  "('c, unit) cache_ops \<Rightarrow> 'c unavailable_offerings \<Rightarrow> 'c unavailable_offerings option" where
  "uo_offering_janitor C u =
     (let (c, evicted) = c_janitor C (uo_offerings u) in offerings_evicted evicted (u\<lparr>uo_offerings := c\<rparr>))"

definition uo_zone_janitor ::
  "('c, unit) cache_ops \<Rightarrow> 'c unavailable_offerings \<Rightarrow> 'c unavailable_offerings" where
  "uo_zone_janitor C u =
     (let (c, evicted) = c_janitor C (uo_zones u) in ((zone_evicted ^^ length evicted) (u\<lparr>uo_zones := c\<rparr>)))"

section \<open>The availability interface\<close>

text \<open>
  What the offering provider and the instance provider rely on. \<open>p\<close> stands for what the
  operations are built from, here the cache package; a mark takes exactly what it names out
  of rotation and moves exactly the sequence numbers of the types it affects.
\<close>

datatype mark = MarkOffering string string | MarkZone string

fun mark_hits :: "mark \<Rightarrow> string \<Rightarrow> string \<Rightarrow> bool" where
  "mark_hits (MarkOffering t z) t' z' \<longleftrightarrow> t' = t \<and> z' = z"
| "mark_hits (MarkZone z) t' z' \<longleftrightarrow> z' = z"

fun mark_moves :: "mark \<Rightarrow> string \<Rightarrow> bool" where
  "mark_moves (MarkOffering t z) t' \<longleftrightarrow> t' = t"
| "mark_moves (MarkZone z) t' \<longleftrightarrow> True"

fun mark_typed :: "(string \<Rightarrow> bool) \<Rightarrow> mark \<Rightarrow> bool" where
  "mark_typed ty (MarkOffering t z) \<longleftrightarrow> ty t"
| "mark_typed ty (MarkZone z) \<longleftrightarrow> True"

lemma mark_hits_moves: "mark_hits m t z \<Longrightarrow> mark_moves m t"
  by (cases m) auto

locale availability =
  fixes lawful :: "'p \<Rightarrow> bool"
    and ty :: "string \<Rightarrow> bool"
    and unavailable :: "'p \<Rightarrow> 'u \<Rightarrow> string \<Rightarrow> string \<Rightarrow> bool"
    and seqnum :: "'u \<Rightarrow> string \<Rightarrow> 64 word"
    and apply_mark :: "'p \<Rightarrow> mark \<Rightarrow> 'u \<Rightarrow> 'u"
  assumes mark_unavailable:
      "lawful p \<Longrightarrow> mark_typed ty m \<Longrightarrow> ty t \<Longrightarrow>
         unavailable p (apply_mark p m u) t z \<longleftrightarrow> mark_hits m t z \<or> unavailable p u t z"
    and mark_seqnum: "seqnum (apply_mark p m u) t = seqnum u t + (if mark_moves m t then 1 else 0)"
begin

lemma marks_unavailable:
  "lawful p \<Longrightarrow> list_all (mark_typed ty) ms \<Longrightarrow> ty t \<Longrightarrow>
     unavailable p (fold (apply_mark p) ms u) t z \<longleftrightarrow> list_ex (\<lambda>m. mark_hits m t z) ms \<or> unavailable p u t z"
  by (induction ms arbitrary: u) (auto simp: mark_unavailable)

lemma marks_seqnum:
  "seqnum (fold (apply_mark p) ms u) t = seqnum u t + of_nat (length (filter (\<lambda>m. mark_moves m t) ms))"
  by (induction ms arbitrary: u) (auto simp: mark_seqnum)

lemma hit_counted: "list_ex (\<lambda>m. mark_hits m t z) ms \<Longrightarrow> 0 < length (filter (\<lambda>m. mark_moves m t) ms)"
  by (induction ms) (auto dest: mark_hits_moves)

lemma change_seen:
  assumes "lawful p" "list_all (mark_typed ty) ms" "ty t" "length ms < 2 ^ 64"
    and "seqnum (fold (apply_mark p) ms u) t = seqnum u t"
  shows "unavailable p (fold (apply_mark p) ms u) t z = unavailable p u t z"
proof -
  let ?n = "length (filter (\<lambda>m. mark_moves m t) ms)"
  have "?n < 2 ^ 64" using assms(4) length_filter_le [of "\<lambda>m. mark_moves m t" ms] by linarith
  then have "unat (of_nat ?n :: 64 word) = ?n" by (simp add: unat_of_nat take_bit_nat_eq_self)
  moreover have "(of_nat ?n :: 64 word) = 0" using assms(5) by (simp add: marks_seqnum)
  ultimately have "?n = 0" by simp
  with hit_counted show ?thesis using assms(1-3) by (metis marks_unavailable less_irrefl)
qed

end

text \<open>The two mark operations are an instance, for every lawful cache.\<close>

definition uo_apply_mark ::
  "('c, unit) cache_ops \<Rightarrow> mark \<Rightarrow> 'c unavailable_offerings \<Rightarrow> 'c unavailable_offerings" where
  "uo_apply_mark C m =
     (case m of MarkOffering t z \<Rightarrow> MarkUnavailable C t z | MarkZone z \<Rightarrow> MarkZoneUnavailable C z)"

definition no_colon :: "string \<Rightarrow> bool" where
  "no_colon s \<longleftrightarrow> CHR '':'' \<notin> set s"

lemma seq_of_bump: "seq_of (bump t m) t' = seq_of m t' + (if t' = t then 1 else 0)"
  by (simp add: bump_def seq_of_def gomap_simps)

lemma uo_key_inject: "no_colon t \<Longrightarrow> no_colon t' \<Longrightarrow> uo_key t z = uo_key t' z' \<longleftrightarrow> t = t' \<and> z = z'"
proof (induction t arbitrary: t')
  case Nil
  then show ?case by (cases t') (auto simp: uo_key_def no_colon_def)
next
  case (Cons a t)
  then show ?case by (cases t') (auto simp: uo_key_def no_colon_def)
qed

interpretation uo: availability cache_laws no_colon IsUnavailable SeqNum uo_apply_mark
proof unfold_locales
  fix C :: "('c, unit) cache_ops" and m t z u
  assume "cache_laws C" "mark_typed no_colon m" "no_colon t"
  then show "IsUnavailable C (uo_apply_mark C m u) t z \<longleftrightarrow> mark_hits m t z \<or> IsUnavailable C u t z"
    by (cases m) (auto simp: uo_apply_mark_def IsUnavailable_def MarkUnavailable_def
        MarkZoneUnavailable_def Let_def uo_key_inject)
next
  fix C :: "('c, unit) cache_ops" and m t u
  show "SeqNum (uo_apply_mark C m u) t = SeqNum u t + (if mark_moves m t then 1 else 0)"
    by (cases m) (auto simp: uo_apply_mark_def MarkUnavailable_def MarkZoneUnavailable_def
        SeqNum_def seq_of_bump)
qed

section \<open>Runs of the availability cache\<close>

text \<open>The calls of the code, and what the cache package does by itself.\<close>

datatype uo_event =
    UoMark mark
  | UoDelete string string
  | UoFlush
  | UoTick int
  | UoOfferingJanitor
  | UoZoneJanitor

definition uo_step ::
  "('c, unit) cache_ops \<Rightarrow> uo_event \<Rightarrow> 'c unavailable_offerings \<Rightarrow> 'c unavailable_offerings option" where
  "uo_step C e u = (case e of
       UoMark m \<Rightarrow> Some (uo_apply_mark C m u)
     | UoDelete t z \<Rightarrow> uo_Delete C t z u
     | UoFlush \<Rightarrow> Some (uo_Flush C u)
     | UoTick n \<Rightarrow> Some (uo_tick C n u)
     | UoOfferingJanitor \<Rightarrow> uo_offering_janitor C u
     | UoZoneJanitor \<Rightarrow> Some (uo_zone_janitor C u))"

fun uo_run ::
  "('c, unit) cache_ops \<Rightarrow> uo_event list \<Rightarrow> 'c unavailable_offerings \<Rightarrow> 'c unavailable_offerings option" where
  "uo_run C [] u = Some u"
| "uo_run C (e # es) u = (case uo_step C e u of None \<Rightarrow> None | Some u' \<Rightarrow> uo_run C es u')"

text \<open>The invariant: every key of the offering cache is of the form the callback expects.\<close>

definition uo_inv :: "('c, unit) cache_ops \<Rightarrow> 'c unavailable_offerings \<Rightarrow> bool" where
  "uo_inv C u \<longleftrightarrow> (\<forall>k \<in> set (c_keys C (uo_offerings u)). CHR '':'' \<in> set k)"

lemma offerings_evicted_keeps:
  "\<forall>k \<in> set ks. CHR '':'' \<in> set k \<Longrightarrow>
     \<exists>u'. offerings_evicted ks u = Some u' \<and> uo_offerings u' = uo_offerings u"
proof (induction ks arbitrary: u)
  case (Cons k ks)
  let ?u = "u\<lparr>uo_offering_seq := bump (takeWhile (\<lambda>c. c \<noteq> CHR '':'') k) (uo_offering_seq u)\<rparr>"
  have "offering_evicted k u = Some ?u"
    using Cons.prems by (simp add: offering_evicted_def cut_def)
  with Cons.IH [of ?u] Cons.prems show ?case by simp
qed simp

lemma zone_evicted_funpow:
  "(zone_evicted ^^ n) u = u\<lparr>uo_zone_seq := uo_zone_seq u + of_nat n\<rparr>"
  by (induction n) (simp_all add: zone_evicted_def)

lemma uo_step_inv:
  assumes laws: "cache_laws C" and inv: "uo_inv C u"
  shows "\<exists>u'. uo_step C e u = Some u' \<and> uo_inv C u'"
proof (cases e)
  case (UoMark m)
  have "CHR '':'' \<in> set (uo_key t z)" for t z by (simp add: uo_key_def)
  with inv laws show ?thesis
    by (cases m) (auto simp: UoMark uo_step_def uo_inv_def uo_apply_mark_def MarkUnavailable_def
        MarkZoneUnavailable_def)
next
  case (UoDelete t z)
  let ?d = "c_delete C (uo_key t z) (uo_offerings u)"
  have "\<forall>k \<in> set (snd ?d). CHR '':'' \<in> set k"
    using laws by (simp add: uo_key_def)
  then obtain u' where "offerings_evicted (snd ?d) (u\<lparr>uo_offerings := fst ?d\<rparr>) = Some u'"
      "uo_offerings u' = fst ?d"
    using offerings_evicted_keeps [of "snd ?d" "u\<lparr>uo_offerings := fst ?d\<rparr>"] by auto
  with inv laws show ?thesis
    by (simp add: UoDelete uo_step_def uo_inv_def uo_Delete_def split_beta)
next
  case UoOfferingJanitor
  let ?j = "c_janitor C (uo_offerings u)"
  have "\<forall>k \<in> set (snd ?j). CHR '':'' \<in> set k"
    using cache_expired [OF laws] inv unfolding uo_inv_def by blast
  then obtain u' where "offerings_evicted (snd ?j) (u\<lparr>uo_offerings := fst ?j\<rparr>) = Some u'"
      "uo_offerings u' = fst ?j"
    using offerings_evicted_keeps [of "snd ?j" "u\<lparr>uo_offerings := fst ?j\<rparr>"] by auto
  with inv laws show ?thesis
    by (simp add: UoOfferingJanitor uo_step_def uo_inv_def uo_offering_janitor_def split_beta)
qed (use inv laws in \<open>simp_all add: uo_step_def uo_inv_def uo_Flush_def uo_tick_def uo_zone_janitor_def
       split_beta zone_evicted_funpow\<close>)

lemma uo_run_inv:
  "cache_laws C \<Longrightarrow> uo_inv C u \<Longrightarrow> \<exists>u'. uo_run C es u = Some u' \<and> uo_inv C u'"
proof (induction es arbitrary: u)
  case (Cons e es)
  then obtain u1 where "uo_step C e u = Some u1" "uo_inv C u1" using uo_step_inv by blast
  with Cons show ?case by simp
qed simp

lemma uo_inv_new: "cache_laws C \<Longrightarrow> uo_inv C (NewUnavailableOfferings C)"
  by (simp add: uo_inv_def NewUnavailableOfferings_def)

section \<open>How the record moves\<close>

text \<open>
  From \<open>u\<close> to \<open>u'\<close> with at most \<open>b\<close> changes of a sequence number: when the number of a machine type
  has not moved at all, nothing of that type has become unavailable.
\<close>

definition uo_moved ::
  "('c, unit) cache_ops \<Rightarrow> nat \<Rightarrow> 'c unavailable_offerings \<Rightarrow> 'c unavailable_offerings \<Rightarrow> bool" where
  "uo_moved C b u u' \<longleftrightarrow>
     (\<forall>t. no_colon t \<longrightarrow>
        (\<exists>m \<le> b. SeqNum u' t = SeqNum u t + of_nat m
           \<and> (m = 0 \<longrightarrow> (\<forall>z. IsUnavailable C u' t z \<longrightarrow> IsUnavailable C u t z))))"

lemma uo_movedI:
  assumes "\<And>t. no_colon t \<Longrightarrow> \<exists>m \<le> b. SeqNum u' t = SeqNum u t + of_nat m
      \<and> (m = 0 \<longrightarrow> (\<forall>z. IsUnavailable C u' t z \<longrightarrow> IsUnavailable C u t z))"
  shows "uo_moved C b u u'"
  using assms by (simp add: uo_moved_def)

lemma moved_refl: "uo_moved C b u u"
  by (rule uo_movedI) (rule exI [of _ 0], simp)

lemma moved_trans:
  assumes "uo_moved C b1 u u1" "uo_moved C b2 u1 u2"
  shows "uo_moved C (b1 + b2) u u2"
proof (rule uo_movedI)
  fix t assume t: "no_colon t"
  obtain m1 where m1: "m1 \<le> b1" "SeqNum u1 t = SeqNum u t + of_nat m1"
      "m1 = 0 \<longrightarrow> (\<forall>z. IsUnavailable C u1 t z \<longrightarrow> IsUnavailable C u t z)"
    using assms(1) t unfolding uo_moved_def by blast
  obtain m2 where m2: "m2 \<le> b2" "SeqNum u2 t = SeqNum u1 t + of_nat m2"
      "m2 = 0 \<longrightarrow> (\<forall>z. IsUnavailable C u2 t z \<longrightarrow> IsUnavailable C u1 t z)"
    using assms(2) t unfolding uo_moved_def by blast
  show "\<exists>m \<le> b1 + b2. SeqNum u2 t = SeqNum u t + of_nat m
      \<and> (m = 0 \<longrightarrow> (\<forall>z. IsUnavailable C u2 t z \<longrightarrow> IsUnavailable C u t z))"
    using m1 m2 by (intro exI [of _ "m1 + m2"]) auto
qed

lemma moved_later: "uo_moved C b u u' \<Longrightarrow> b \<le> b' \<Longrightarrow> uo_moved C b' u u'"
  using moved_trans [of C b u u' "b' - b" u'] moved_refl [of C "b' - b" u'] by simp

lemma moved_fresh:
  assumes "uo_moved C b u u'" "b < 2 ^ 64" "no_colon t" "SeqNum u' t = SeqNum u t" "IsUnavailable C u' t z"
  shows "IsUnavailable C u t z"
proof -
  obtain m where m: "m \<le> b" "SeqNum u' t = SeqNum u t + of_nat m"
      "m = 0 \<longrightarrow> (\<forall>z. IsUnavailable C u' t z \<longrightarrow> IsUnavailable C u t z)"
    using assms(1,3) unfolding uo_moved_def by blast
  have "(of_nat m :: 64 word) = 0" using m(2) assms(4) by simp
  moreover have "unat (of_nat m :: 64 word) = m" using m(1) assms(2) by (simp add: unat_of_nat take_bit_nat_eq_self)
  ultimately have "m = 0" by simp
  with m(3) assms(5) show ?thesis by blast
qed

lemma moved_tick:
  assumes "cache_laws C"
  shows "uo_moved C 0 u (uo_tick C d u)"
proof (rule uo_movedI)
  fix t assume "no_colon t"
  have "IsUnavailable C (uo_tick C d u) t z \<Longrightarrow> IsUnavailable C u t z" for z
    using cache_get_tick [OF assms, of d "uo_offerings u"] cache_get_tick [OF assms, of d "uo_zones u"]
    by (auto simp: IsUnavailable_def uo_tick_def)
  then show "\<exists>m \<le> 0. SeqNum (uo_tick C d u) t = SeqNum u t + of_nat m
      \<and> (m = 0 \<longrightarrow> (\<forall>z. IsUnavailable C (uo_tick C d u) t z \<longrightarrow> IsUnavailable C u t z))"
    by (simp add: SeqNum_def uo_tick_def)
qed

lemma moved_mark:
  assumes "cache_laws C" "mark_typed no_colon m"
  shows "uo_moved C 1 u (uo_apply_mark C m u)"
proof (rule uo_movedI)
  fix t assume t: "no_colon t"
  show "\<exists>n \<le> 1. SeqNum (uo_apply_mark C m u) t = SeqNum u t + of_nat n
      \<and> (n = 0 \<longrightarrow> (\<forall>z. IsUnavailable C (uo_apply_mark C m u) t z \<longrightarrow> IsUnavailable C u t z))"
    using uo.mark_unavailable [OF assms t] uo.mark_seqnum [of C m u t] mark_hits_moves [of m t]
    by (intro exI [of _ "if mark_moves m t then 1 else 0"]) auto
qed

lemma offerings_evicted_seq:
  assumes "offerings_evicted ks u = Some u'"
  shows "uo_offerings u' = uo_offerings u \<and> uo_zones u' = uo_zones u \<and> uo_zone_seq u' = uo_zone_seq u
     \<and> (\<exists>m \<le> length ks. seq_of (uo_offering_seq u') t = seq_of (uo_offering_seq u) t + of_nat m)"
  using assms
proof (induction ks arbitrary: u)
  case Nil
  then show ?case by (intro conjI exI [of _ 0]) simp_all
next
  case (Cons k ks)
  then obtain machineType where e: "offerings_evicted ks (u\<lparr>uo_offering_seq := bump machineType (uo_offering_seq u)\<rparr>) = Some u'"
    by (auto simp: offering_evicted_def split: option.splits prod.splits if_splits)
  from Cons.IH [OF e] obtain m where m: "uo_offerings u' = uo_offerings u" "uo_zones u' = uo_zones u" "uo_zone_seq u' = uo_zone_seq u"
      "m \<le> length ks" "seq_of (uo_offering_seq u') t = seq_of (bump machineType (uo_offering_seq u)) t + of_nat m"
    by auto
  then show ?case
    by (intro conjI exI [of _ "if t = machineType then Suc m else m"]) (auto simp: seq_of_bump)
qed

lemma moved_offering_janitor:
  assumes "cache_laws C" "uo_offering_janitor C u = Some u'"
  shows "uo_moved C (length (snd (c_janitor C (uo_offerings u)))) u u'"
proof (rule uo_movedI)
  fix t assume "no_colon t"
  let ?j = "c_janitor C (uo_offerings u)"
  have e: "offerings_evicted (snd ?j) (u\<lparr>uo_offerings := fst ?j\<rparr>) = Some u'"
    using assms(2) by (simp add: uo_offering_janitor_def split_beta)
  from offerings_evicted_seq [OF this, of t] obtain m where m: "uo_offerings u' = fst ?j" "uo_zones u' = uo_zones u"
      "uo_zone_seq u' = uo_zone_seq u" "m \<le> length (snd ?j)" "seq_of (uo_offering_seq u') t = seq_of (uo_offering_seq u) t + of_nat m"
    by auto
  then show "\<exists>m \<le> length (snd ?j). SeqNum u' t = SeqNum u t + of_nat m
      \<and> (m = 0 \<longrightarrow> (\<forall>z. IsUnavailable C u' t z \<longrightarrow> IsUnavailable C u t z))"
    using assms(1) by (intro exI [of _ m]) (simp add: SeqNum_def IsUnavailable_def)
qed

lemma moved_zone_janitor:
  assumes "cache_laws C"
  shows "uo_moved C (length (snd (c_janitor C (uo_zones u)))) u (uo_zone_janitor C u)"
proof (rule uo_movedI)
  fix t assume "no_colon t"
  let ?j = "c_janitor C (uo_zones u)"
  show "\<exists>m \<le> length (snd ?j). SeqNum (uo_zone_janitor C u) t = SeqNum u t + of_nat m
      \<and> (m = 0 \<longrightarrow> (\<forall>z. IsUnavailable C (uo_zone_janitor C u) t z \<longrightarrow> IsUnavailable C u t z))"
    using assms by (intro exI [of _ "length (snd ?j)"])
      (simp add: SeqNum_def IsUnavailable_def uo_zone_janitor_def split_beta zone_evicted_funpow)
qed

lemma moved_delete:
  assumes "cache_laws C" "uo_Delete C t z u = Some u'"
  shows "uo_moved C 1 u u'"
proof (rule uo_movedI)
  fix t' assume "no_colon t'"
  let ?d = "c_delete C (uo_key t z) (uo_offerings u)"
  have e: "offerings_evicted (snd ?d) (u\<lparr>uo_offerings := fst ?d\<rparr>) = Some u'"
    using assms(2) by (simp add: uo_Delete_def split_beta)
  have "length (snd ?d) \<le> 1" using assms(1) by simp
  moreover from offerings_evicted_seq [OF e, of t'] obtain m where "uo_offerings u' = fst ?d" "uo_zones u' = uo_zones u"
      "uo_zone_seq u' = uo_zone_seq u" "m \<le> length (snd ?d)" "seq_of (uo_offering_seq u') t' = seq_of (uo_offering_seq u) t' + of_nat m"
    by auto
  ultimately show "\<exists>m \<le> 1. SeqNum u' t' = SeqNum u t' + of_nat m
      \<and> (m = 0 \<longrightarrow> (\<forall>z. IsUnavailable C u' t' z \<longrightarrow> IsUnavailable C u t' z))"
    using assms(1) by (intro exI [of _ m]) (auto simp: SeqNum_def IsUnavailable_def split: if_splits)
qed

lemma moved_flush: "cache_laws C \<Longrightarrow> uo_moved C 0 u (uo_Flush C u)"
  by (rule uo_movedI) (simp add: uo_Flush_def SeqNum_def IsUnavailable_def)

text \<open>How many sequence numbers an event changes at most.\<close>

definition uo_changes :: "('c, unit) cache_ops \<Rightarrow> uo_event \<Rightarrow> 'c unavailable_offerings \<Rightarrow> nat" where
  "uo_changes C e u = (case e of
       UoMark m \<Rightarrow> 1
     | UoDelete t z \<Rightarrow> 1
     | UoFlush \<Rightarrow> 0
     | UoTick n \<Rightarrow> 0
     | UoOfferingJanitor \<Rightarrow> length (snd (c_janitor C (uo_offerings u)))
     | UoZoneJanitor \<Rightarrow> length (snd (c_janitor C (uo_zones u))))"

fun uo_event_typed :: "uo_event \<Rightarrow> bool" where
  "uo_event_typed (UoMark m) \<longleftrightarrow> mark_typed no_colon m"
| "uo_event_typed _ \<longleftrightarrow> True"

lemma moved_step:
  assumes "cache_laws C" "uo_event_typed e" "uo_step C e u = Some u'"
  shows "uo_moved C (uo_changes C e u) u u'"
  using assms moved_mark moved_delete moved_flush moved_tick moved_offering_janitor moved_zone_janitor
  by (cases e) (auto simp: uo_step_def uo_changes_def)

section \<open>Properties\<close>

text \<open>
  The eviction callback never panics: from a new cache, every sequence of marks, deletions,
  flushes, expirations and cleanups runs to its end, whatever machine types and zones were
  marked.
\<close>

lemma availability_no_panic:
  assumes "cache_laws C"
  shows "\<exists>u. uo_run C es (NewUnavailableOfferings C) = Some u"
  using uo_run_inv [OF assms uo_inv_new [OF assms]] by blast

lemma availability_no_panic_witness:
  "\<exists>u. uo_run timed_cache [UoMark (MarkOffering ''g1.2'' ''eu01-1''), UoTick (4 * Minute), UoOfferingJanitor,
          UoDelete ''g1.2'' ''eu01-1''] (NewUnavailableOfferings timed_cache) = Some u"
  by (rule availability_no_panic [OF timed_cache_laws])

text \<open>
  C36 Marks are exact: after any sequence of marks an offering is unavailable when one of them
  names it or its zone, or it was unavailable before; and the sequence number of a machine
  type has grown by the number of the marks that touch it, modulo 2 to the 64.
\<close>

theorem marks_exact:
  assumes "cache_laws C" "list_all (mark_typed no_colon) ms" "no_colon t"
  shows "(IsUnavailable C (fold (uo_apply_mark C) ms u) t z
          \<longleftrightarrow> list_ex (\<lambda>m. mark_hits m t z) ms \<or> IsUnavailable C u t z)
     \<and> SeqNum (fold (uo_apply_mark C) ms u) t
         = SeqNum u t + of_nat (length (filter (\<lambda>m. mark_moves m t) ms))"
  using uo.marks_unavailable [OF assms] uo.marks_seqnum by blast

theorem marks_exact_witness:
  "IsUnavailable timed_cache
     (fold (uo_apply_mark timed_cache) [MarkOffering ''g1.2'' ''eu01-1'', MarkZone ''eu01-2'']
        (NewUnavailableOfferings timed_cache)) ''c1.4'' ''eu01-2''
   \<and> \<not> IsUnavailable timed_cache
     (fold (uo_apply_mark timed_cache) [MarkOffering ''g1.2'' ''eu01-1'', MarkZone ''eu01-2'']
        (NewUnavailableOfferings timed_cache)) ''c1.4'' ''eu01-1''"
proof -
  have new: "\<not> IsUnavailable timed_cache (NewUnavailableOfferings timed_cache) t z" for t z
    by (simp add: IsUnavailable_def NewUnavailableOfferings_def timed_cache_def timed_get_def)
  show ?thesis
    using marks_exact [OF timed_cache_laws, of "[MarkOffering ''g1.2'' ''eu01-1'', MarkZone ''eu01-2'']" "''c1.4''"]
    by (simp add: no_colon_def new)
qed

text \<open>
  Readers may key their caches on the sequence number: as long as fewer than 2 to the 64
  marks happened in between, an unchanged number means that no zone's availability of the
  machine type was changed by them.
\<close>

lemma seqnum_fresh:
  assumes "cache_laws C" "list_all (mark_typed no_colon) ms" "no_colon t" "length ms < 2 ^ 64"
    and "SeqNum (fold (uo_apply_mark C) ms u) t = SeqNum u t"
  shows "IsUnavailable C (fold (uo_apply_mark C) ms u) t z = IsUnavailable C u t z"
  by (rule uo.change_seen [OF assms])

lemma seqnum_fresh_witness:
  "IsUnavailable timed_cache (fold (uo_apply_mark timed_cache) [MarkOffering ''g1.2'' ''eu01-1'']
      (NewUnavailableOfferings timed_cache)) ''c1.4'' ''eu01-1''
   = IsUnavailable timed_cache (NewUnavailableOfferings timed_cache) ''c1.4'' ''eu01-1''"
  by (rule seqnum_fresh [OF timed_cache_laws])
     (simp_all add: no_colon_def uo_apply_mark_def MarkUnavailable_def SeqNum_def seq_of_bump)

text \<open>
  The other direction is delayed or lost: when an entry expires, or after \<open>Flush\<close>, an
  offering is available again under the same sequence number. Only the cleanup that follows
  an expiry moves the number, and no cleanup follows a flush.
\<close>

lemma seqnum_not_changed_by_expiry_or_flush:
  "let u = MarkUnavailable timed_cache ''g1.2'' ''eu01-1'' (NewUnavailableOfferings timed_cache);
       expired = uo_tick timed_cache (UnavailableOfferingsTTL + 1) u;
       flushed = uo_Flush timed_cache u
   in IsUnavailable timed_cache u ''g1.2'' ''eu01-1''
      \<and> \<not> IsUnavailable timed_cache expired ''g1.2'' ''eu01-1'' \<and> SeqNum expired ''g1.2'' = SeqNum u ''g1.2''
      \<and> map_option (\<lambda>u'. SeqNum u' ''g1.2'') (uo_offering_janitor timed_cache expired)
          = Some (SeqNum u ''g1.2'' + 1)
      \<and> \<not> IsUnavailable timed_cache flushed ''g1.2'' ''eu01-1'' \<and> SeqNum flushed ''g1.2'' = SeqNum u ''g1.2''
      \<and> map_option (\<lambda>u'. SeqNum u' ''g1.2'') (uo_offering_janitor timed_cache flushed)
          = Some (SeqNum u ''g1.2'')"
  by (simp add: Let_def MarkUnavailable_def NewUnavailableOfferings_def uo_tick_def uo_Flush_def
      IsUnavailable_def SeqNum_def timed_cache_def timed_get_def uo_key_def uo_offering_janitor_def
      offering_evicted_def cut_def bump_def seq_of_def UnavailableOfferingsTTL_def Minute_def Second_def)

end
