(* ===== verification/Pricing.thy ===== *)
theory Pricing
  imports StackitSdk
begin

text \<open>
  \<open>pkg/providers/pricing/pricing.go\<close>: the price model, the price book the provider keeps, and
  the parser of the price overrides. The change monitor only decides whether a line is logged
  and is left out.
\<close>

section \<open>The price model\<close>

definition EurPerVCPUHour :: f64 where
  "EurPerVCPUHour = rnd (246 / 10000)"

definition EurPerGiBHour :: f64 where
  "EurPerGiBHour = rnd (33 / 10000)"

definition EurPerGiBDiskHour :: f64 where
  "EurPerGiBDiskHour = rnd (7 / 100000)"

definition mibPerGiB :: rat where
  "mibPerGiB = 1024"

record machine_type_spec =
  ms_name :: string
  ms_vcpus :: int
  ms_ram_mib :: int
  ms_disk_gib :: int

definition ModelPrice :: "machine_type_spec \<Rightarrow> f64" where
  "ModelPrice spec =
     (let price = f64_of_i64 (ms_vcpus spec) * EurPerVCPUHour
                  + fdiv (f64_of_i64 (ms_ram_mib spec)) mibPerGiB * EurPerGiBHour
                  + f64_of_i64 (ms_disk_gib spec) * EurPerGiBDiskHour
      in if price \<le> Fin 0 then EurPerVCPUHour else price)"

section \<open>The provider\<close>

text \<open>\<open>MachineTypeLister\<close> is an interface: a function that may fail and may change the state.\<close>

type_synonym 's lister = "'s \<Rightarrow> machine_type_spec list result \<times> 's"

type_synonym prices = "f64 gomap"

definition Price :: "prices \<Rightarrow> string \<Rightarrow> f64 option" where
  "Price prices machineType = map_of prices machineType"

text \<open>The loop of \<open>UpdatePrices\<close>.\<close>

fun price_all :: "f64 gomap \<Rightarrow> machine_type_spec list \<Rightarrow> prices \<Rightarrow> prices" where
  "price_all overrides [] prices = prices"
| "price_all overrides (spec # specs) prices =
     (case map_of overrides (ms_name spec) of
        Some override \<Rightarrow> price_all overrides specs (map_put (ms_name spec) override prices)
      | None \<Rightarrow> price_all overrides specs (map_put (ms_name spec) (ModelPrice spec) prices))"

text \<open>The price list of a new provider; its lister and its overrides are arguments here.\<close>

definition Pricing_NewDefaultProvider :: prices where
  "Pricing_NewDefaultProvider = []"

declare Pricing_NewDefaultProvider_def [simp]

definition UpdatePrices ::
  "f64 gomap \<Rightarrow> 's lister \<Rightarrow> prices \<times> 's \<Rightarrow> go_error option \<times> prices \<times> 's" where
  "UpdatePrices overrides lister ps =
     (let (prices, s) = ps in
      case lister s of
        (Inl err, s') \<Rightarrow> (Some (Wrapf ''listing machine types for pricing'' [] err), prices, s')
      | (Inr specs, s') \<Rightarrow>
          if specs = [] then (Some (Errorf ''no stackit machine types found to price'' []), prices, s')
          else (None, price_all overrides specs [], s'))"

definition Pricing_Reset :: "prices \<Rightarrow> prices" where
  "Pricing_Reset prices = []"

section \<open>Overrides\<close>

fun parse_pairs :: "string list \<Rightarrow> f64 gomap \<Rightarrow> f64 gomap result" where
  "parse_pairs [] overrides = Inr overrides"
| "parse_pairs (p # ps) overrides =
     (let pair = trim_space p in
      if pair = [] then parse_pairs ps overrides
      else
        let (name, val, ok) = cut pair CHR ''='';
            name = trim_space name; val = trim_space val
        in
          if \<not> ok \<or> name = [] \<or> val = []
          then Inl (Errorf ''pricing override %q is not of the form <machine-type>=<euros-per-hour>'' [pair])
          else case parse_float val of
              None \<Rightarrow> Inl (Wrapf ''pricing override %q has an unparseable price'' [pair]
                           (Errorf ''strconv.ParseFloat'' [val]))
            | Some price \<Rightarrow>
                if price \<le> Fin 0 then Inl (Errorf ''pricing override %q must be greater than zero'' [pair])
                else parse_pairs ps (map_put name price overrides))"

definition ParseOverrides :: "string \<Rightarrow> f64 gomap result" where
  "ParseOverrides raw =
     (if trim_space raw = [] then Inr [] else parse_pairs (split_on CHR '','' raw) [])"

section \<open>Facts about the model\<close>

text \<open>The coefficients as the compiler rounds them.\<close>

lemma EurPerVCPUHour_eq: "EurPerVCPUHour = Fin (7090467253332109 * p2 (-58))"
  using rnd_eqI [of "-58" "246 / 10000" 7090467253332109]
  by (simp add: EurPerVCPUHour_def power_int_def power_one_over)

lemma EurPerGiBHour_eq: "EurPerGiBHour = Fin (7609281930405190 * p2 (-61))"
  using rnd_eqI [of "-61" "33 / 10000" 7609281930405190]
  by (simp add: EurPerGiBHour_def power_int_def power_one_over)

lemma EurPerGiBDiskHour_eq: "EurPerGiBDiskHour = Fin (5165088340638674 * p2 (-66))"
  using rnd_eqI [of "-66" "7 / 100000" 5165088340638674]
  by (simp add: EurPerGiBDiskHour_def power_int_def power_one_over)

lemma EurPerVCPUHour_pos: "\<exists>r. EurPerVCPUHour = Fin r \<and> 0 < r"
  unfolding EurPerVCPUHour_eq by (rule exI, rule conjI, rule refl, simp)

text \<open>The three terms, and the price before the guard.\<close>

definition vcpu_term :: "int \<Rightarrow> f64" where
  "vcpu_term n = f64_of_i64 n * EurPerVCPUHour"

definition ram_term :: "int \<Rightarrow> f64" where
  "ram_term n = fdiv (f64_of_i64 n) mibPerGiB * EurPerGiBHour"

definition disk_term :: "int \<Rightarrow> f64" where
  "disk_term n = f64_of_i64 n * EurPerGiBDiskHour"

definition raw_price :: "machine_type_spec \<Rightarrow> f64" where
  "raw_price spec = vcpu_term (ms_vcpus spec) + ram_term (ms_ram_mib spec) + disk_term (ms_disk_gib spec)"

lemma ModelPrice_raw: "ModelPrice spec = (if raw_price spec \<le> Fin 0 then EurPerVCPUHour else raw_price spec)"
  by (simp add: ModelPrice_def raw_price_def vcpu_term_def ram_term_def disk_term_def Let_def)

definition spec_in_range :: "machine_type_spec \<Rightarrow> bool" where
  "spec_in_range spec \<longleftrightarrow> in_i64 (ms_vcpus spec) \<and> in_i64 (ms_ram_mib spec) \<and> in_i64 (ms_disk_gib spec)"

lemma fbound_eur: "fbound 0 EurPerVCPUHour" "fbound 0 EurPerGiBHour" "fbound 0 EurPerGiBDiskHour"
  by (simp_all add: EurPerVCPUHour_eq EurPerGiBHour_eq EurPerGiBDiskHour_eq fbound_def power_int_def power_one_over)

lemma fbound_ram_div: "in_i64 n \<Longrightarrow> fbound 63 (fdiv (f64_of_i64 n) mibPerGiB)"
proof -
  assume "in_i64 n"
  then obtain r where r: "f64_of_i64 n = Fin r" "\<bar>r\<bar> \<le> p2 63"
    using fbound_f64_of_i64 [of n] by (auto simp: fbound_def split: f64.splits)
  then have "\<bar>r / 1024\<bar> \<le> p2 63" by (simp add: field_simps)
  with r(1) show ?thesis by (simp add: mibPerGiB_def fbound_rnd)
qed

lemma fbound_terms:
  assumes "in_i64 n"
  shows "fbound 63 (vcpu_term n)" "fbound 63 (ram_term n)" "fbound 63 (disk_term n)"
  unfolding vcpu_term_def disk_term_def ram_term_def
  using fbound_f64_of_i64 [OF assms] fbound_ram_div [OF assms] fbound_eur by (simp_all add: fbound_mult)

lemma fbound_sum: "in_i64 m \<Longrightarrow> in_i64 n \<Longrightarrow> fbound 64 (vcpu_term m + ram_term n)"
  using fbound_add [OF fbound_terms(1,2), of m n] by simp

lemma fbound_raw_price: "spec_in_range spec \<Longrightarrow> fbound 65 (raw_price spec)"
proof -
  assume "spec_in_range spec"
  then have t: "fbound 63 (vcpu_term (ms_vcpus spec))" "fbound 63 (ram_term (ms_ram_mib spec))"
      "fbound 64 (disk_term (ms_disk_gib spec))"
    using fbound_mono [OF fbound_terms(3), of "ms_disk_gib spec" 64]
    by (simp_all add: spec_in_range_def fbound_terms)
  have "fbound 64 (vcpu_term (ms_vcpus spec) + ram_term (ms_ram_mib spec))"
    using fbound_add [OF t(1,2)] by simp
  from fbound_add [OF this t(3)] show ?thesis by (simp add: raw_price_def)
qed

text \<open>
  The modelled price of every machine type, whatever its 64-bit resource counts, is a finite
  number greater than zero: no node looks free.
\<close>

lemma ModelPrice_positive:
  assumes "spec_in_range spec"
  shows "\<exists>r. ModelPrice spec = Fin r \<and> 0 < r"
proof -
  obtain r where r: "raw_price spec = Fin r"
    using fbound_raw_price [OF assms] by (auto simp: fbound_def split: f64.splits)
  show ?thesis
    using EurPerVCPUHour_pos by (cases "r \<le> 0") (auto simp: ModelPrice_raw r)
qed

lemma ModelPrice_positive_witness:
  "\<exists>r. ModelPrice \<lparr>ms_name = ''x'', ms_vcpus = 0, ms_ram_mib = -5, ms_disk_gib = 2 ^ 63 - 1\<rparr> = Fin r \<and> 0 < r"
  by (rule ModelPrice_positive) (simp add: spec_in_range_def)

lemma terms_mono:
  assumes "in_i64 m" "in_i64 n" "m \<le> n"
  shows "vcpu_term m \<le> vcpu_term n" "ram_term m \<le> ram_term n" "disk_term m \<le> disk_term n"
proof -
  note b = fbound_f64_of_i64 [OF assms(1)] fbound_f64_of_i64 [OF assms(2)] f64_of_i64_mono [OF assms(3)]
  note mono = mult_const_mono [OF b]
  show "vcpu_term m \<le> vcpu_term n" "disk_term m \<le> disk_term n"
    unfolding vcpu_term_def disk_term_def EurPerVCPUHour_eq EurPerGiBDiskHour_eq by (simp_all add: mono)
  have "fdiv (f64_of_i64 m) mibPerGiB \<le> fdiv (f64_of_i64 n) mibPerGiB"
    using b by (rule fdiv_const_mono) (simp add: mibPerGiB_def)
  from mult_const_mono [OF fbound_ram_div fbound_ram_div this] show "ram_term m \<le> ram_term n"
    unfolding ram_term_def EurPerGiBHour_eq using assms by simp
qed

lemma raw_price_mono:
  assumes "spec_in_range a" "spec_in_range b"
    and "ms_vcpus a \<le> ms_vcpus b" "ms_ram_mib a \<le> ms_ram_mib b" "ms_disk_gib a \<le> ms_disk_gib b"
  shows "raw_price a \<le> raw_price b"
proof -
  have r: "in_i64 (ms_vcpus a)" "in_i64 (ms_vcpus b)" "in_i64 (ms_ram_mib a)" "in_i64 (ms_ram_mib b)"
      "in_i64 (ms_disk_gib a)" "in_i64 (ms_disk_gib b)"
    using assms(1,2) unfolding spec_in_range_def by blast+
  let ?s = "\<lambda>x. vcpu_term (ms_vcpus x) + ram_term (ms_ram_mib x)"
  have s: "?s a \<le> ?s b"
    by (rule add_mono_f64 [of 63]) (use r assms(3,4) in \<open>simp_all only: fbound_terms terms_mono\<close>)
  have f: "fbound 64 (?s a)" "fbound 64 (?s b)"
    using r by (simp_all only: fbound_sum)
  show ?thesis
    unfolding raw_price_def
    by (rule add_mono_f64 [of 64])
       (use r assms(5) s f in \<open>simp_all only: terms_mono fbound_mono [OF fbound_terms(3)]\<close>)
qed

lemma raw_price_unit:
  "raw_price \<lparr>ms_name = n, ms_vcpus = 1, ms_ram_mib = 0, ms_disk_gib = 0\<rparr> = EurPerVCPUHour"
proof -
  define c where "c = 7090467253332109 * p2 (-58)"
  have one: "f64_of_i64 1 = Fin 1" using rnd_p2 [of 0] by (simp add: f64_of_i64_def)
  have zero: "f64_of_i64 0 = Fin 0" by (simp add: f64_of_i64_def)
  have fix_c: "rnd c = Fin c"
    using rnd_eqI [of "-58" c 7090467253332109] by (simp add: c_def power_int_def power_one_over)
  have eur: "EurPerVCPUHour = Fin c" by (simp add: EurPerVCPUHour_eq c_def)
  have "vcpu_term 1 = Fin c" unfolding vcpu_term_def one eur by (simp add: fix_c)
  moreover have "ram_term 0 = Fin 0" "disk_term 0 = Fin 0"
    by (simp_all add: ram_term_def disk_term_def zero EurPerGiBHour_eq EurPerGiBDiskHour_eq)
  ultimately show ?thesis by (simp add: raw_price_def eur fix_c)
qed

text \<open>A machine type the API returns: at least one vCPU, and no negative resource.\<close>

definition spec_real :: "machine_type_spec \<Rightarrow> bool" where
  "spec_real spec \<longleftrightarrow>
     spec_in_range spec \<and> 1 \<le> ms_vcpus spec \<and> 0 \<le> ms_ram_mib spec \<and> 0 \<le> ms_disk_gib spec"

lemma raw_price_pos:
  assumes "spec_real spec"
  shows "\<not> raw_price spec \<le> Fin 0"
proof -
  let ?u = "\<lparr>ms_name = [], ms_vcpus = 1, ms_ram_mib = 0, ms_disk_gib = 0\<rparr> :: machine_type_spec"
  have "raw_price ?u \<le> raw_price spec"
    by (rule raw_price_mono) (use assms in \<open>auto simp: spec_real_def spec_in_range_def\<close>)
  moreover obtain r where "EurPerVCPUHour = Fin r" "0 < r" using EurPerVCPUHour_pos by blast
  ultimately have "Fin r \<le> raw_price spec" by (simp add: raw_price_unit)
  then show ?thesis using \<open>0 < r\<close> by (cases "raw_price spec") auto
qed

lemma ModelPrice_real: "spec_real spec \<Longrightarrow> ModelPrice spec = raw_price spec"
  using raw_price_pos by (simp add: ModelPrice_raw)

text \<open>
  C37 Among real machines, with at least one vCPU and no negative size, the price never ranks a
  larger one below a smaller one: more or equal vCPUs, memory and disk never cost less, in the
  floating-point arithmetic the program uses, for all sizes an int64 holds. Below one vCPU the claim
  is false: a sum of zero is replaced by the price of one vCPU, so that a machine of nothing at all
  costs more than one with a GiB of memory and no vCPU.
\<close>

theorem ModelPrice_mono:
  assumes "spec_real a" "spec_in_range b"
    and "ms_vcpus a \<le> ms_vcpus b" "ms_ram_mib a \<le> ms_ram_mib b" "ms_disk_gib a \<le> ms_disk_gib b"
  shows "ModelPrice a \<le> ModelPrice b"
proof -
  have "spec_real b" using assms by (auto simp: spec_real_def)
  then show ?thesis
    using raw_price_mono [OF _ assms(2-5)] assms(1) by (simp add: ModelPrice_real) (simp add: spec_real_def)
qed

text \<open>The machine of nothing at all, and the one with a GiB of memory.\<close>

lemma ModelPrice_of_nothing:
  "ModelPrice \<lparr>ms_name = n, ms_vcpus = 0, ms_ram_mib = 1024, ms_disk_gib = 0\<rparr>
     < ModelPrice \<lparr>ms_name = n, ms_vcpus = 0, ms_ram_mib = 0, ms_disk_gib = 0\<rparr>"
proof -
  define c where "c = 7609281930405190 * p2 (-61)"
  have fix_c: "rnd c = Fin c" "0 < c"
    using rnd_eqI [of "-61" c 7609281930405190] by (simp_all add: c_def power_int_def power_one_over)
  have "f64_of_i64 1024 = Fin 1024" "f64_of_i64 0 = Fin 0" "rnd 1 = Fin 1"
    using rnd_p2 [of 10] rnd_p2 [of 0] by (simp_all add: f64_of_i64_def)
  then have terms: "vcpu_term 0 = Fin 0" "disk_term 0 = Fin 0" "ram_term 0 = Fin 0" "ram_term 1024 = Fin c"
    using fix_c(1) by (simp_all add: vcpu_term_def disk_term_def ram_term_def mibPerGiB_def
        EurPerVCPUHour_eq EurPerGiBHour_eq EurPerGiBDiskHour_eq c_def)
  have "Fin c < EurPerVCPUHour" by (simp add: EurPerVCPUHour_eq c_def power_int_def power_one_over)
  then show ?thesis using fix_c by (simp add: ModelPrice_raw raw_price_def terms)
qed

theorem ModelPrice_mono_witness:
  "ModelPrice \<lparr>ms_name = ''g1.2'', ms_vcpus = 2, ms_ram_mib = 8192, ms_disk_gib = 0\<rparr>
   \<le> ModelPrice \<lparr>ms_name = ''m1.2'', ms_vcpus = 2, ms_ram_mib = 16384, ms_disk_gib = 0\<rparr>"
  by (rule ModelPrice_mono) (simp_all add: spec_real_def spec_in_range_def)

definition double_spec :: "machine_type_spec \<Rightarrow> machine_type_spec" where
  "double_spec spec = spec\<lparr>ms_vcpus := 2 * ms_vcpus spec, ms_ram_mib := 2 * ms_ram_mib spec,
     ms_disk_gib := 2 * ms_disk_gib spec\<rparr>"

lemma twice_terms:
  assumes "0 \<le> n" "n \<le> 2 ^ 61"
  shows "coarse (-30) 61 (vcpu_term n) \<and> vcpu_term (2 * n) = twice (vcpu_term n)"
    and "coarse (-30) 61 (ram_term n) \<and> ram_term (2 * n) = twice (ram_term n)"
    and "coarse (-30) 61 (disk_term n) \<and> disk_term (2 * n) = twice (disk_term n)"
proof -
  have b: "coarse 0 61 (f64_of_i64 n)" "f64_of_i64 (2 * n) = twice (f64_of_i64 n)"
    using coarse_i64 [OF assms] by simp_all
  note eqs = power_int_def power_one_over
  show "coarse (-30) 61 (vcpu_term n) \<and> vcpu_term (2 * n) = twice (vcpu_term n)"
    using coarse_mult [OF b(1), of "-6" "7090467253332109 * p2 (-58)" 0]
    by (auto simp: vcpu_term_def b(2) EurPerVCPUHour_eq eqs intro: coarse_weaken)
  show "coarse (-30) 61 (disk_term n) \<and> disk_term (2 * n) = twice (disk_term n)"
    using coarse_mult [OF b(1), of "-14" "5165088340638674 * p2 (-66)" 0]
    by (auto simp: disk_term_def b(2) EurPerGiBDiskHour_eq eqs intro: coarse_weaken)
  have d: "coarse (-10) 51 (fdiv (f64_of_i64 n) mibPerGiB)"
      "fdiv (twice (f64_of_i64 n)) mibPerGiB = twice (fdiv (f64_of_i64 n) mibPerGiB)"
    using coarse_fdiv [OF b(1), of 10] by (simp_all add: mibPerGiB_def power_int_def)
  show "coarse (-30) 61 (ram_term n) \<and> ram_term (2 * n) = twice (ram_term n)"
    using coarse_mult [OF d(1), of "-9" "7609281930405190 * p2 (-61)" 0]
    by (auto simp: ram_term_def b(2) d(2) EurPerGiBHour_eq eqs intro: coarse_weaken)
qed

text \<open>
  The ratios are right: a machine with twice the vCPUs, memory and disk costs exactly twice
  as much, with no rounding error, for every size up to 2 to the 61.
\<close>

lemma ModelPrice_double:
  assumes "1 \<le> ms_vcpus spec" "0 \<le> ms_ram_mib spec" "0 \<le> ms_disk_gib spec"
    and "ms_vcpus spec \<le> 2 ^ 61" "ms_ram_mib spec \<le> 2 ^ 61" "ms_disk_gib spec \<le> 2 ^ 61"
  shows "ModelPrice (double_spec spec) = twice (ModelPrice spec)"
proof -
  have v: "0 \<le> ms_vcpus spec" using assms(1) by simp
  note t = twice_terms(1) [OF v assms(4)] twice_terms(2) [OF assms(2,5)] twice_terms(3) [OF assms(3,6)]
  let ?vr = "vcpu_term (ms_vcpus spec) + ram_term (ms_ram_mib spec)"
  have s: "coarse (-30) 62 ?vr"
      "twice (vcpu_term (ms_vcpus spec)) + twice (ram_term (ms_ram_mib spec)) = twice ?vr"
    using coarse_add [of "-30" 61] t(1,2) by simp_all
  have "coarse (-30) 62 (disk_term (ms_disk_gib spec))" using t(3) by (auto intro: coarse_weaken)
  with s(1) have "twice ?vr + twice (disk_term (ms_disk_gib spec)) = twice (?vr + disk_term (ms_disk_gib spec))"
    using coarse_add [of "-30" 62] by simp
  then have "raw_price (double_spec spec) = twice (raw_price spec)"
    using t s(2) by (simp add: raw_price_def double_spec_def)
  moreover have "spec_real spec" "spec_real (double_spec spec)"
    using assms by (simp_all add: spec_real_def spec_in_range_def double_spec_def)
  ultimately show ?thesis by (simp add: ModelPrice_real)
qed

lemma ModelPrice_double_witness:
  "ModelPrice \<lparr>ms_name = ''g1.2'', ms_vcpus = 4, ms_ram_mib = 16384, ms_disk_gib = 0\<rparr>
   = twice (ModelPrice \<lparr>ms_name = ''g1.2'', ms_vcpus = 2, ms_ram_mib = 8192, ms_disk_gib = 0\<rparr>)"
  using ModelPrice_double [of "\<lparr>ms_name = ''g1.2'', ms_vcpus = 2, ms_ram_mib = 8192, ms_disk_gib = 0\<rparr>"]
  by (simp add: double_spec_def)

section \<open>Facts about the price book\<close>

text \<open>The price of a name: its override, or the model's price of the last machine type listed under it.\<close>

definition book_price :: "f64 gomap \<Rightarrow> machine_type_spec list \<Rightarrow> string \<Rightarrow> f64 option" where
  "book_price overrides specs t =
     (case find (\<lambda>spec. ms_name spec = t) (rev specs) of
        None \<Rightarrow> None
      | Some spec \<Rightarrow> Some (case map_of overrides t of Some p \<Rightarrow> p | None \<Rightarrow> ModelPrice spec))"

lemma find_append: "find P (xs @ ys) = (case find P xs of Some x \<Rightarrow> Some x | None \<Rightarrow> find P ys)"
  by (induction xs) auto

lemma price_all_lookup:
  "map_of (price_all overrides specs prices) t =
     (case book_price overrides specs t of Some p \<Rightarrow> Some p | None \<Rightarrow> map_of prices t)"
proof (induction overrides specs prices rule: price_all.induct)
  case (2 overrides spec specs prices)
  then show ?case
    by (auto simp: book_price_def find_append gomap_simps split: option.splits)
qed (simp add: book_price_def)

text \<open>
  A refresh is all or nothing: when the machine types cannot be listed, or there are none,
  the old prices stay and the error is reported; otherwise the book has exactly the listed
  machine types, at their override or else at the price the model gives them.
\<close>

lemma UpdatePrices_spec:
  assumes "UpdatePrices overrides lister (prices, s) = (err, prices', s')"
  shows "s' = snd (lister s)
    \<and> (case fst (lister s) of
         Inl e \<Rightarrow> err = Some (Wrapf ''listing machine types for pricing'' [] e) \<and> prices' = prices
       | Inr specs \<Rightarrow>
           (err \<noteq> None \<longleftrightarrow> specs = []) \<and> (specs = [] \<longrightarrow> prices' = prices)
           \<and> (specs \<noteq> [] \<longrightarrow> Price prices' t = book_price overrides specs t))"
  using assms
  by (cases "lister s"; cases "fst (lister s)")
     (auto simp: UpdatePrices_def Price_def price_all_lookup split: if_splits option.splits)

lemma UpdatePrices_spec_witness:
  "let specs = [\<lparr>ms_name = ''g1.2'', ms_vcpus = 2, ms_ram_mib = 8192, ms_disk_gib = 0\<rparr>];
       (err, prices, _) = UpdatePrices [(''g1.2'', Fin (1 / 2))] (\<lambda>_ :: unit. (Inr specs, ())) ([], ())
   in Price prices ''g1.2'' = Some (Fin (1 / 2))"
  using UpdatePrices_spec [of "[(''g1.2'', Fin (1 / 2))]"
      "\<lambda>_ :: unit. (Inr [\<lparr>ms_name = ''g1.2'', ms_vcpus = 2, ms_ram_mib = 8192, ms_disk_gib = 0\<rparr>], ())" "[]" "()"
      _ _ _ "''g1.2''"]
  by (simp add: Let_def split_beta book_price_def prod_eq_iff)

section \<open>Facts about the overrides\<close>

definition no_free_price :: "f64 gomap \<Rightarrow> bool" where
  "no_free_price prices \<longleftrightarrow> list_all (\<lambda>(name, p). name \<noteq> [] \<and> \<not> p \<le> Fin 0) prices"

lemma no_free_put: "no_free_price m \<Longrightarrow> k \<noteq> [] \<Longrightarrow> \<not> v \<le> Fin 0 \<Longrightarrow> no_free_price (map_put k v m)"
  by (induction m) (auto simp: no_free_price_def)

lemma parse_pairs_no_free:
  "parse_pairs ps overrides = Inr m \<Longrightarrow> no_free_price overrides \<Longrightarrow> no_free_price m"
  by (induction ps overrides rule: parse_pairs.induct)
     (auto simp: Let_def no_free_put split: if_splits prod.splits option.splits)

lemma no_free_lookup: "no_free_price m \<Longrightarrow> map_of m k = Some p \<Longrightarrow> \<not> p \<le> Fin 0"
  by (auto simp: no_free_price_def list_all_iff dest!: map_of_SomeD)

lemma ParseOverrides_no_free: "ParseOverrides raw = Inr m \<Longrightarrow> no_free_price m"
  using parse_pairs_no_free [of "split_on CHR '','' raw" "[]" m]
  by (auto simp: ParseOverrides_def no_free_price_def split: if_splits)

lemma strip_runes_id:
  "(\<And>r. r \<in> set rs \<Longrightarrow> r \<noteq> [] \<Longrightarrow> s \<noteq> [] \<Longrightarrow> hd r \<noteq> hd s) \<Longrightarrow> strip_runes rs s = s"
proof -
  assume no: "\<And>r. r \<in> set rs \<Longrightarrow> r \<noteq> [] \<Longrightarrow> s \<noteq> [] \<Longrightarrow> hd r \<noteq> hd s"
  have "find (\<lambda>r. r \<noteq> [] \<and> prefix r s) rs = None"
    unfolding find_None_iff using no by (metis hd_append2 prefix_bot.extremum_unique prefix_def)
  then show ?thesis by (simp add: strip_runes.simps)
qed

text \<open>Strings of printable ASCII without blanks, which trimming leaves alone.\<close>

definition plain :: "string \<Rightarrow> bool" where
  "plain s \<longleftrightarrow> list_all (\<lambda>c. 0x21 \<le> ord c \<and> ord c \<le> 0x7E) s"

lemma space_runes_hd: "r \<in> set space_runes \<Longrightarrow> ord (hd r) \<le> 32 \<or> 127 \<le> ord (hd r)"
  by (simp add: space_runes_def, elim disjE) (simp_all add: take_bit_eq_mod)

lemma space_runes_last: "r \<in> set space_runes \<Longrightarrow> ord (last r) \<le> 32 \<or> 127 \<le> ord (last r)"
  by (simp add: space_runes_def, elim disjE) (simp_all add: take_bit_eq_mod)

lemma space_runes_ne: "[] \<notin> set space_runes"
  by (simp add: space_runes_def)

lemma plain_ends:
  assumes "plain s" "s \<noteq> []"
  shows "32 < ord (hd s) \<and> ord (hd s) < 127" "32 < ord (last s) \<and> ord (last s) < 127"
proof -
  have "hd s \<in> set s" "last s \<in> set s" using assms(2) by simp_all
  with assms(1) have "0x21 \<le> ord (hd s) \<and> ord (hd s) \<le> 0x7E" "0x21 \<le> ord (last s) \<and> ord (last s) \<le> 0x7E"
    by (simp_all only: plain_def list_all_iff)
  then show "32 < ord (hd s) \<and> ord (hd s) < 127" "32 < ord (last s) \<and> ord (last s) < 127"
    by linarith+
qed

lemma trim_space_plain: "plain s \<Longrightarrow> trim_space s = s"
proof -
  assume s: "plain s"
  have "strip_runes space_runes s = s"
    by (rule strip_runes_id) (use plain_ends(1) [OF s] space_runes_hd in force)
  moreover have "strip_runes (map rev space_runes) (rev s) = rev s"
  proof (rule strip_runes_id)
    fix r assume "r \<in> set (map rev space_runes)" and ne: "rev s \<noteq> []"
    then obtain q where q: "q \<in> set space_runes" "r = rev q" by auto
    with space_runes_ne have "hd r = last q" by (metis hd_rev)
    moreover have "hd (rev s) = last s" by (rule hd_rev)
    ultimately show "hd r \<noteq> hd (rev s)"
      using plain_ends(2) [OF s] ne space_runes_last [OF q(1)] by auto
  qed
  ultimately show ?thesis by (simp add: trim_space_def)
qed

lemma plain_join: "(\<And>s. s \<in> set ss \<Longrightarrow> plain s) \<Longrightarrow> plain (join_with '','' ss)"
  by (induction "'',''" ss rule: join_with.induct) (auto simp: plain_def)

text \<open>An override as an operator writes it, and the flag's value for a list of them.\<close>

definition override_ok :: "string \<times> string \<Rightarrow> bool" where
  "override_ok nv = (let (name, lit) = nv in
     name \<noteq> [] \<and> plain name \<and> CHR '','' \<notin> set name \<and> CHR ''='' \<notin> set name
     \<and> lit \<noteq> [] \<and> plain lit \<and> CHR '','' \<notin> set lit
     \<and> (case parse_float lit of None \<Rightarrow> False | Some p \<Rightarrow> \<not> p \<le> Fin 0))"

definition render_override :: "string \<times> string \<Rightarrow> string" where
  "render_override nv = fst nv @ ''='' @ snd nv"

definition override_value :: "string \<Rightarrow> f64" where
  "override_value lit = (case parse_float lit of Some p \<Rightarrow> p | None \<Rightarrow> NaN)"

lemma plain_render: "override_ok nv \<Longrightarrow> plain (render_override nv)"
  by (auto simp: override_ok_def plain_def render_override_def split: prod.splits)

lemma parse_pairs_render:
  "list_all override_ok nvs \<Longrightarrow>
     parse_pairs (map render_override nvs) m
     = Inr (fold (\<lambda>(name, lit). map_put name (override_value lit)) nvs m)"
proof (induction nvs arbitrary: m)
  case (Cons nv nvs)
  obtain name lit where nv: "nv = (name, lit)" by force
  have ok: "override_ok (name, lit)" using Cons.prems nv by simp
  then have trims: "trim_space (render_override nv) = render_override nv" "trim_space name = name"
      "trim_space lit = lit"
    using trim_space_plain plain_render nv by (auto simp: override_ok_def)
  have cut: "cut (render_override nv) CHR ''='' = (name, lit, True)"
    using ok cut_append [of "CHR ''=''" name lit] by (simp add: render_override_def nv override_ok_def)
  obtain p where p: "parse_float lit = Some p" "\<not> p \<le> Fin 0"
    using ok by (auto simp: override_ok_def split: option.splits)
  have ne: "render_override nv \<noteq> []" by (simp add: render_override_def)
  have "parse_pairs (map render_override (nv # nvs)) m
        = parse_pairs (map render_override nvs) (map_put name p m)"
    using trims cut p ok ne by (simp add: Let_def override_ok_def)
  then show ?case using Cons p by (simp add: nv override_value_def)
qed simp

text \<open>
  C38 The flag reads back what an operator writes: a comma-separated list of well-formed pairs
  parses to the map of their values, the last pair of a name winning; and whatever string is
  given, an accepted map has no empty name and no price that is zero or less.
\<close>

theorem ParseOverrides_roundtrip:
  "(nvs \<noteq> [] \<and> list_all override_ok nvs \<longrightarrow>
      ParseOverrides (join_with '','' (map render_override nvs))
      = Inr (fold (\<lambda>(name, lit). map_put name (override_value lit)) nvs []))
   \<and> (ParseOverrides raw = Inr m \<longrightarrow> no_free_price m)"
proof (intro conjI impI)
  assume "nvs \<noteq> [] \<and> list_all override_ok nvs"
  then have ne: "map render_override nvs \<noteq> []" and ok: "list_all override_ok nvs" by simp_all
  let ?ss = "map render_override nvs"
  have free: "CHR '','' \<notin> set s" if "s \<in> set ?ss" for s
  proof -
    from that obtain nv where nv: "nv \<in> set nvs" "s = render_override nv" unfolding set_map by blast
    with ok have "override_ok nv" by (simp add: list_all_iff)
    with nv(2) show ?thesis by (simp add: override_ok_def render_override_def split_beta)
  qed
  have split: "split_on CHR '','' (join_with '','' ?ss) = ?ss"
    using split_on_join [OF ne free] by simp
  have "plain s" if "s \<in> set ?ss" for s
    using that ok plain_render unfolding list_all_iff set_map by blast
  then have "plain (join_with '','' ?ss)" by (rule plain_join)
  moreover have "join_with '','' ?ss \<noteq> []"
    using ne by (cases nvs; cases "tl nvs") (simp_all add: render_override_def)
  ultimately show "ParseOverrides (join_with '','' ?ss)
      = Inr (fold (\<lambda>(name, lit). map_put name (override_value lit)) nvs [])"
    by (simp add: ParseOverrides_def trim_space_plain split parse_pairs_render [OF ok])
qed (rule ParseOverrides_no_free)

theorem ParseOverrides_roundtrip_witness:
  "ParseOverrides ''g1.2=2,g1.4=+Inf'' = Inr [(''g1.2'', Fin 2), (''g1.4'', PInf)]"
proof -
  have "parse_special ''2'' = None" "parse_special ''+Inf'' = Some PInf" by code_simp+
  moreover have "parse_number ''2'' = Some (Fin 2)"
    using rnd_nat53 [of 2] by (simp add: parse_number_def strip_sign_def digit_val_def read_exponent_def)
  ultimately have p: "parse_float ''2'' = Some (Fin 2)" "parse_float ''+Inf'' = Some PInf"
    by (simp_all add: parse_float_def)
  then show ?thesis
    using ParseOverrides_roundtrip [of "[(''g1.2'', ''2''), (''g1.4'', ''+Inf'')]" "[]" "[]"]
    by (simp add: override_ok_def plain_def render_override_def override_value_def)
qed

text \<open>
  \<open>NaN\<close> is accepted as a price: the guard rejects only what compares below or equal to zero.
\<close>

lemma ParseOverrides_accepts_NaN: "ParseOverrides ''g1.2=NaN'' = Inr [(''g1.2'', NaN)]"
  by code_simp

section \<open>The machine type lister\<close>

text \<open>
  What the provider relies on in its \<open>MachineTypeLister\<close>: a listing that succeeds is not empty
  and names each machine type once. \<open>inv\<close> is the invariant of the lister's state.
\<close>

locale machine_type_lister =
  fixes inv :: "'s \<Rightarrow> bool"
    and specs :: "'s lister"
  assumes specs_inv: "inv s \<Longrightarrow> inv (snd (specs s))"
    and specs_ok: "inv s \<Longrightarrow> fst (specs s) = Inr xs \<Longrightarrow> xs \<noteq> [] \<and> distinct (map ms_name xs)"
begin

lemma find_listed: "distinct (map ms_name xs) \<Longrightarrow> x \<in> set xs \<Longrightarrow> find (\<lambda>y. ms_name y = ms_name x) (rev xs) = Some x"
proof (induction xs)
  case (Cons y xs)
  have "find (\<lambda>z. ms_name z = ms_name y) (rev xs) = None"
    using Cons.prems(1) by (force simp: find_None_iff image_iff)
  with Cons show ?case
    by (cases "y = x") (auto simp: find_append split: option.splits)
qed simp

lemma update_error: "inv s \<Longrightarrow> fst (UpdatePrices overrides specs (prices, s)) \<noteq> None \<longleftrightarrow> \<not> is_ok (fst (specs s))"
  using specs_ok [of s] by (cases "specs s"; cases "fst (specs s)") (auto simp: UpdatePrices_def)

lemma update_keeps: "inv s \<Longrightarrow> inv (snd (snd (UpdatePrices overrides specs (prices, s))))"
  using specs_inv [of s] by (cases "specs s"; cases "fst (specs s)") (auto simp: UpdatePrices_def)

lemma update_prices_listed:
  assumes "inv s" "fst (specs s) = Inr xs" "x \<in> set xs"
  shows "Price (fst (snd (UpdatePrices overrides specs (prices, s)))) (ms_name x)
    = Some (case map_of overrides (ms_name x) of Some p \<Rightarrow> p | None \<Rightarrow> ModelPrice x)"
proof -
  obtain s' where s': "specs s = (Inr xs, s')" using assms(2) by (cases "specs s") auto
  have "xs \<noteq> []" "find (\<lambda>y. ms_name y = ms_name x) (rev xs) = Some x"
    using specs_ok [OF assms(1,2)] find_listed assms(3) by auto
  then show ?thesis by (simp add: UpdatePrices_def s' Price_def price_all_lookup book_price_def)
qed

end

end
