(* ===== verification/InstanceTypes.thy ===== *)
theory InstanceTypes
  imports StackitSdk "HOL-Library.Monad_Syntax"
begin

text \<open>
  \<open>pkg/providers/instancetype/types.go\<close>: how a STACKIT machine type becomes a Karpenter
  InstanceType.

  \<open>resource.Quantity\<close> and its parser are third-party code: the record \<open>'q quantity_ops\<close>.
  \<open>MustParse\<close> panics on a string the parser rejects; a function that may panic returns an
  option, \<open>None\<close> for a panic. A \<open>scheduling.Requirements\<close> is kept as the arguments it is built
  from: the keys with the values of their \<open>In\<close> requirement.
\<close>

section \<open>Quantities\<close>

text \<open>
  \<open>q_parse\<close> is \<open>ParseQuantity\<close>, \<open>q_of_milli\<close> is \<open>NewMilliQuantity\<close>, \<open>q_approx\<close> is
  \<open>AsApproximateFloat64\<close>, \<open>q_max\<close> is karpenter's \<open>resources.MaxResources\<close> on two lists.
  \<open>q_exact\<close> is the number a quantity denotes, which the laws speak of.
\<close>

record 'q quantity_ops =
  q_parse :: "string \<Rightarrow> 'q option"
  q_value :: "'q \<Rightarrow> int"
  q_milli :: "'q \<Rightarrow> int"
  q_of_milli :: "int \<Rightarrow> 'q"
  q_zero :: 'q
  q_add :: "'q \<Rightarrow> 'q \<Rightarrow> 'q"
  q_sub :: "'q \<Rightarrow> 'q \<Rightarrow> 'q"
  q_cmp :: "'q \<Rightarrow> 'q \<Rightarrow> int"
  q_is_zero :: "'q \<Rightarrow> bool"
  q_approx :: "'q \<Rightarrow> f64"
  q_max :: "'q resource_list \<Rightarrow> 'q resource_list \<Rightarrow> 'q resource_list"
  q_exact :: "'q \<Rightarrow> rat"

text \<open>The resource names of Kubernetes.\<close>

definition ResourceCPU :: string where
  "ResourceCPU = ''cpu''"

definition ResourceMemory :: string where
  "ResourceMemory = ''memory''"

definition ResourcePods :: string where
  "ResourcePods = ''pods''"

definition ResourceEphemeralStorage :: string where
  "ResourceEphemeralStorage = ''ephemeral-storage''"

lemmas resource_name_defs =
  ResourceCPU_def ResourceMemory_def ResourcePods_def ResourceEphemeralStorage_def

section \<open>Constants\<close>

definition memoryAvailable :: string where
  "memoryAvailable = ''memory.available''"

definition defaultMaxPods :: int where
  "defaultMaxPods = 110"

definition osReservedStorageGB :: int where
  "osReservedStorageGB = 4"

definition familyUnknown :: string where
  "familyUnknown = ''unknown''"

definition ArchitectureAmd64 :: string where
  "ArchitectureAmd64 = ''amd64''"

definition Linux :: string where
  "Linux = ''linux''"

section \<open>Requirements\<close>

definition MachineTypeFamily :: "(string \<Rightarrow> string) \<Rightarrow> string \<Rightarrow> string" where
  "MachineTypeFamily ul name =
     (let (pre, _, ok) = cut name CHR ''.'' in
      if \<not> ok \<or> pre = [] then familyUnknown else to_lower ul pre)"

definition computeRequirements ::
  "(string \<Rightarrow> string) \<Rightarrow> machine_type \<Rightarrow> string \<Rightarrow> string list \<Rightarrow> requirements" where
  "computeRequirements ul machineType region zones =
     (let sanitizedZones = map SanitizeZone zones in
      [(LabelInstanceTypeStable, [mt_name machineType]),
       (LabelTopologyZone, sanitizedZones),
       (LabelTopologyRegion, [region]),
       (LabelArchStable, [ArchitectureAmd64]),
       (LabelOSStable, [Linux]),
       (CapacityTypeLabelKey, [CapacityTypeOnDemand]),
       (LabelInstanceCPU, [show_int (mt_vcpus machineType)]),
       (LabelInstanceMemory, [show_int (mt_ram machineType)]),
       (LabelInstanceFamily, [MachineTypeFamily ul (mt_name machineType)]),
       (LabelInstanceDisk, [show_int (mt_disk machineType)])])"

text \<open>
  Every label of this provider's own domain that an instance type pins is one that Karpenter
  knows after \<open>init\<close>, so that NodePools and pods may select on it.
\<close>

lemma requirements_well_known:
  assumes "(k, vs) \<in> set (computeRequirements ul mt region zones)" "prefix (Group @ ''/'') k"
  shows "k \<in> snd (register_labels (restricted, wellKnown))"
proof -
  let ?own = "[LabelInstanceCPU, LabelInstanceMemory, LabelInstanceFamily, LabelInstanceDisk]"
  let ?keys = "[LabelInstanceTypeStable, LabelTopologyZone, LabelTopologyRegion, LabelArchStable, LabelOSStable,
      CapacityTypeLabelKey] @ ?own"
  have "k \<in> set ?keys" using assms(1) by (auto simp: computeRequirements_def Let_def)
  moreover have "list_all (\<lambda>k. prefix (Group @ ''/'') k \<longrightarrow> list_ex (\<lambda>x. x = k) ?own) ?keys" "\<not> list_ex (\<lambda>x. x = LabelWindowsBuild) ?own"
    by code_simp+
  ultimately have "k \<in> set ?own" "LabelWindowsBuild \<notin> set ?own"
    using assms(2) unfolding list_all_iff list_ex_iff by blast+
  then have "k \<in> StackitWellKnownLabels" "k \<noteq> LabelWindowsBuild" by (auto simp: StackitWellKnownLabels_def)
  then show ?thesis by (simp add: register_labels_def)
qed

section \<open>Capacity\<close>

definition cpu :: "'q quantity_ops \<Rightarrow> machine_type \<Rightarrow> 'q option" where
  "cpu Q machineType = q_parse Q (show_int (mt_vcpus machineType))"

text \<open>
  \<open>pct\<close> is the option \<open>VMMemoryOverheadPercent\<close> of the context, \<open>oor\<close> the machine's answer to
  a conversion to \<open>int64\<close> that is out of range.
\<close>

definition overhead_mib :: "(f64 \<Rightarrow> int) \<Rightarrow> f64 \<Rightarrow> int \<Rightarrow> int" where
  "overhead_mib oor pct v = i64_of_f64 oor (fceil (fdiv (fdiv (f64_of_i64 v * pct) 1024) 1024))"

definition memory :: "'q quantity_ops \<Rightarrow> (f64 \<Rightarrow> int) \<Rightarrow> f64 \<Rightarrow> machine_type \<Rightarrow> 'q option" where
  "memory Q oor pct machineType = do {
     mem \<leftarrow> q_parse Q (show_int (mt_ram machineType) @ ''Mi'');
     let overheadMiB = overhead_mib oor pct (q_value Q mem);
     overhead \<leftarrow> q_parse Q (show_int overheadMiB @ ''Mi'');
     Some (q_sub Q mem overhead)
   }"

definition usable_gb :: "int \<Rightarrow> int" where
  "usable_gb bootVolumeGB = (let usable = i64 (bootVolumeGB - osReservedStorageGB) in
     if usable < 1 then 1 else usable)"

definition ephemeralStorage :: "'q quantity_ops \<Rightarrow> int \<Rightarrow> 'q option" where
  "ephemeralStorage Q bootVolumeGB = q_parse Q (show_int (usable_gb bootVolumeGB) @ ''G'')"

definition pod_count :: "machine_type \<Rightarrow> int option \<Rightarrow> int option \<Rightarrow> int" where
  "pod_count machineType maxPods podsPerCore =
     (let count = (case maxPods of None \<Rightarrow> defaultMaxPods | Some n \<Rightarrow> n);
          perCore = get_or 0 podsPerCore
      in if perCore > 0 then min (i64 (perCore * mt_vcpus machineType)) count else count)"

definition pods :: "'q quantity_ops \<Rightarrow> machine_type \<Rightarrow> int option \<Rightarrow> int option \<Rightarrow> 'q option" where
  "pods Q machineType maxPods podsPerCore = q_parse Q (show_int (pod_count machineType maxPods podsPerCore))"

definition computeCapacity ::
  "'q quantity_ops \<Rightarrow> (f64 \<Rightarrow> int) \<Rightarrow> f64 \<Rightarrow> machine_type \<Rightarrow> int \<Rightarrow> int option \<Rightarrow> int option
   \<Rightarrow> 'q resource_list option" where
  "computeCapacity Q oor pct machineType bootVolumeGB maxPods podsPerCore = do {
     c \<leftarrow> cpu Q machineType;
     m \<leftarrow> memory Q oor pct machineType;
     p \<leftarrow> pods Q machineType maxPods podsPerCore;
     e \<leftarrow> ephemeralStorage Q bootVolumeGB;
     Some [(ResourceCPU, c), (ResourceMemory, m), (ResourcePods, p), (ResourceEphemeralStorage, e)]
   }"

section \<open>Overhead\<close>

text \<open>\<open>lo.MapEntries\<close> with \<open>MustParse\<close>.\<close>

fun parse_entries :: "'q quantity_ops \<Rightarrow> string gomap \<Rightarrow> 'q resource_list option" where
  "parse_entries Q [] = Some []"
| "parse_entries Q ((k, v) # m) = do {
     q \<leftarrow> q_parse Q v;
     rest \<leftarrow> parse_entries Q m;
     Some ((k, q) # rest)
   }"

definition systemReservedResources :: "'q quantity_ops \<Rightarrow> string gomap \<Rightarrow> 'q resource_list option" where
  "systemReservedResources Q systemReserved = parse_entries Q systemReserved"

text \<open>The tiers of the kube-reserved formula: start and end in millicores, and the share.\<close>

definition cpu_ranges :: "(int \<times> int \<times> f64) list" where
  "cpu_ranges =
     [(0, 1000, rnd (6 / 100)), (1000, 2000, rnd (1 / 100)), (2000, 4000, rnd (5 / 1000)),
      (4000, 2 ^ 31, rnd (25 / 10000))]"

text \<open>What one tier adds, in millicores; \<open>None\<close> when the loop skips it.\<close>

definition range_milli :: "(f64 \<Rightarrow> int) \<Rightarrow> int \<Rightarrow> int \<times> int \<times> f64 \<Rightarrow> int option" where
  "range_milli oor cpuMilli tier =
     (let (start, end', percentage) = tier in
      if cpuMilli < start then None
      else
        let r = (if cpuMilli < end' then f64_of_i64 (cpuMilli - start) else f64_of_i64 (end' - start))
        in Some (i64_of_f64 oor (r * percentage)))"

fun reserve_cpu ::
  "'q quantity_ops \<Rightarrow> (f64 \<Rightarrow> int) \<Rightarrow> int \<Rightarrow> (int \<times> int \<times> f64) list \<Rightarrow> 'q resource_list \<Rightarrow> 'q resource_list" where
  "reserve_cpu Q oor cpuMilli [] resourceList = resourceList"
| "reserve_cpu Q oor cpuMilli (tier # tiers) resourceList =
     (case range_milli oor cpuMilli tier of
        None \<Rightarrow> reserve_cpu Q oor cpuMilli tiers resourceList
      | Some n \<Rightarrow>
          let cpuOverhead = (case map_of resourceList ResourceCPU of Some q \<Rightarrow> q | None \<Rightarrow> q_zero Q);
              cpuOverhead = q_add Q cpuOverhead (q_of_milli Q n)
          in reserve_cpu Q oor cpuMilli tiers (map_put ResourceCPU cpuOverhead resourceList))"

definition kubeReservedResources ::
  "'q quantity_ops \<Rightarrow> (f64 \<Rightarrow> int) \<Rightarrow> 'q \<Rightarrow> 'q \<Rightarrow> string gomap \<Rightarrow> 'q resource_list option" where
  "kubeReservedResources Q oor cpus podsQ kubeReserved = do {
     mem \<leftarrow> q_parse Q (show_int (i64 (11 * q_value Q podsQ + 255)) @ ''Mi'');
     disk \<leftarrow> q_parse Q ''1Gi'';
     let resourceList = reserve_cpu Q oor (q_milli Q cpus) cpu_ranges
           [(ResourceMemory, mem), (ResourceEphemeralStorage, disk)];
     override \<leftarrow> parse_entries Q kubeReserved;
     Some (assign resourceList override)
   }"

definition has_suffix :: "string \<Rightarrow> string \<Rightarrow> bool" where
  "has_suffix s t = suffix t s"

definition mustParsePercentage :: "string \<Rightarrow> f64 option" where
  "mustParsePercentage v = do {
     p \<leftarrow> parse_float (trim v ''%'');
     Some (if p = Fin 100 then Fin 0 else p)
   }"

definition computeEvictionSignal :: "'q quantity_ops \<Rightarrow> 'q \<Rightarrow> string \<Rightarrow> 'q option" where
  "computeEvictionSignal Q capacity signalValue =
     (if has_suffix signalValue ''%'' then do {
        p \<leftarrow> mustParsePercentage signalValue;
        q_parse Q (sprint_integral (fceil (fdiv (q_approx Q capacity) 100 * p)))
      }
      else q_parse Q signalValue)"

fun eviction_override ::
  "'q quantity_ops \<Rightarrow> 'q \<Rightarrow> string gomap list \<Rightarrow> 'q resource_list \<Rightarrow> 'q resource_list option" where
  "eviction_override Q mem [] override = Some override"
| "eviction_override Q mem (m # ms) override = do {
     temp \<leftarrow> (case map_of m memoryAvailable of
         None \<Rightarrow> Some []
       | Some v \<Rightarrow> do { q \<leftarrow> computeEvictionSignal Q mem v; Some [(ResourceMemory, q)] });
     eviction_override Q mem ms (q_max Q override temp)
   }"

definition evictionThreshold ::
  "'q quantity_ops \<Rightarrow> 'q \<Rightarrow> string gomap option \<Rightarrow> string gomap option \<Rightarrow> 'q resource_list option" where
  "evictionThreshold Q mem evictionHard evictionSoft = do {
     default \<leftarrow> q_parse Q ''100Mi'';
     let overhead = [(ResourceMemory, default)];
     let evictionSignals = (case evictionHard of Some m \<Rightarrow> [m] | None \<Rightarrow> [])
           @ (case evictionSoft of Some m \<Rightarrow> [m] | None \<Rightarrow> []);
     override \<leftarrow> eviction_override Q mem evictionSignals [];
     Some (assign overhead override)
   }"

section \<open>Instance types\<close>

definition NewInstanceType ::
  "'q quantity_ops \<Rightarrow> (string \<Rightarrow> string) \<Rightarrow> (f64 \<Rightarrow> int) \<Rightarrow> f64 \<Rightarrow> machine_type \<Rightarrow> string \<Rightarrow> string list \<Rightarrow> int
   \<Rightarrow> kubelet_configuration \<Rightarrow> 'q instance_type option" where
  "NewInstanceType Q ul oor pct machineType region zones bootVolumeGB kc = do {
     capacity \<leftarrow> computeCapacity Q oor pct machineType bootVolumeGB (kc_max_pods kc) (kc_pods_per_core kc);
     c \<leftarrow> cpu Q machineType;
     p \<leftarrow> pods Q machineType (kc_max_pods kc) (kc_pods_per_core kc);
     kubeReserved \<leftarrow> kubeReservedResources Q oor c p (kc_kube_reserved kc);
     systemReserved \<leftarrow> systemReservedResources Q (kc_system_reserved kc);
     m \<leftarrow> memory Q oor pct machineType;
     threshold \<leftarrow> evictionThreshold Q m (kc_eviction_hard kc) (kc_eviction_soft kc);
     Some \<lparr>it_name = mt_name machineType,
           it_requirements = computeRequirements ul machineType region zones,
           it_offerings = [],
           it_capacity = capacity,
           it_overhead = \<lparr>ov_kube_reserved = kubeReserved, ov_system_reserved = systemReserved,
             ov_eviction_threshold = threshold\<rparr>\<rparr>
   }"

text \<open>The empty \<open>KubeletConfiguration\<close>, used when the NodeClass has none.\<close>

definition empty_kubelet :: kubelet_configuration where
  "empty_kubelet =
     \<lparr>kc_cluster_dns = [], kc_max_pods = None, kc_pods_per_core = None, kc_system_reserved = [],
      kc_kube_reserved = [], kc_eviction_hard = None, kc_eviction_soft = None,
      kc_eviction_soft_grace_period = [], kc_eviction_max_pod_grace_period = None,
      kc_cpu_cfs_quota = None\<rparr>"

definition Resolve ::
  "'q quantity_ops \<Rightarrow> (string \<Rightarrow> string) \<Rightarrow> (f64 \<Rightarrow> int) \<Rightarrow> f64 \<Rightarrow> string \<Rightarrow> machine_type \<Rightarrow> nodeclass
   \<Rightarrow> 'q instance_type option" where
  "Resolve Q ul oor pct region machineType nodeClass =
     (let kc = (case kubelet_configuration_of nodeClass of Some resolved \<Rightarrow> resolved | None \<Rightarrow> empty_kubelet)
      in NewInstanceType Q ul oor pct machineType region (availability_zone_ids nodeClass)
           (boot_volume_size_gb nodeClass) kc)"

text \<open>\<open>hash\<close> is \<open>hashstructure.Hash\<close> with \<open>SlicesAsSets\<close> on the four inputs.\<close>

definition Resolver_CacheKey ::
  "(string \<times> string list \<times> int \<times> kubelet_configuration option \<Rightarrow> int) \<Rightarrow> string \<Rightarrow> nodeclass \<Rightarrow> string" where
  "Resolver_CacheKey hash region nodeClass =
     hex16 (hash (region, availability_zone_ids nodeClass, boot_volume_size_gb nodeClass,
       kubelet_configuration_of nodeClass))"

section \<open>What the code relies on in quantities\<close>

text \<open>
  The documented behaviour the theorems use: an integer with a binary or decimal suffix parses
  to the number it names as long as that fits in an \<open>int64\<close>; arithmetic is exact; \<open>Value\<close> and
  \<open>MilliValue\<close> round up; \<open>Cmp\<close> orders by the number; and \<open>MaxResources\<close> keeps, for each
  resource, the larger of the quantities given for it.
\<close>

definition unit_value :: "string \<Rightarrow> int" where
  "unit_value u = (if u = ''Mi'' then 2 ^ 20 else if u = ''Gi'' then 2 ^ 30 else if u = ''G'' then 10 ^ 9 else 1)"

definition qlaw_parse :: "'q quantity_ops \<Rightarrow> bool" where
  "qlaw_parse Q \<longleftrightarrow> (\<forall>n. \<forall>u \<in> {[], ''Mi'', ''Gi'', ''G''}. in_i64 (n * unit_value u) \<longrightarrow>
     (\<exists>q. q_parse Q (show_int n @ u) = Some q \<and> q_exact Q q = of_int (n * unit_value u)))"

definition qlaw_value :: "'q quantity_ops \<Rightarrow> bool" where
  "qlaw_value Q \<longleftrightarrow>
     (\<forall>q n. in_i64 n \<and> q_exact Q q = of_int n \<longrightarrow> q_value Q q = n)
     \<and> (\<forall>q n. in_i64 n \<and> q_exact Q q * 1000 = of_int n \<longrightarrow> q_milli Q q = n)"

definition qlaw_arith :: "'q quantity_ops \<Rightarrow> bool" where
  "qlaw_arith Q \<longleftrightarrow>
     q_exact Q (q_zero Q) = 0
     \<and> (\<forall>a b. q_exact Q (q_add Q a b) = q_exact Q a + q_exact Q b)
     \<and> (\<forall>a b. q_exact Q (q_sub Q a b) = q_exact Q a - q_exact Q b)
     \<and> (\<forall>n. q_exact Q (q_of_milli Q n) = of_int n / 1000)"

definition qlaw_order :: "'q quantity_ops \<Rightarrow> bool" where
  "qlaw_order Q \<longleftrightarrow>
     (\<forall>a b. q_cmp Q a b < 0 \<longleftrightarrow> q_exact Q a < q_exact Q b)
     \<and> (\<forall>a b. q_cmp Q a b > 0 \<longleftrightarrow> q_exact Q b < q_exact Q a)
     \<and> (\<forall>a. q_is_zero Q a \<longleftrightarrow> q_exact Q a = 0)"

definition qlaw_max :: "'q quantity_ops \<Rightarrow> bool" where
  "qlaw_max Q \<longleftrightarrow> (\<forall>m1 m2 k. map_of (q_max Q m1 m2) k =
     (case (map_of m1 k, map_of m2 k) of
        (None, r) \<Rightarrow> r
      | (r, None) \<Rightarrow> r
      | (Some a, Some b) \<Rightarrow> if q_exact Q a < q_exact Q b then Some b else Some a))"

definition quantity_laws :: "'q quantity_ops \<Rightarrow> bool" where
  "quantity_laws Q \<longleftrightarrow> qlaw_parse Q \<and> qlaw_value Q \<and> qlaw_arith Q \<and> qlaw_order Q \<and> qlaw_max Q"

lemma q_parse_int:
  "quantity_laws Q \<Longrightarrow> u \<in> {[], ''Mi'', ''Gi'', ''G''} \<Longrightarrow> in_i64 (n * unit_value u) \<Longrightarrow>
     \<exists>q. q_parse Q (show_int n @ u) = Some q \<and> q_exact Q q = of_int (n * unit_value u)"
  unfolding quantity_laws_def qlaw_parse_def by blast

lemma q_value_int: "quantity_laws Q \<Longrightarrow> q_exact Q q = of_int n \<Longrightarrow> in_i64 n \<Longrightarrow> q_value Q q = n"
  unfolding quantity_laws_def qlaw_value_def by blast

lemma q_milli_int: "quantity_laws Q \<Longrightarrow> q_exact Q q * 1000 = of_int n \<Longrightarrow> in_i64 n \<Longrightarrow> q_milli Q q = n"
  unfolding quantity_laws_def qlaw_value_def by blast

lemma q_arith [simp]:
  assumes "quantity_laws Q"
  shows "q_exact Q (q_zero Q) = 0" "q_exact Q (q_add Q a b) = q_exact Q a + q_exact Q b"
    "q_exact Q (q_sub Q a b) = q_exact Q a - q_exact Q b" "q_exact Q (q_of_milli Q n) = of_int n / 1000"
  using assms by (simp_all add: quantity_laws_def qlaw_arith_def)

lemma q_cmp_neg: "quantity_laws Q \<Longrightarrow> q_cmp Q a b < 0 \<longleftrightarrow> q_exact Q a < q_exact Q b"
  by (simp add: quantity_laws_def qlaw_order_def)

lemma q_cmp_pos: "quantity_laws Q \<Longrightarrow> q_cmp Q a b > 0 \<longleftrightarrow> q_exact Q b < q_exact Q a"
  by (simp add: quantity_laws_def qlaw_order_def)

subsection \<open>Rational numbers as quantities\<close>

text \<open>An instance of the laws, for the concrete inputs.\<close>

definition read_digits :: "string \<Rightarrow> int" where
  "read_digits ds = foldl (\<lambda>n c. 10 * n + (case digit_val False c of Some d \<Rightarrow> d | None \<Rightarrow> 0)) 0 ds"

definition rat_parse :: "string \<Rightarrow> rat option" where
  "rat_parse s =
     (let (neg, t) = strip_sign s;
          ds = takeWhile (\<lambda>c. digit_val False c \<noteq> None) t;
          u = dropWhile (\<lambda>c. digit_val False c \<noteq> None) t;
          n = (if neg then - read_digits ds else read_digits ds)
      in if ds = [] \<or> u \<notin> {[], ''Mi'', ''Gi'', ''G''} then None
         else Some (of_int (n * unit_value u)))"

definition rat_max :: "rat gomap \<Rightarrow> rat gomap \<Rightarrow> rat gomap" where
  "rat_max m1 m2 = assign m1
     (filter (\<lambda>(k, b). case map_of m1 k of None \<Rightarrow> True | Some a \<Rightarrow> a < b)
       (map (\<lambda>k. (k, the (map_of m2 k))) (keys m2)))"

definition rat_quantity :: "rat quantity_ops" where
  "rat_quantity =
     \<lparr>q_parse = rat_parse, q_value = (\<lambda>q. \<lceil>q\<rceil>), q_milli = (\<lambda>q. \<lceil>q * 1000\<rceil>),
      q_of_milli = (\<lambda>n. of_int n / 1000), q_zero = 0, q_add = (+), q_sub = (-),
      q_cmp = (\<lambda>a b. if a < b then -1 else if b < a then 1 else 0), q_is_zero = (\<lambda>q. q = 0),
      q_approx = rnd, q_max = rat_max, q_exact = id\<rparr>"

lemma digit_val_digit: "0 \<le> d \<Longrightarrow> d < 10 \<Longrightarrow> digit_val False (digit d) = Some d"
  by (simp add: digit_val_def digit_def Let_def take_bit_eq_mod)

lemma show_nat_digits:
  "0 \<le> n \<Longrightarrow> show_nat n \<noteq> [] \<and> list_all (\<lambda>c. digit_val False c \<noteq> None) (show_nat n)
     \<and> read_digits (show_nat n) = n"
proof (induction n rule: show_nat.induct)
  case (1 n)
  show ?case
  proof (cases "n < 10")
    case True
    with 1 show ?thesis by (simp add: show_nat.simps [of n] digit_val_digit read_digits_def)
  next
    case False
    with 1 show ?thesis
      by (simp add: show_nat.simps [of n] digit_val_digit read_digits_def)
  qed
qed

lemma show_nat_head: "0 \<le> n \<Longrightarrow> hd (show_nat n) \<noteq> CHR ''-'' \<and> hd (show_nat n) \<noteq> CHR ''+''"
proof -
  assume "0 \<le> n"
  then have "digit_val False (hd (show_nat n)) \<noteq> None"
    using show_nat_digits [of n] by (cases "show_nat n") simp_all
  then show ?thesis by (auto simp: digit_val_def Let_def)
qed

lemma take_digits:
  assumes "0 \<le> n" "u \<in> {[], ''Mi'', ''Gi'', ''G''}"
  shows "takeWhile (\<lambda>c. digit_val False c \<noteq> None) (show_nat n @ u) = show_nat n"
    and "dropWhile (\<lambda>c. digit_val False c \<noteq> None) (show_nat n @ u) = u"
proof -
  have all: "\<And>c. c \<in> set (show_nat n) \<Longrightarrow> digit_val False c \<noteq> None"
    using show_nat_digits [OF assms(1)] by (simp add: list_all_iff)
  have u: "takeWhile (\<lambda>c. digit_val False c \<noteq> None) u = []" "dropWhile (\<lambda>c. digit_val False c \<noteq> None) u = u"
    using assms(2) by (auto simp: digit_val_def)
  show "takeWhile (\<lambda>c. digit_val False c \<noteq> None) (show_nat n @ u) = show_nat n"
    using takeWhile_append2 [of "show_nat n" "\<lambda>c. digit_val False c \<noteq> None" u] all u by simp
  show "dropWhile (\<lambda>c. digit_val False c \<noteq> None) (show_nat n @ u) = u"
    using dropWhile_append2 [of "show_nat n" "\<lambda>c. digit_val False c \<noteq> None" u] all u by simp
qed

lemma rat_parse_show:
  assumes u: "u \<in> {[], ''Mi'', ''Gi'', ''G''}"
  shows "rat_parse (show_int n @ u) = Some (of_int (n * unit_value u))"
proof (cases "n < 0")
  case True
  then have "strip_sign (show_int n @ u) = (True, show_nat (- n) @ u)"
    by (simp add: show_int_def strip_sign_def)
  with True show ?thesis
    using take_digits [of "- n", OF _ u] show_nat_digits [of "- n"] u
    unfolding rat_parse_def Let_def by (auto simp: list_all_iff)
next
  case False
  then obtain c t where c: "show_nat n = c # t" using show_nat_digits [of n] by (cases "show_nat n") auto
  with False have "strip_sign (show_int n @ u) = (False, show_nat n @ u)"
    using show_nat_head [of n] by (simp add: show_int_def strip_sign_def)
  with False show ?thesis
    using take_digits [of n, OF _ u] show_nat_digits [of n] u
    unfolding rat_parse_def Let_def by (auto simp: list_all_iff)
qed

lemma map_of_graph: "map_of (map (\<lambda>k. (k, f k)) ks) k = (if k \<in> set ks then Some (f k) else None)"
  by (induction ks) auto

lemma map_of_filter_pairs:
  "map_of (filter (\<lambda>(k, b). P k b) (map (\<lambda>k. (k, f k)) ks)) k
   = (if k \<in> set ks \<and> P k (f k) then Some (f k) else None)"
  by (induction ks) auto

lemma rat_max_lookup:
  "map_of (rat_max m1 m2) k =
     (case (map_of m1 k, map_of m2 k) of
        (None, r) \<Rightarrow> r | (r, None) \<Rightarrow> r | (Some a, Some b) \<Rightarrow> if a < b then Some b else Some a)"
proof (cases "map_of m2 k")
  case None
  then have "k \<notin> set (keys m2)" by (simp add: map_of_eq_None_iff)
  with None show ?thesis
    by (simp add: rat_max_def gomap_simps map_of_filter_pairs del: set_map map_map split: option.splits)
next
  case (Some b)
  then have "k \<in> set (keys m2)" by (rule map_of_key)
  with Some show ?thesis
    by (simp add: rat_max_def gomap_simps map_of_filter_pairs del: set_map map_map split: option.splits)
qed

lemma rat_quantity_laws: "quantity_laws rat_quantity"
  unfolding quantity_laws_def
proof (intro conjI)
  show "qlaw_parse rat_quantity"
    unfolding qlaw_parse_def rat_quantity_def using rat_parse_show by simp
  show "qlaw_value rat_quantity" by (simp add: qlaw_value_def rat_quantity_def)
  show "qlaw_arith rat_quantity" by (simp add: qlaw_arith_def rat_quantity_def)
  show "qlaw_order rat_quantity" by (auto simp: qlaw_order_def rat_quantity_def)
  show "qlaw_max rat_quantity" 
    unfolding qlaw_max_def rat_quantity_def quantity_ops.simps id_apply using rat_max_lookup by blast
qed

section \<open>Facts about capacity\<close>

text \<open>A machine type whose numbers the API can return: they fit, and in bytes too.\<close>

definition machine_type_ok :: "machine_type \<Rightarrow> bool" where
  "machine_type_ok mt \<longleftrightarrow>
     0 \<le> mt_vcpus mt \<and> mt_vcpus mt < 2 ^ 31 \<and> 0 \<le> mt_ram mt \<and> mt_ram mt < 2 ^ 33"

definition share_ok :: "f64 \<Rightarrow> bool" where
  "share_ok pct \<longleftrightarrow> Fin 0 \<le> pct \<and> pct \<le> Fin 1"

lemma overhead_mib_bounds:
  assumes "0 \<le> n" "n < 2 ^ 33" "share_ok pct"
  shows "0 \<le> overhead_mib oor pct (n * 2 ^ 20) \<and> overhead_mib oor pct (n * 2 ^ 20) \<le> n"
proof -
  obtain p where p: "pct = Fin p" "0 \<le> p" "p \<le> 1" using assms(3) by (cases pct) (auto simp: share_ok_def)
  let ?v = "n * 2 ^ 20"
  have v: "0 \<le> ?v" "?v < 2 ^ 53" using assms(1,2) by simp_all
  have "(of_int ?v :: rat) * p \<le> of_int ?v * 1" using p assms(1) by (intro mult_left_mono) simp_all
  then have "\<exists>r. rnd (of_int ?v * p) = Fin r \<and> 0 \<le> r \<and> r \<le> of_int ?v"
    by (intro rnd_between) (use p v in simp_all)
  then obtain a where a: "rnd (of_int ?v * p) = Fin a" "0 \<le> a" "a \<le> of_int ?v" by blast
  have a2: "a / 1024 \<le> of_int (n * 1024)" using a(3) by simp
  have "\<exists>r. rnd (a / 1024) = Fin r \<and> 0 \<le> r \<and> r \<le> of_int (n * 1024)"
    by (rule rnd_between [OF _ a2]) (use a(2) assms(2) in simp_all)
  then obtain b where b: "rnd (a / 1024) = Fin b" "0 \<le> b" "b \<le> of_int (n * 1024)" by blast
  have b2: "b / 1024 \<le> of_int n" using b(3) by simp
  have "\<exists>r. rnd (b / 1024) = Fin r \<and> 0 \<le> r \<and> r \<le> of_int n"
    by (rule rnd_between [OF _ b2]) (use b(2) assms(2) in simp_all)
  then obtain c where c: "rnd (b / 1024) = Fin c" "0 \<le> c" "c \<le> of_int n" by blast
  have "0 \<le> \<lceil>c\<rceil>" "\<lceil>c\<rceil> \<le> n" using c by (simp_all add: ceiling_le_iff)
  then have "overhead_mib oor pct ?v = \<lceil>c\<rceil>"
    using a b c v p assms(2) by (simp add: overhead_mib_def trunc_def)
  then show ?thesis using \<open>0 \<le> \<lceil>c\<rceil>\<close> \<open>\<lceil>c\<rceil> \<le> n\<close> by simp
qed

lemma memory_exact:
  assumes Q: "quantity_laws Q" and mt: "machine_type_ok mt" and pct: "share_ok pct"
  shows "\<exists>q. memory Q oor pct mt = Some q
    \<and> q_exact Q q = of_int ((mt_ram mt - overhead_mib oor pct (mt_ram mt * 2 ^ 20)) * 2 ^ 20)"
proof -
  let ?n = "mt_ram mt" and ?o = "overhead_mib oor pct (mt_ram mt * 2 ^ 20)"
  have n: "0 \<le> ?n" "?n < 2 ^ 33" using mt by (simp_all add: machine_type_ok_def)
  have o: "0 \<le> ?o" "?o \<le> ?n" using overhead_mib_bounds [OF n pct] by auto
  have Mi: "''Mi'' \<in> {[], ''Mi'', ''Gi'', ''G''}" "unit_value ''Mi'' = 2 ^ 20" by (simp_all add: unit_value_def)
  obtain m where m: "q_parse Q (show_int ?n @ ''Mi'') = Some m" "q_exact Q m = of_int (?n * 2 ^ 20)"
    using q_parse_int [OF Q Mi(1), of ?n] n by (auto simp: Mi(2))
  obtain r where r: "q_parse Q (show_int ?o @ ''Mi'') = Some r" "q_exact Q r = of_int (?o * 2 ^ 20)"
    using q_parse_int [OF Q Mi(1), of ?o] n o by (auto simp: Mi(2))
  have "q_value Q m = ?n * 2 ^ 20" using m(2) n by (intro q_value_int [OF Q]) simp_all
  with m r Q show ?thesis by (simp add: memory_def algebra_simps)
qed

lemma memory_range:
  assumes "quantity_laws Q" "machine_type_ok mt" "share_ok pct"
  shows "\<exists>q. memory Q oor pct mt = Some q \<and> 0 \<le> q_exact Q q \<and> q_exact Q q \<le> of_int (mt_ram mt * 2 ^ 20)"
proof -
  have n: "0 \<le> mt_ram mt" "mt_ram mt < 2 ^ 33" using assms(2) by (simp_all add: machine_type_ok_def)
  let ?k = "mt_ram mt - overhead_mib oor pct (mt_ram mt * 2 ^ 20)"
  have k: "0 \<le> ?k * 2 ^ 20" "?k * 2 ^ 20 \<le> mt_ram mt * 2 ^ 20" using overhead_mib_bounds [OF n assms(3), of oor] by auto
  obtain q where q: "memory Q oor pct mt = Some q" "q_exact Q q = of_int (?k * 2 ^ 20)"
    using memory_exact [OF assms] by blast
  have "0 \<le> q_exact Q q" "q_exact Q q \<le> of_int (mt_ram mt * 2 ^ 20)"
    unfolding q(2) of_int_0_le_iff of_int_le_iff using k by simp_all
  with q(1) show ?thesis by blast
qed

text \<open>
  The advertised memory is never negative and never more than the machine type has, for
  every overhead share between none and all of it, in the floating-point arithmetic of the
  program; and no string on the way makes the parser panic.
\<close>

lemma memory_bounds:
  assumes "quantity_laws Q" "machine_type_ok mt" "share_ok pct"
  shows "\<exists>q. memory Q oor pct mt = Some q \<and> 0 \<le> q_exact Q q \<and> q_exact Q q \<le> of_int (mt_ram mt * 2 ^ 20)"
  using assms by (rule memory_range)

lemma memory_bounds_witness:
  "\<exists>q. memory rat_quantity (\<lambda>_. 0) (Fin (75 / 1000))
         \<lparr>mt_name = ''g1.2'', mt_vcpus = 2, mt_ram = 8192, mt_disk = 0, mt_description = None, mt_extra_specs = []\<rparr>
       = Some q \<and> 0 \<le> q \<and> q \<le> 8589934592"
  using memory_bounds [OF rat_quantity_laws, of
      "\<lparr>mt_name = ''g1.2'', mt_vcpus = 2, mt_ram = 8192, mt_disk = 0, mt_description = None, mt_extra_specs = []\<rparr>"
      "Fin (75 / 1000)" "\<lambda>_. 0"]
  by (simp add: machine_type_ok_def share_ok_def rat_quantity_def)

lemma per_core:
  assumes "machine_type_ok mt" "0 \<le> p" "p < 2 ^ 31"
  shows "i64 (p * mt_vcpus mt) = p * mt_vcpus mt \<and> 0 \<le> p * mt_vcpus mt"
proof -
  have "p * mt_vcpus mt \<le> 2 ^ 31 * 2 ^ 31"
    using assms by (intro mult_mono) (simp_all add: machine_type_ok_def)
  moreover have "0 \<le> p * mt_vcpus mt" using assms by (simp add: machine_type_ok_def)
  ultimately show ?thesis by simp
qed

text \<open>
  The pod count is the configured or default maximum, lowered to the pods per core times the
  vCPUs when that limit is set and smaller; and the storage is the boot volume less the
  reserved 4 GB, never below 1 GB.
\<close>

lemma pods_and_storage:
  assumes "machine_type_ok mt" "0 \<le> get_or 0 podsPerCore" "get_or 0 podsPerCore < 2 ^ 31"
    and "0 \<le> gb" "gb < 2 ^ 63"
  shows "pod_count mt maxPods podsPerCore \<le> get_or 110 maxPods
     \<and> (get_or 0 podsPerCore \<noteq> 0 \<longrightarrow>
          pod_count mt maxPods podsPerCore = min (get_or 0 podsPerCore * mt_vcpus mt) (get_or 110 maxPods))
     \<and> (get_or 0 podsPerCore = 0 \<longrightarrow> pod_count mt maxPods podsPerCore = get_or 110 maxPods)
     \<and> usable_gb gb = max 1 (gb - 4)"
proof -
  have "i64 (get_or 0 podsPerCore * mt_vcpus mt) = get_or 0 podsPerCore * mt_vcpus mt"
    using per_core [OF assms(1-3)] by blast
  moreover have "i64 (gb - 4) = gb - 4" using assms by (intro i64_id) simp
  ultimately show ?thesis
    using assms(2) by (auto simp: pod_count_def Let_def get_or_def defaultMaxPods_def usable_gb_def
        osReservedStorageGB_def split: option.splits)
qed

lemma pods_and_storage_witness:
  "pod_count \<lparr>mt_name = ''g1.2'', mt_vcpus = 2, mt_ram = 8192, mt_disk = 0, mt_description = None, mt_extra_specs = []\<rparr>
     None (Some 10) = 20 \<and> usable_gb 50 = 46"
  using pods_and_storage [of
      "\<lparr>mt_name = ''g1.2'', mt_vcpus = 2, mt_ram = 8192, mt_disk = 0, mt_description = None, mt_extra_specs = []\<rparr>"
      "Some 10" 50 None]
  by (simp add: machine_type_ok_def get_or_def)

section \<open>Facts about the reservations\<close>

definition reserved_milli :: "(f64 \<Rightarrow> int) \<Rightarrow> int \<Rightarrow> int" where
  "reserved_milli oor cpuMilli = sum_list (List.map_filter (range_milli oor cpuMilli) cpu_ranges)"

lemma tier_bounds:
  assumes "share_ok pct" "0 \<le> r" "r < 2 ^ 53"
  shows "0 \<le> i64_of_f64 oor (f64_of_i64 r * pct) \<and> i64_of_f64 oor (f64_of_i64 r * pct) \<le> r"
proof -
  obtain p where p: "pct = Fin p" "0 \<le> p" "p \<le> 1" using assms(1) by (cases pct) (auto simp: share_ok_def)
  have "(of_int r :: rat) * p \<le> of_int r * 1" using p assms(2) by (intro mult_left_mono) simp_all
  then have "\<exists>c. rnd (of_int r * p) = Fin c \<and> 0 \<le> c \<and> c \<le> of_int r"
    by (intro rnd_between) (use p assms in simp_all)
  then obtain c where c: "rnd (of_int r * p) = Fin c" "0 \<le> c" "c \<le> of_int r" by blast
  have "0 \<le> \<lfloor>c\<rfloor>" "\<lfloor>c\<rfloor> \<le> r" using c by (simp_all add: floor_le_iff)
  then show ?thesis using c assms(2,3) p by (simp add: trunc_def)
qed

lemma share_ok_rnd: "0 \<le> x \<Longrightarrow> x \<le> 1 \<Longrightarrow> share_ok (rnd x)"
  using rnd_between [of x 1] by (auto simp: share_ok_def)

lemma cpu_shares_ok: "list_all (\<lambda>(s, e, pct). share_ok pct) cpu_ranges"
  by (simp add: cpu_ranges_def share_ok_rnd)

lemma range_milli_bounds:
  assumes "share_ok pct" "0 \<le> s" "s \<le> e" "e \<le> 2 ^ 31" "range_milli oor m (s, e, pct) = Some n"
  shows "s \<le> m \<and> 0 \<le> n \<and> n \<le> min m e - s"
proof (cases "m < e")
  case True
  then have n: "s \<le> m" "n = i64_of_f64 oor (f64_of_i64 (m - s) * pct)"
    using assms(5) by (auto simp: range_milli_def Let_def split: if_splits)
  show ?thesis
    using tier_bounds [OF assms(1), of "m - s" oor] n assms True by simp
next
  case False
  then have n: "s \<le> m" "n = i64_of_f64 oor (f64_of_i64 (e - s) * pct)"
    using assms(5) by (auto simp: range_milli_def Let_def split: if_splits)
  show ?thesis
    using tier_bounds [OF assms(1), of "e - s" oor] n assms False by simp
qed

lemma tier_amount:
  assumes "share_ok pct" "0 \<le> s" "s \<le> e" "e \<le> 2 ^ 31"
  shows "0 \<le> get_or 0 (range_milli oor m (s, e, pct)) \<and>
    get_or 0 (range_milli oor m (s, e, pct)) \<le> max 0 (min m e - s)"
  using range_milli_bounds [OF assms, of oor m]
  by (cases "range_milli oor m (s, e, pct)") (auto simp: get_or_def)

lemma map_filter_sum: "sum_list (List.map_filter f xs) = sum_list (map (\<lambda>x. get_or 0 (f x)) xs)"
  by (induction xs) (auto simp: get_or_def split: option.splits)

lemma reserved_milli_bounds:
  assumes "0 \<le> m"
  shows "0 \<le> reserved_milli oor m \<and> reserved_milli oor m \<le> m"
proof -
  note t = tier_amount [of _ _ _ oor m]
  have "reserved_milli oor m =
      get_or 0 (range_milli oor m (0, 1000, rnd (6 / 100)))
      + get_or 0 (range_milli oor m (1000, 2000, rnd (1 / 100)))
      + get_or 0 (range_milli oor m (2000, 4000, rnd (5 / 1000)))
      + get_or 0 (range_milli oor m (4000, 2 ^ 31, rnd (25 / 10000)))"
    unfolding reserved_milli_def map_filter_sum cpu_ranges_def by simp
  moreover note t [of "rnd (6 / 100)" 0 1000, OF share_ok_rnd]
    t [of "rnd (1 / 100)" 1000 2000, OF share_ok_rnd] t [of "rnd (5 / 1000)" 2000 4000, OF share_ok_rnd]
    t [of "rnd (25 / 10000)" 4000 "2 ^ 31", OF share_ok_rnd]
  ultimately show ?thesis using assms by (simp add: min_def max_def split: if_splits)
qed

lemma reserve_cpu_other: "k \<noteq> ResourceCPU \<Longrightarrow> map_of (reserve_cpu Q oor m tiers rl) k = map_of rl k"
  by (induction Q oor m tiers rl rule: reserve_cpu.induct) (auto simp: Let_def gomap_simps split: option.splits)

text \<open>The quantity under a key, as a number; a missing key counts as zero.\<close>

definition amount :: "'q quantity_ops \<Rightarrow> 'q resource_list \<Rightarrow> string \<Rightarrow> rat" where
  "amount Q rl k = (case map_of rl k of Some q \<Rightarrow> q_exact Q q | None \<Rightarrow> 0)"

lemma amount_put: "amount Q (map_put k q rl) k' = (if k' = k then q_exact Q q else amount Q rl k')"
  by (simp add: amount_def gomap_simps)

lemma reserve_cpu_amount:
  assumes "quantity_laws Q"
  shows "amount Q (reserve_cpu Q oor m tiers rl) ResourceCPU
    = amount Q rl ResourceCPU + of_int (sum_list (List.map_filter (range_milli oor m) tiers)) / 1000"
proof (induction tiers arbitrary: rl)
  case (Cons tier tiers)
  show ?case
  proof (cases "range_milli oor m tier")
    case (Some n)
    define q where "q = q_add Q (case map_of rl ResourceCPU of Some q \<Rightarrow> q | None \<Rightarrow> q_zero Q) (q_of_milli Q n)"
    have "reserve_cpu Q oor m (tier # tiers) rl = reserve_cpu Q oor m tiers (map_put ResourceCPU q rl)"
      by (simp add: Some q_def Let_def)
    moreover have "q_exact Q q = amount Q rl ResourceCPU + of_int n / 1000"
      using assms by (simp add: q_def amount_def split: option.splits)
    ultimately show ?thesis by (simp add: Cons.IH amount_put Some add_divide_distrib)
  qed (simp add: Cons.IH)
qed simp

lemma parse_entries_lookup:
  "parse_entries Q m = Some rl \<Longrightarrow>
     map_of rl k = (case map_of m k of None \<Rightarrow> None | Some v \<Rightarrow> q_parse Q v)"
  by (induction m arbitrary: rl) (auto split: option.splits bind_splits)

lemma parse_entries_keys: "parse_entries Q m = Some rl \<Longrightarrow> map_of rl k = None \<longleftrightarrow> map_of m k = None"
  by (induction m arbitrary: rl) (auto split: option.splits bind_splits)

lemma parse_entries_defined: "list_all (\<lambda>(k, v). q_parse Q v \<noteq> None) m \<Longrightarrow> \<exists>rl. parse_entries Q m = Some rl"
  by (induction m) auto

lemma kubeReserved_ok:
  assumes Q: "quantity_laws Q"
    and cpus: "q_exact Q cpus = of_int n" "0 \<le> n" "n < 2 ^ 31"
    and podsQ: "q_exact Q podsQ = of_int pn" "0 \<le> pn" "pn < 2 ^ 31"
    and conf: "list_all (\<lambda>(k, v). q_parse Q v \<noteq> None) kubeReserved"
  shows "\<exists>rl. kubeReservedResources Q oor cpus podsQ kubeReserved = Some rl
    \<and> (\<forall>k. map_of kubeReserved k = None \<longrightarrow> amount Q rl k =
         (if k = ResourceCPU then of_int (reserved_milli oor (1000 * n)) / 1000
          else if k = ResourceMemory then of_int ((11 * pn + 255) * 2 ^ 20)
          else if k = ResourceEphemeralStorage then of_int (2 ^ 30) else 0))
    \<and> (\<forall>k v. map_of kubeReserved k = Some v \<longrightarrow> map_of rl k = q_parse Q v)
    \<and> 0 \<le> reserved_milli oor (1000 * n) \<and> reserved_milli oor (1000 * n) \<le> 1000 * n"
proof -
  have milli: "q_milli Q cpus = 1000 * n" using cpus by (intro q_milli_int [OF Q]) simp_all
  have pv: "i64 (11 * q_value Q podsQ + 255) = 11 * pn + 255"
    using q_value_int [OF Q podsQ(1)] podsQ by simp
  obtain mem where mem: "q_parse Q (show_int (11 * pn + 255) @ ''Mi'') = Some mem"
      "q_exact Q mem = of_int ((11 * pn + 255) * 2 ^ 20)"
    using q_parse_int [OF Q, of "''Mi''" "11 * pn + 255"] podsQ by (auto simp: unit_value_def)
  have "show_int 1 @ ''Gi'' = ''1Gi''" by code_simp
  then obtain disk where disk: "q_parse Q ''1Gi'' = Some disk" "q_exact Q disk = of_int (2 ^ 30)"
    using q_parse_int [OF Q, of "''Gi''" 1] by (auto simp: unit_value_def)
  obtain over where over: "parse_entries Q kubeReserved = Some over"
    using parse_entries_defined [OF conf] by blast
  let ?base = "[(ResourceMemory, mem), (ResourceEphemeralStorage, disk)]"
  let ?rl = "reserve_cpu Q oor (1000 * n) cpu_ranges ?base"
  have ne: "ResourceCPU \<noteq> ResourceMemory" "ResourceCPU \<noteq> ResourceEphemeralStorage"
      "ResourceMemory \<noteq> ResourceEphemeralStorage" by (simp_all add: resource_name_defs)
  have res: "kubeReservedResources Q oor cpus podsQ kubeReserved = Some (assign ?rl over)"
    by (simp add: kubeReservedResources_def milli pv mem disk over)
  have amt: "amount Q ?rl k = (if k = ResourceCPU then of_int (reserved_milli oor (1000 * n)) / 1000
      else if k = ResourceMemory then of_int ((11 * pn + 255) * 2 ^ 20)
      else if k = ResourceEphemeralStorage then of_int (2 ^ 30) else 0)" for k
  proof (cases "k = ResourceCPU")
    case True
    then show ?thesis using ne reserve_cpu_amount [OF Q, of oor "1000 * n" cpu_ranges ?base]
      by (simp add: reserved_milli_def) (simp add: amount_def)
  next
    case False
    then show ?thesis using ne mem(2) disk(2) by (simp add: amount_def reserve_cpu_other)
  qed
  have "amount Q (assign ?rl over) k = amount Q ?rl k" if "map_of kubeReserved k = None" for k
    using parse_entries_lookup [OF over, of k] that by (simp add: amount_def gomap_simps)
  moreover have "map_of (assign ?rl over) k = q_parse Q v" if "map_of kubeReserved k = Some v" for k v
    using parse_entries_lookup [OF over, of k] parse_entries_keys [OF over, of k] that
    by (auto simp: gomap_simps split: option.splits)
  ultimately show ?thesis
    using res amt reserved_milli_bounds [of "1000 * n" oor] cpus(2) by simp
qed

text \<open>
  The resources reserved for the kubelet: with no configured value, the CPU reservation is
  the tiered share of the cores, between zero and all of them, the memory is 11 MiB a pod and
  255 MiB, and the storage is 1 GiB; a configured value replaces the computed one; and none of
  it panics if the configured values parse.
\<close>

lemma kubeReserved_spec:
  assumes Q: "quantity_laws Q"
    and cpus: "q_exact Q cpus = of_int n" "0 \<le> n" "n < 2 ^ 31"
    and podsQ: "q_exact Q podsQ = of_int pn" "0 \<le> pn" "pn < 2 ^ 31"
    and conf: "list_all (\<lambda>(k, v). q_parse Q v \<noteq> None) kubeReserved"
  shows "\<exists>rl. kubeReservedResources Q oor cpus podsQ kubeReserved = Some rl
    \<and> (\<forall>k. map_of kubeReserved k = None \<longrightarrow> amount Q rl k =
         (if k = ResourceCPU then of_int (reserved_milli oor (1000 * n)) / 1000
          else if k = ResourceMemory then of_int ((11 * pn + 255) * 2 ^ 20)
          else if k = ResourceEphemeralStorage then of_int (2 ^ 30) else 0))
    \<and> (\<forall>k v. map_of kubeReserved k = Some v \<longrightarrow> map_of rl k = q_parse Q v)
    \<and> 0 \<le> reserved_milli oor (1000 * n) \<and> reserved_milli oor (1000 * n) \<le> 1000 * n"
  using assms by (rule kubeReserved_ok)

lemma kubeReserved_spec_witness:
  "\<exists>rl. kubeReservedResources rat_quantity (\<lambda>_. 0) 4 110 [(''cpu'', ''1'')] = Some rl
     \<and> map_of rl ''cpu'' = Some 1 \<and> amount rat_quantity rl ''memory'' = 1536163840"
proof -
  have one: "rat_parse ''1'' = Some 1" by code_simp
  then have "list_all (\<lambda>(k, v). q_parse rat_quantity v \<noteq> None) [(''cpu'', ''1'')]"
    by (simp add: rat_quantity_def)
  from kubeReserved_spec [OF rat_quantity_laws _ _ _ _ _ _ this, of 4 4 110 110 "\<lambda>_. 0"]
  show ?thesis by (auto simp: rat_quantity_def one resource_name_defs)
qed

text \<open>
  The four shares as the compiler rounds them, and their products with whole cores, by
  certificates.
\<close>

definition share1 :: rat where
  "share1 = 8646911284551352 * p2 (-57)"

definition share2 :: rat where
  "share2 = 5764607523034235 * p2 (-59)"

definition share3 :: rat where
  "share3 = 5764607523034235 * p2 (-60)"

definition share4 :: rat where
  "share4 = 5764607523034235 * p2 (-61)"

lemmas share_defs = share1_def share2_def share3_def share4_def

lemma share_values:
  "rnd (3 / 50) = Fin share1"
  "rnd (1 / 100) = Fin share2"
  "rnd (1 / 200) = Fin share3"
  "rnd (1 / 400) = Fin share4"
  using rnd_eqI [of "-57" "3 / 50" 8646911284551352]
    rnd_eqI [of "-59" "1 / 100" 5764607523034235]
    rnd_eqI [of "-60" "1 / 200" 5764607523034235]
    rnd_eqI [of "-61" "1 / 400" 5764607523034235]
  by (simp_all add: share_defs power_int_def power_one_over)

lemma share_products:
  "rnd (1000 * share1) = Fin (60)"
  "rnd (1000 * share2) = Fin (10)"
  "rnd (1000 * share3) = Fin (5)"
  "rnd (2000 * share3) = Fin (10)"
  "rnd (1000 * share4) = Fin (5 / 2)"
  "rnd (4000 * share4) = Fin (10)"
  "rnd (12000 * share4) = Fin (30)"
  "rnd (28000 * share4) = Fin (70)"
  "rnd (60000 * share4) = Fin (150)"
  using rnd_eqI [of "-47" "1000 * share1" 8444249301319680]
    rnd_eqI [of "-49" "1000 * share2" 5629499534213120]
    rnd_eqI [of "-50" "1000 * share3" 5629499534213120]
    rnd_eqI [of "-49" "2000 * share3" 5629499534213120]
    rnd_eqI [of "-51" "1000 * share4" 5629499534213120]
    rnd_eqI [of "-49" "4000 * share4" 5629499534213120]
    rnd_eqI [of "-48" "12000 * share4" 8444249301319680]
    rnd_eqI [of "-46" "28000 * share4" 4925812092436480]
    rnd_eqI [of "-45" "60000 * share4" 5277655813324800]
  by (simp_all add: share_defs power_int_def power_one_over)

text \<open>
  The tiers evaluate to the published table, in the floating-point arithmetic of the program:
  60 millicores for the first core, 10 for the second, 5 each for the next two, 2.5 beyond.
\<close>

lemma reserved_milli_table:
  "map (\<lambda>cores. reserved_milli (\<lambda>_. 0) (1000 * cores)) [0, 1, 2, 3, 4, 5, 8, 16, 32, 64]
   = [0, 60, 70, 75, 80, 82, 90, 110, 150, 230]"
  by (simp add: reserved_milli_def cpu_ranges_def range_milli_def share_values share_products trunc_def
      floor_eq_iff)

section \<open>Facts about eviction thresholds\<close>

text \<open>The memory signals of the two maps that give one.\<close>

definition memory_signals :: "string gomap option \<Rightarrow> string gomap option \<Rightarrow> string list" where
  "memory_signals hard soft =
     List.map_filter (\<lambda>m. map_of m memoryAvailable)
       ((case hard of Some m \<Rightarrow> [m] | None \<Rightarrow> []) @ (case soft of Some m \<Rightarrow> [m] | None \<Rightarrow> []))"

definition signal_amount :: "'q quantity_ops \<Rightarrow> 'q \<Rightarrow> string \<Rightarrow> rat" where
  "signal_amount Q mem v = (case computeEvictionSignal Q mem v of Some q \<Rightarrow> q_exact Q q | None \<Rightarrow> 0)"

lemma q_max_lookup:
  "quantity_laws Q \<Longrightarrow> map_of (q_max Q m1 m2) k =
     (case (map_of m1 k, map_of m2 k) of
        (None, r) \<Rightarrow> r
      | (r, None) \<Rightarrow> r
      | (Some a, Some b) \<Rightarrow> if q_exact Q a < q_exact Q b then Some b else Some a)"
  unfolding quantity_laws_def qlaw_max_def by blast

text \<open>The value under the memory key, after the loop, starting from \<open>ov\<close>.\<close>

lemma eviction_override_memory:
  assumes "quantity_laws Q"
    and "list_all (\<lambda>v. computeEvictionSignal Q mem v \<noteq> None) (List.map_filter (\<lambda>m. map_of m memoryAvailable) ms)"
  shows "\<exists>rl. eviction_override Q mem ms ov = Some rl
    \<and> map_option (q_exact Q) (map_of rl ResourceMemory)
      = fold (\<lambda>v acc. case acc of None \<Rightarrow> Some (signal_amount Q mem v) | Some a \<Rightarrow> Some (max a (signal_amount Q mem v)))
          (List.map_filter (\<lambda>m. map_of m memoryAvailable) ms) (map_option (q_exact Q) (map_of ov ResourceMemory))"
  using assms(2)
proof (induction ms arbitrary: ov)
  case (Cons m ms)
  show ?case
  proof (cases "map_of m memoryAvailable")
    case None
    have "map_of (q_max Q ov []) ResourceMemory = map_of ov ResourceMemory"
      by (simp add: q_max_lookup [OF assms(1)] split: option.splits)
    with Cons.IH [of "q_max Q ov []"] Cons.prems None show ?thesis by simp
  next
    case (Some v)
    then obtain q where q: "computeEvictionSignal Q mem v = Some q" using Cons.prems by auto
    let ?ov = "q_max Q ov [(ResourceMemory, q)]"
    have "map_option (q_exact Q) (map_of ?ov ResourceMemory)
        = (case map_option (q_exact Q) (map_of ov ResourceMemory) of
             None \<Rightarrow> Some (signal_amount Q mem v) | Some a \<Rightarrow> Some (max a (signal_amount Q mem v)))"
      by (auto simp: q_max_lookup [OF assms(1)] signal_amount_def q max_def split: option.splits)
    with Cons.IH [of ?ov] Cons.prems Some q show ?thesis by simp
  qed
qed simp

lemma evictionThreshold_ok:
  assumes Q: "quantity_laws Q"
    and ok: "list_all (\<lambda>v. computeEvictionSignal Q mem v \<noteq> None) (memory_signals hard soft)"
  shows "\<exists>rl. evictionThreshold Q mem hard soft = Some rl
    \<and> amount Q rl ResourceMemory =
        (case memory_signals hard soft of
           [] \<Rightarrow> of_int (100 * 2 ^ 20)
         | v # vs \<Rightarrow> fold max (map (signal_amount Q mem) vs) (signal_amount Q mem v))"
proof -
  let ?ms = "(case hard of Some m \<Rightarrow> [m] | None \<Rightarrow> []) @ (case soft of Some m \<Rightarrow> [m] | None \<Rightarrow> [])"
  have sig: "List.map_filter (\<lambda>m. map_of m memoryAvailable) ?ms = memory_signals hard soft"
    by (simp add: memory_signals_def)
  have "show_int 100 @ ''Mi'' = ''100Mi''" by code_simp
  then obtain d where d: "q_parse Q ''100Mi'' = Some d" "q_exact Q d = of_int (100 * 2 ^ 20)"
    using q_parse_int [OF Q, of "''Mi''" 100] by (auto simp: unit_value_def)
  have fold_Some: "fold (\<lambda>v acc. case acc of None \<Rightarrow> Some (f v) | Some a \<Rightarrow> Some (max a (f v))) vs (Some a)
      = Some (fold max (map f vs) a)" for f :: "string \<Rightarrow> rat" and vs a
    by (induction vs arbitrary: a) (simp_all add: max.commute)
  obtain rl where rl: "eviction_override Q mem ?ms [] = Some rl"
      "map_option (q_exact Q) (map_of rl ResourceMemory)
        = fold (\<lambda>v acc. case acc of None \<Rightarrow> Some (signal_amount Q mem v) | Some a \<Rightarrow> Some (max a (signal_amount Q mem v)))
            (memory_signals hard soft) None"
    using eviction_override_memory [OF Q, of mem ?ms "[]"] ok unfolding sig by auto
  have res: "evictionThreshold Q mem hard soft = Some (assign [(ResourceMemory, d)] rl)"
    by (simp add: evictionThreshold_def d(1) rl(1))
  show ?thesis
  proof (cases "memory_signals hard soft")
    case Nil
    with rl(2) d(2) res show ?thesis by (simp add: amount_def gomap_simps)
  next
    case (Cons v vs)
    with rl(2) have "map_option (q_exact Q) (map_of rl ResourceMemory)
        = Some (fold max (map (signal_amount Q mem) vs) (signal_amount Q mem v))"
      by (simp add: fold_Some)
    with res Cons show ?thesis by (auto simp: amount_def gomap_simps)
  qed
qed

text \<open>
  The memory threshold is 100 MiB when neither map names \<open>memory.available\<close>, and otherwise
  the largest of the signals they give, whichever map it is in.
\<close>

lemma evictionThreshold_spec:
  assumes Q: "quantity_laws Q"
    and ok: "list_all (\<lambda>v. computeEvictionSignal Q mem v \<noteq> None) (memory_signals hard soft)"
  shows "\<exists>rl. evictionThreshold Q mem hard soft = Some rl
    \<and> amount Q rl ResourceMemory =
        (case memory_signals hard soft of
           [] \<Rightarrow> of_int (100 * 2 ^ 20)
         | v # vs \<Rightarrow> fold max (map (signal_amount Q mem) vs) (signal_amount Q mem v))"
  using assms by (rule evictionThreshold_ok)

lemma evictionThreshold_spec_witness:
  "\<exists>rl. evictionThreshold rat_quantity 8589934592 (Some [(''memory.available'', ''1Gi'')]) None = Some rl
     \<and> amount rat_quantity rl ''memory'' = 1073741824"
proof -
  let ?hard = "Some [(''memory.available'', ''1Gi'')]"
  have sig: "memory_signals ?hard None = [''1Gi'']"
    by (simp add: memory_signals_def memoryAvailable_def)
  have "rat_parse ''1Gi'' = Some 1073741824" by code_simp
  moreover have "\<not> has_suffix ''1Gi'' ''%''" by code_simp
  ultimately have q: "computeEvictionSignal rat_quantity 8589934592 ''1Gi'' = Some 1073741824"
    by (simp add: computeEvictionSignal_def rat_quantity_def)
  then show ?thesis
    using evictionThreshold_spec [OF rat_quantity_laws, of 8589934592 ?hard None]
    by (simp add: sig signal_amount_def resource_name_defs rat_quantity_def)
qed

section \<open>Facts about requirements and instance types\<close>

lemma requirement_keys_distinct: "wf_map (computeRequirements ul mt region zones)"
  by (simp add: computeRequirements_def Let_def node_label_defs)

lemma requirements_zone:
  "map_of (computeRequirements ul mt region zones) LabelTopologyZone = Some (map SanitizeZone zones)"
  by (simp add: computeRequirements_def Let_def node_label_defs)

lemma requirements_region:
  "map_of (computeRequirements ul mt region zones) LabelTopologyRegion = Some [region]"
  by (simp add: computeRequirements_def Let_def node_label_defs)

lemma requirements_pinned:
  "map_of (computeRequirements ul mt region zones) LabelInstanceTypeStable = Some [mt_name mt]"
  "map_of (computeRequirements ul mt region zones) LabelArchStable = Some [ArchitectureAmd64]"
  "map_of (computeRequirements ul mt region zones) LabelOSStable = Some [Linux]"
  "map_of (computeRequirements ul mt region zones) CapacityTypeLabelKey = Some [CapacityTypeOnDemand]"
  "map_of (computeRequirements ul mt region zones) LabelInstanceCPU = Some [show_int (mt_vcpus mt)]"
  "map_of (computeRequirements ul mt region zones) LabelInstanceMemory = Some [show_int (mt_ram mt)]"
  "map_of (computeRequirements ul mt region zones) LabelInstanceFamily = Some [MachineTypeFamily ul (mt_name mt)]"
  "map_of (computeRequirements ul mt region zones) LabelInstanceDisk = Some [show_int (mt_disk mt)]"
  by (simp_all add: computeRequirements_def Let_def node_label_defs Group_def LabelInstanceCPU_def
      LabelInstanceMemory_def LabelInstanceFamily_def LabelInstanceDisk_def)

lemma requirements_single:
  "map_of (computeRequirements ul mt region zones) k = Some vs \<Longrightarrow> k \<noteq> LabelTopologyZone \<Longrightarrow> \<exists>v. vs = [v]"
  by (auto simp: computeRequirements_def Let_def split: if_splits)

text \<open>A kubelet configuration all of whose quantities parse, against a machine type.\<close>

definition kubelet_ok :: "'q quantity_ops \<Rightarrow> 'q \<Rightarrow> kubelet_configuration \<Rightarrow> bool" where
  "kubelet_ok Q mem kc \<longleftrightarrow>
     list_all (\<lambda>(k, v). q_parse Q v \<noteq> None) (kc_kube_reserved kc)
     \<and> list_all (\<lambda>(k, v). q_parse Q v \<noteq> None) (kc_system_reserved kc)
     \<and> list_all (\<lambda>v. computeEvictionSignal Q mem v \<noteq> None)
         (memory_signals (kc_eviction_hard kc) (kc_eviction_soft kc))
     \<and> 0 \<le> get_or 0 (kc_pods_per_core kc) \<and> get_or 0 (kc_pods_per_core kc) < 2 ^ 31
     \<and> 0 \<le> get_or 110 (kc_max_pods kc) \<and> get_or 110 (kc_max_pods kc) < 2 ^ 31"

lemma pod_count_range:
  assumes "machine_type_ok mt" "kubelet_ok Q mem kc"
  shows "0 \<le> pod_count mt (kc_max_pods kc) (kc_pods_per_core kc)
    \<and> pod_count mt (kc_max_pods kc) (kc_pods_per_core kc) < 2 ^ 31"
proof -
  have "0 \<le> get_or 0 (kc_pods_per_core kc)" "get_or 0 (kc_pods_per_core kc) < 2 ^ 31"
    using assms(2) by (simp_all add: kubelet_ok_def)
  note per_core [OF assms(1) this]
  with assms show ?thesis
    by (auto simp: pod_count_def Let_def get_or_def defaultMaxPods_def kubelet_ok_def machine_type_ok_def
        split: option.splits)
qed

lemma NewInstanceType_returns:
  assumes Q: "quantity_laws Q" and mt: "machine_type_ok mt" and pct: "share_ok pct"
    and gb: "0 \<le> gb" "gb < 2 ^ 33"
    and kc: "kubelet_ok Q (the (memory Q oor pct mt)) kc"
  shows "\<exists>it. NewInstanceType Q ul oor pct mt region zones gb kc = Some it
    \<and> it_name it = mt_name mt
    \<and> amount Q (it_capacity it) ResourceCPU = of_int (mt_vcpus mt)
    \<and> amount Q (it_capacity it) ResourcePods = of_int (pod_count mt (kc_max_pods kc) (kc_pods_per_core kc))
    \<and> amount Q (it_capacity it) ResourceEphemeralStorage = of_int (max 1 (gb - 4) * 10 ^ 9)
    \<and> 0 \<le> amount Q (it_capacity it) ResourceMemory
    \<and> amount Q (it_capacity it) ResourceMemory \<le> of_int (mt_ram mt * 2 ^ 20)
    \<and> map_of (it_requirements it) LabelTopologyZone = Some (map SanitizeZone zones)
    \<and> map_of (it_requirements it) LabelTopologyRegion = Some [region]"
proof -
  let ?p = "pod_count mt (kc_max_pods kc) (kc_pods_per_core kc)"
  have p: "0 \<le> ?p" "?p < 2 ^ 31" using pod_count_range [OF mt kc] by auto
  have v: "0 \<le> mt_vcpus mt" "mt_vcpus mt < 2 ^ 31" using mt by (simp_all add: machine_type_ok_def)
  obtain c where c: "cpu Q mt = Some c" "q_exact Q c = of_int (mt_vcpus mt)"
    using q_parse_int [OF Q, of "[]" "mt_vcpus mt"] v by (auto simp: cpu_def unit_value_def)
  obtain m where m: "memory Q oor pct mt = Some m" "0 \<le> q_exact Q m" "q_exact Q m \<le> of_int (mt_ram mt * 2 ^ 20)"
    using memory_range [OF Q mt pct] by blast
  obtain pq where pq: "pods Q mt (kc_max_pods kc) (kc_pods_per_core kc) = Some pq" "q_exact Q pq = of_int ?p"
    using q_parse_int [OF Q, of "[]" ?p] p by (auto simp: pods_def unit_value_def)
  have u: "usable_gb gb = max 1 (gb - 4)" using gb by (simp add: usable_gb_def osReservedStorageGB_def Let_def)
  have k: "1 \<le> max 1 (gb - 4)" "max 1 (gb - 4) < 2 ^ 33" using gb by simp_all
  obtain e where e: "ephemeralStorage Q gb = Some e" "q_exact Q e = of_int (max 1 (gb - 4) * 10 ^ 9)"
    using q_parse_int [OF Q, of "''G''" "max 1 (gb - 4)"] k
    by (auto simp: ephemeralStorage_def unit_value_def u simp del: max_less_iff_conj)
  obtain kr where kr: "kubeReservedResources Q oor c pq (kc_kube_reserved kc) = Some kr"
    using kubeReserved_ok [OF Q c(2) v pq(2) p, of "kc_kube_reserved kc" oor] kc
    unfolding kubelet_ok_def by blast
  obtain sr where sr: "systemReservedResources Q (kc_system_reserved kc) = Some sr"
    using parse_entries_defined [of Q "kc_system_reserved kc"] kc
    by (auto simp: systemReservedResources_def kubelet_ok_def)
  obtain ev where ev: "evictionThreshold Q m (kc_eviction_hard kc) (kc_eviction_soft kc) = Some ev"
    using evictionThreshold_ok [OF Q, of m "kc_eviction_hard kc" "kc_eviction_soft kc"] kc m(1)
    by (auto simp: kubelet_ok_def)
  let ?cap = "[(ResourceCPU, c), (ResourceMemory, m), (ResourcePods, pq), (ResourceEphemeralStorage, e)]"
  have "computeCapacity Q oor pct mt gb (kc_max_pods kc) (kc_pods_per_core kc) = Some ?cap"
    by (simp add: computeCapacity_def c(1) m(1) pq(1) e(1))
  then have "NewInstanceType Q ul oor pct mt region zones gb kc = Some
     \<lparr>it_name = mt_name mt, it_requirements = computeRequirements ul mt region zones, it_offerings = [],
      it_capacity = ?cap, it_overhead = \<lparr>ov_kube_reserved = kr, ov_system_reserved = sr, ov_eviction_threshold = ev\<rparr>\<rparr>"
    by (simp add: NewInstanceType_def c(1) m(1) pq(1) kr sr ev)
  then show ?thesis
    using c(2) m(2,3) pq(2) e(2)
    by (simp add: requirements_zone requirements_region amount_def resource_name_defs)
qed

text \<open>
  C35 A machine type always becomes an instance type: with fewer than 2 to the 31 vCPUs and 2 to
  the 33 MiB of memory, a boot volume below 2 to the 33 GB, an overhead share between 0 and 1 and a
  kubelet configuration that parses, nothing panics, the capacity is the machine type's vCPUs, the pod count, the usable storage
  and a memory between none and all of the machine type's. The requirements pin the type, region,
  architecture, operating system, capacity type, CPU, memory, family and disk labels each to its
  one value and the zone to the sanitised zones of the NodeClass, and no label beside the zone has
  two values or none.
\<close>

theorem NewInstanceType_total:
  assumes Q: "quantity_laws Q" and mt: "machine_type_ok mt" and pct: "share_ok pct"
    and gb: "0 \<le> gb" "gb < 2 ^ 33"
    and kc: "kubelet_ok Q (the (memory Q oor pct mt)) kc"
  shows "\<exists>it. NewInstanceType Q ul oor pct mt region zones gb kc = Some it
    \<and> it_name it = mt_name mt
    \<and> amount Q (it_capacity it) ResourceCPU = of_int (mt_vcpus mt)
    \<and> amount Q (it_capacity it) ResourcePods = of_int (pod_count mt (kc_max_pods kc) (kc_pods_per_core kc))
    \<and> amount Q (it_capacity it) ResourceEphemeralStorage = of_int (max 1 (gb - 4) * 10 ^ 9)
    \<and> 0 \<le> amount Q (it_capacity it) ResourceMemory
    \<and> amount Q (it_capacity it) ResourceMemory \<le> of_int (mt_ram mt * 2 ^ 20)
    \<and> map_of (it_requirements it) LabelTopologyZone = Some (map SanitizeZone zones)
    \<and> map_of (it_requirements it) LabelInstanceTypeStable = Some [mt_name mt]
    \<and> map_of (it_requirements it) LabelTopologyRegion = Some [region]
    \<and> map_of (it_requirements it) LabelArchStable = Some [ArchitectureAmd64]
    \<and> map_of (it_requirements it) LabelOSStable = Some [Linux]
    \<and> map_of (it_requirements it) CapacityTypeLabelKey = Some [CapacityTypeOnDemand]
    \<and> map_of (it_requirements it) LabelInstanceCPU = Some [show_int (mt_vcpus mt)]
    \<and> map_of (it_requirements it) LabelInstanceMemory = Some [show_int (mt_ram mt)]
    \<and> map_of (it_requirements it) LabelInstanceFamily = Some [MachineTypeFamily ul (mt_name mt)]
    \<and> map_of (it_requirements it) LabelInstanceDisk = Some [show_int (mt_disk mt)]
    \<and> (\<forall>k vs. map_of (it_requirements it) k = Some vs \<longrightarrow> k \<noteq> LabelTopologyZone \<longrightarrow> (\<exists>v. vs = [v]))"
proof -
  obtain it where it: "NewInstanceType Q ul oor pct mt region zones gb kc = Some it"
    and rest: "it_name it = mt_name mt" "amount Q (it_capacity it) ResourceCPU = of_int (mt_vcpus mt)"
      "amount Q (it_capacity it) ResourcePods = of_int (pod_count mt (kc_max_pods kc) (kc_pods_per_core kc))"
      "amount Q (it_capacity it) ResourceEphemeralStorage = of_int (max 1 (gb - 4) * 10 ^ 9)"
      "0 \<le> amount Q (it_capacity it) ResourceMemory"
      "amount Q (it_capacity it) ResourceMemory \<le> of_int (mt_ram mt * 2 ^ 20)"
    using NewInstanceType_returns [OF assms, of ul region zones] by blast
  have "it_requirements it = computeRequirements ul mt region zones"
    using it by (auto simp: NewInstanceType_def split: bind_splits)
  with it rest requirements_single [of ul mt region zones] show ?thesis
    by (intro exI [of _ it]) (simp add: requirements_zone requirements_region requirements_pinned)
qed

theorem NewInstanceType_total_witness:
  "\<exists>it. NewInstanceType rat_quantity id (\<lambda>_. 0) (Fin (75 / 1000))
     \<lparr>mt_name = ''g1.2'', mt_vcpus = 2, mt_ram = 8192, mt_disk = 0, mt_description = None, mt_extra_specs = []\<rparr>
     ''eu01'' [''eu01-1'', ''eu01-2''] 50 empty_kubelet = Some it
     \<and> it_name it = ''g1.2'' \<and> amount rat_quantity (it_capacity it) ''ephemeral-storage'' = 46000000000"
proof -
  let ?mt = "\<lparr>mt_name = ''g1.2'', mt_vcpus = 2, mt_ram = 8192, mt_disk = 0, mt_description = None, mt_extra_specs = []\<rparr>"
  have "machine_type_ok ?mt" "share_ok (Fin (75 / 1000))" by (simp_all add: machine_type_ok_def share_ok_def)
  moreover have "kubelet_ok rat_quantity m empty_kubelet" for m
    by (simp add: kubelet_ok_def empty_kubelet_def memory_signals_def get_or_def)
  ultimately obtain it where "NewInstanceType rat_quantity id (\<lambda>_. 0) (Fin (75 / 1000)) ?mt ''eu01''
      [''eu01-1'', ''eu01-2''] 50 empty_kubelet = Some it"
      "it_name it = ''g1.2''" "amount rat_quantity (it_capacity it) ResourceEphemeralStorage = of_int (max 1 (50 - 4) * 10 ^ 9)"
    using NewInstanceType_total [OF rat_quantity_laws, of ?mt "Fin (75 / 1000)" 50 "\<lambda>_. 0" empty_kubelet id
        "''eu01''" "[''eu01-1'', ''eu01-2'']"] by auto
  then show ?thesis by (simp add: resource_name_defs)
qed

end
