(* ===== verification/Offering.thy ===== *)
theory Offering
  imports InstanceTypes Cache
begin

text \<open>
  \<open>pkg/providers/instancetype/offering/offering.go\<close>: the offerings of an instance type, from
  the price book and the availability cache, and the cache in front of them.
\<close>

section \<open>The provider\<close>

text \<open>
  \<open>lastUnavailableOfferingsSeqNum\<close> and the cache of offerings. The availability cache is shared
  with the instance provider and only read here, so it is an argument; so is the price lookup
  of the pricing provider. \<open>zh\<close> is \<open>hashstructure.Hash\<close> on the zones, as a set.
\<close>

record 'co offering_state =
  off_last_seq :: "64 word gomap"
  off_cache :: 'co

definition Offering_NewDefaultProvider :: "'co \<Rightarrow> 'co offering_state" where
  "Offering_NewDefaultProvider offeringCache = \<lparr>off_last_seq = [], off_cache = offeringCache\<rparr>"

declare Offering_NewDefaultProvider_def [simp]

definition Offering_cacheKey :: "(string list \<Rightarrow> int) \<Rightarrow> string \<Rightarrow> string \<Rightarrow> string list \<Rightarrow> string" where
  "Offering_cacheKey zh name region zones = name @ ''-'' @ region @ ''-'' @ hex16 (zh zones)"

text \<open>The loop over the zones.\<close>

definition zone_offering ::
  "('c, unit) cache_ops \<Rightarrow> 'c unavailable_offerings \<Rightarrow> string \<Rightarrow> string \<Rightarrow> f64 \<Rightarrow> string \<Rightarrow> offering" where
  "zone_offering C u name region price zone =
     (let sanitized = SanitizeZone zone in
      \<lparr>of_requirements =
         [(LabelTopologyZone, [sanitized]), (LabelTopologyRegion, [region]),
          (CapacityTypeLabelKey, [CapacityTypeOnDemand])],
       of_price = price,
       of_available = (\<not> IsUnavailable C u name sanitized)\<rparr>)"

definition compute_offerings ::
  "('c, unit) cache_ops \<Rightarrow> (string \<Rightarrow> f64 option) \<Rightarrow> 'c unavailable_offerings \<Rightarrow> string \<Rightarrow> string \<Rightarrow> string list
   \<Rightarrow> offering list" where
  "compute_offerings C price u name region zones =
     (case price name of
        None \<Rightarrow> []
      | Some p \<Rightarrow> map (zone_offering C u name region p) zones)"

definition createOfferings ::
  "('c, unit) cache_ops \<Rightarrow> ('co, offering list) cache_ops \<Rightarrow> (string list \<Rightarrow> int) \<Rightarrow> (string \<Rightarrow> f64 option)
   \<Rightarrow> 'c unavailable_offerings \<Rightarrow> string \<Rightarrow> string \<Rightarrow> string list \<Rightarrow> 'co offering_state
   \<Rightarrow> offering list \<times> 'co offering_state" where
  "createOfferings C OC zh price u name region zones st =
     (let key = Offering_cacheKey zh name region zones;
          seqNum = SeqNum u name;
          lastSeqNum = (case map_of (off_last_seq st) name of Some n \<Rightarrow> n | None \<Rightarrow> 0);
          compute =
            (let offerings = compute_offerings C price u name region zones in
             (offerings, st\<lparr>off_cache := c_set OC key offerings (off_cache st),
                            off_last_seq := map_put name seqNum (off_last_seq st)\<rparr>))
      in case c_get OC (off_cache st) key of
           Some cached \<Rightarrow> if lastSeqNum = seqNum then (cached, st) else compute
         | None \<Rightarrow> compute)"

fun InjectOfferings ::
  "('c, unit) cache_ops \<Rightarrow> ('co, offering list) cache_ops \<Rightarrow> (string list \<Rightarrow> int) \<Rightarrow> (string \<Rightarrow> f64 option)
   \<Rightarrow> 'c unavailable_offerings \<Rightarrow> 'q instance_type list \<Rightarrow> string \<Rightarrow> string list \<Rightarrow> 'co offering_state
   \<Rightarrow> 'q instance_type list \<times> 'co offering_state" where
  "InjectOfferings C OC zh price u [] region zones st = ([], st)"
| "InjectOfferings C OC zh price u (it # its) region zones st =
     (let (offerings, st') = createOfferings C OC zh price u (it_name it) region zones st;
          copy = \<lparr>it_name = it_name it, it_requirements = it_requirements it, it_offerings = offerings,
                  it_capacity = it_capacity it, it_overhead = it_overhead it\<rparr>;
          (rest, st'') = InjectOfferings C OC zh price u its region zones st'
      in (copy # rest, st''))"

section \<open>Facts about one call\<close>

text \<open>An offering tells the truth about the availability of its zone.\<close>

definition truthful :: "('c, unit) cache_ops \<Rightarrow> 'c unavailable_offerings \<Rightarrow> string \<Rightarrow> offering list \<Rightarrow> bool" where
  "truthful C u name os \<longleftrightarrow>
     list_all (\<lambda>x. case map_of (of_requirements x) LabelTopologyZone of
         Some [z] \<Rightarrow> of_available x \<longleftrightarrow> \<not> IsUnavailable C u name z
       | _ \<Rightarrow> False) os"

lemma compute_truthful: "truthful C u name (compute_offerings C price u name region zones)"
  by (auto simp: truthful_def compute_offerings_def zone_offering_def Let_def list_all_iff split: option.splits)

lemma InjectOfferings_copies:
  "map (\<lambda>it. it\<lparr>it_offerings := []\<rparr>) (fst (InjectOfferings C OC zh price u its region zones st))
   = map (\<lambda>it. it\<lparr>it_offerings := []\<rparr>) its"
  by (induction its arbitrary: st) (simp_all add: Let_def split_beta)

section \<open>Cached offerings\<close>

text \<open>What is offered as available is not marked.\<close>

definition safe_offers :: "('c, unit) cache_ops \<Rightarrow> 'c unavailable_offerings \<Rightarrow> string \<Rightarrow> offering list \<Rightarrow> bool" where
  "safe_offers C u name os \<longleftrightarrow>
     (\<forall>x \<in> set os. of_available x \<longrightarrow>
        (\<exists>z. map_of (of_requirements x) LabelTopologyZone = Some [z] \<and> \<not> IsUnavailable C u name z))"

lemma compute_safe: "safe_offers C u name (compute_offerings C price u name region zones)"
  by (auto simp: safe_offers_def compute_offerings_def zone_offering_def Let_def split: option.splits)

text \<open>The cached offerings for one set of zones were safe when the number they are kept with was read.\<close>

definition offer_ok ::
  "('c, unit) cache_ops \<Rightarrow> ('co, offering list) cache_ops \<Rightarrow> (string list \<Rightarrow> int) \<Rightarrow> string \<Rightarrow> string \<Rightarrow> string list
   \<Rightarrow> nat \<Rightarrow> 'c unavailable_offerings \<Rightarrow> 'co offering_state \<Rightarrow> bool" where
  "offer_ok C OC zh name region zones b u st \<longleftrightarrow>
     (\<forall>os. c_get OC (off_cache st) (Offering_cacheKey zh name region zones) = Some os \<longrightarrow>
        (\<exists>u0. uo_moved C b u0 u \<and> seq_of (off_last_seq st) name = SeqNum u0 name \<and> safe_offers C u0 name os))"

definition offers_ok ::
  "('c, unit) cache_ops \<Rightarrow> ('co, offering list) cache_ops \<Rightarrow> (string list \<Rightarrow> int) \<Rightarrow> string \<Rightarrow> string list
   \<Rightarrow> nat \<Rightarrow> 'c unavailable_offerings \<Rightarrow> 'co offering_state \<Rightarrow> bool" where
  "offers_ok C OC zh region zones b u st \<longleftrightarrow> (\<forall>name. no_colon name \<longrightarrow> offer_ok C OC zh name region zones b u st)"

lemma cacheKey_inj: "Offering_cacheKey zh a region zones = Offering_cacheKey zh b region zones \<longleftrightarrow> a = b"
  by (simp add: Offering_cacheKey_def)

lemma offer_ok_moved:
  assumes "offer_ok C OC zh name region zones b u st" "uo_moved C n u u'"
  shows "offer_ok C OC zh name region zones (b + n) u' st"
  using assms moved_trans unfolding offer_ok_def by blast

lemma offers_ok_moved:
  "offers_ok C OC zh region zones b u st \<Longrightarrow> uo_moved C n u u' \<Longrightarrow> offers_ok C OC zh region zones (b + n) u' st"
  unfolding offers_ok_def using offer_ok_moved by blast

text \<open>The two ways a call goes: the entry is served, or the list is computed and kept.\<close>

lemma createOfferings_cases:
  assumes "createOfferings C OC zh price u name region zones st = (os, st')"
  obtains (hit) "c_get OC (off_cache st) (Offering_cacheKey zh name region zones) = Some os" "st' = st"
      "seq_of (off_last_seq st) name = SeqNum u name"
  | (miss) "os = compute_offerings C price u name region zones"
      "st' = st\<lparr>off_cache := c_set OC (Offering_cacheKey zh name region zones) os (off_cache st),
                 off_last_seq := map_put name (SeqNum u name) (off_last_seq st)\<rparr>"
  using assms by (auto simp: createOfferings_def Let_def seq_of_def split: option.splits if_splits)

lemma offer_ok_call:
  assumes "cache_laws OC" "offer_ok C OC zh name region zones b u st"
    and call: "createOfferings C OC zh price u name region zones st = (os, st')"
  shows "offer_ok C OC zh name region zones b u st' \<and> (no_colon name \<longrightarrow> b < 2 ^ 64 \<longrightarrow> safe_offers C u name os)"
  using call
proof (cases rule: createOfferings_cases)
  case hit
  have "safe_offers C u name os" if n: "no_colon name" "b < 2 ^ 64"
  proof -
    obtain u0 where u0: "uo_moved C b u0 u" "seq_of (off_last_seq st) name = SeqNum u0 name" "safe_offers C u0 name os"
      using assms(2) hit(1) unfolding offer_ok_def by blast
    have "SeqNum u name = SeqNum u0 name" using hit(3) u0(2) by simp
    from moved_fresh [OF u0(1) n(2,1) this] u0(3) show ?thesis by (fastforce simp: safe_offers_def)
  qed
  with assms(2) hit(2) show ?thesis by blast
next
  case miss
  then show ?thesis
    using assms(1) moved_refl [of C b u] compute_safe [of C u name price region zones]
    by (auto simp: offer_ok_def seq_of_def gomap_simps)
qed

lemma offer_ok_other:
  assumes "cache_laws OC" "offer_ok C OC zh other region zones b u st" "other \<noteq> name"
    and call: "createOfferings C OC zh price u name region zones st = (os, st')"
  shows "offer_ok C OC zh other region zones b u st'"
  using call by (cases rule: createOfferings_cases)
    (use assms(1-3) in \<open>auto simp: offer_ok_def cacheKey_inj seq_of_def gomap_simps\<close>)

lemma createOfferings_ok:
  assumes "cache_laws OC" "offers_ok C OC zh region zones b u st"
    and "createOfferings C OC zh price u name region zones st = (os, st')"
  shows "offers_ok C OC zh region zones b u st' \<and> (no_colon name \<longrightarrow> b < 2 ^ 64 \<longrightarrow> safe_offers C u name os)"
proof -
  have ok: "offer_ok C OC zh other region zones b u st" if "no_colon other" for other
    using assms(2) that by (simp add: offers_ok_def)
  have "offer_ok C OC zh other region zones b u st'" if "no_colon other" for other
    using offer_ok_call [OF assms(1) ok assms(3)] offer_ok_other [OF assms(1) ok [OF that] _ assms(3)] that
    by (cases "other = name") simp_all
  with offer_ok_call [OF assms(1) ok assms(3)] show ?thesis by (simp add: offers_ok_def)
qed

section \<open>Runs of the provider for one zone set\<close>

text \<open>
  The calls for one instance type under one zone set, and everything that happens in between: the
  marks, deletions, flushes, expirations and cleanups of the record of unavailable offerings, and
  the expiry and the cleanup of the cached offerings. \<open>offer_run\<close> collects what each call
  returned, with the record at that moment.
\<close>

datatype offer_event = OfferRecord uo_event | OfferTick int | OfferJanitor | OfferCall "string \<Rightarrow> f64 option"

fun offer_run ::
  "('c, unit) cache_ops \<Rightarrow> ('co, offering list) cache_ops \<Rightarrow> (string list \<Rightarrow> int) \<Rightarrow> string \<Rightarrow> string \<Rightarrow> string list
   \<Rightarrow> offer_event list \<Rightarrow> 'c unavailable_offerings \<Rightarrow> 'co offering_state
   \<Rightarrow> (offering list \<times> 'c unavailable_offerings) list" where
  "offer_run C OC zh name region zones [] u st = []"
| "offer_run C OC zh name region zones (e # es) u st =
     (case e of
        OfferRecord ev \<Rightarrow>
          (case uo_step C ev u of None \<Rightarrow> [] | Some u' \<Rightarrow> offer_run C OC zh name region zones es u' st)
      | OfferTick n \<Rightarrow> offer_run C OC zh name region zones es u (st\<lparr>off_cache := c_tick OC n (off_cache st)\<rparr>)
      | OfferJanitor \<Rightarrow> offer_run C OC zh name region zones es u (st\<lparr>off_cache := fst (c_janitor OC (off_cache st))\<rparr>)
      | OfferCall price \<Rightarrow>
          let (os, st') = createOfferings C OC zh price u name region zones st
          in (os, u) # offer_run C OC zh name region zones es u st')"

text \<open>How many sequence numbers are changed on the way.\<close>

fun offer_changes :: "('c, unit) cache_ops \<Rightarrow> offer_event list \<Rightarrow> 'c unavailable_offerings \<Rightarrow> nat" where
  "offer_changes C [] u = 0"
| "offer_changes C (e # es) u =
     (case e of
        OfferRecord ev \<Rightarrow>
          uo_changes C ev u + (case uo_step C ev u of None \<Rightarrow> 0 | Some u' \<Rightarrow> offer_changes C es u')
      | _ \<Rightarrow> offer_changes C es u)"

fun is_call :: "offer_event \<Rightarrow> bool" where
  "is_call (OfferCall _) \<longleftrightarrow> True"
| "is_call _ \<longleftrightarrow> False"

fun event_typed :: "offer_event \<Rightarrow> bool" where
  "event_typed (OfferRecord ev) \<longleftrightarrow> uo_event_typed ev"
| "event_typed _ \<longleftrightarrow> True"

text \<open>Events after which an offering may be available again.\<close>

fun forgets :: "offer_event \<Rightarrow> bool" where
  "forgets (OfferRecord (UoMark m)) \<longleftrightarrow> False"
| "forgets (OfferRecord _) \<longleftrightarrow> True"
| "forgets _ \<longleftrightarrow> False"

lemma forgets_cases: "\<not> forgets (OfferRecord ev) \<longleftrightarrow> (\<exists>m. ev = UoMark m)"
  by (cases ev) auto

text \<open>
  The invariant: what is cached was true at some earlier moment \<open>u0\<close>, the recorded number is the
  one of that moment, and the marks since then are known.
\<close>

definition offer_inv ::
  "('c, unit) cache_ops \<Rightarrow> ('co, offering list) cache_ops \<Rightarrow> (string list \<Rightarrow> int) \<Rightarrow> string \<Rightarrow> string \<Rightarrow> string list
   \<Rightarrow> nat \<Rightarrow> 'c unavailable_offerings \<Rightarrow> 'co offering_state \<Rightarrow> bool" where
  "offer_inv C OC zh name region zones n u st \<longleftrightarrow>
     (\<forall>os. c_get OC (off_cache st) (Offering_cacheKey zh name region zones) = Some os \<longrightarrow>
        (\<exists>u0 ms. u = fold (uo_apply_mark C) ms u0 \<and> list_all (mark_typed no_colon) ms \<and> length ms \<le> n
           \<and> seq_of (off_last_seq st) name = SeqNum u0 name \<and> truthful C u0 name os))"

lemma truthful_fresh:
  assumes "cache_laws C" "list_all (mark_typed no_colon) ms" "no_colon name" "length ms < 2 ^ 64"
    and "SeqNum (fold (uo_apply_mark C) ms u) name = SeqNum u name" "truthful C u name os"
  shows "truthful C (fold (uo_apply_mark C) ms u) name os"
proof -
  have "IsUnavailable C (fold (uo_apply_mark C) ms u) name = IsUnavailable C u name"
    by (rule ext) (rule uo.change_seen [OF assms(1-5)])
  with assms(6) show ?thesis
    by (simp add: truthful_def cong del: option.case_cong_weak list.case_cong_weak)
qed

lemma offer_call:
  assumes laws: "cache_laws C" "cache_laws OC" and name: "no_colon name" and n: "n < 2 ^ 64"
    and inv: "offer_inv C OC zh name region zones n u st"
    and call: "createOfferings C OC zh price u name region zones st = (os, st')"
  shows "truthful C u name os \<and> offer_inv C OC zh name region zones n u st'"
proof (cases "c_get OC (off_cache st) (Offering_cacheKey zh name region zones) \<noteq> None
    \<and> seq_of (off_last_seq st) name = SeqNum u name")
  case True
  then obtain cached where hit: "c_get OC (off_cache st) (Offering_cacheKey zh name region zones) = Some cached"
    by blast
  with call True have res: "os = cached" "st' = st"
    by (auto simp: createOfferings_def Let_def seq_of_def split: if_splits)
  obtain u0 ms where "u = fold (uo_apply_mark C) ms u0" "list_all (mark_typed no_colon) ms" "length ms \<le> n"
      "seq_of (off_last_seq st) name = SeqNum u0 name" "truthful C u0 name cached"
    using inv hit by (auto simp: offer_inv_def)
  with True laws(1) name n have "truthful C u name cached"
    using truthful_fresh [of C ms name u0 cached] by simp
  with res inv show ?thesis by simp
next
  case False
  then have "createOfferings C OC zh price u name region zones st =
      (let offerings = compute_offerings C price u name region zones in
       (offerings, st\<lparr>off_cache := c_set OC (Offering_cacheKey zh name region zones) offerings (off_cache st),
                      off_last_seq := map_put name (SeqNum u name) (off_last_seq st)\<rparr>))"
    by (auto simp: createOfferings_def Let_def seq_of_def split: option.splits)
  with call have os: "os = compute_offerings C price u name region zones"
      and st': "st' = st\<lparr>off_cache := c_set OC (Offering_cacheKey zh name region zones) os (off_cache st),
                      off_last_seq := map_put name (SeqNum u name) (off_last_seq st)\<rparr>"
    by (auto simp: Let_def)
  have "truthful C u name os" by (simp add: os compute_truthful)
  then have "offer_inv C OC zh name region zones n u st'"
    unfolding offer_inv_def using laws(2)
    by (auto simp: st' seq_of_def gomap_simps intro!: exI [of _ u] exI [of _ "[]"])
  with \<open>truthful C u name os\<close> show ?thesis by blast
qed

lemma offer_inv_mark:
  "offer_inv C OC zh name region zones n u st \<Longrightarrow> mark_typed no_colon m \<Longrightarrow>
     offer_inv C OC zh name region zones (Suc n) (uo_apply_mark C m u) st"
proof -
  assume inv: "offer_inv C OC zh name region zones n u st" and m: "mark_typed no_colon m"
  show ?thesis
    unfolding offer_inv_def
  proof (intro allI impI)
    fix os assume "c_get OC (off_cache st) (Offering_cacheKey zh name region zones) = Some os"
    then obtain u0 ms where *: "u = fold (uo_apply_mark C) ms u0" "list_all (mark_typed no_colon) ms"
        "length ms \<le> n" "seq_of (off_last_seq st) name = SeqNum u0 name" "truthful C u0 name os"
      using inv by (auto simp: offer_inv_def)
    then show "\<exists>u0 ms. uo_apply_mark C m u = fold (uo_apply_mark C) ms u0 \<and> list_all (mark_typed no_colon) ms
        \<and> length ms \<le> Suc n \<and> seq_of (off_last_seq st) name = SeqNum u0 name \<and> truthful C u0 name os"
      using m by (intro exI [of _ u0] exI [of _ "ms @ [m]"]) simp
  qed
qed

lemma offer_inv_tick:
  "cache_laws OC \<Longrightarrow> offer_inv C OC zh name region zones n u st \<Longrightarrow>
     offer_inv C OC zh name region zones n u (st\<lparr>off_cache := c_tick OC k (off_cache st)\<rparr>)"
  unfolding offer_inv_def using cache_get_tick [of OC k "off_cache st"] by fastforce

lemma offer_run_truthful:
  assumes "cache_laws C" "cache_laws OC" "no_colon name"
  shows "offer_inv C OC zh name region zones n u st \<Longrightarrow> list_all event_typed es \<Longrightarrow>
    list_all (\<lambda>e. \<not> forgets e) es \<Longrightarrow> n + offer_changes C es u < 2 ^ 64 \<Longrightarrow>
    list_all (\<lambda>(os, u'). truthful C u' name os) (offer_run C OC zh name region zones es u st)"
proof (induction es arbitrary: n u st)
  case (Cons e es)
  show ?case
  proof (cases e)
    case (OfferRecord ev)
    then obtain m where m: "ev = UoMark m" using Cons.prems(3) forgets_cases by auto
    then show ?thesis
      using Cons.IH [OF offer_inv_mark [OF Cons.prems(1), of m]] Cons.prems
      by (simp add: OfferRecord uo_step_def uo_changes_def)
  next
    case (OfferTick k)
    then show ?thesis
      using Cons.IH [OF offer_inv_tick [OF assms(2) Cons.prems(1), of k]] Cons.prems by simp
  next
    case OfferJanitor
    have "offer_inv C OC zh name region zones n u (st\<lparr>off_cache := fst (c_janitor OC (off_cache st))\<rparr>)"
      using Cons.prems(1) assms(2) by (simp add: offer_inv_def)
    from Cons.IH [OF this] Cons.prems show ?thesis by (simp add: OfferJanitor)
  next
    case (OfferCall price)
    obtain os st' where call: "createOfferings C OC zh price u name region zones st = (os, st')" by force
    have "n < 2 ^ 64" using Cons.prems(4) by simp
    from offer_call [OF assms this Cons.prems(1) call] show ?thesis
      using Cons.IH [of n u st'] Cons.prems call by (simp add: OfferCall)
  qed
qed simp

lemma offer_ok_tick:
  "cache_laws OC \<Longrightarrow> offer_ok C OC zh name region zones b u st \<Longrightarrow>
     offer_ok C OC zh name region zones b u (st\<lparr>off_cache := c_tick OC k (off_cache st)\<rparr>)"
  unfolding offer_ok_def using cache_get_tick [of OC k "off_cache st"] by fastforce

lemma offer_run_safe:
  assumes "cache_laws C" "cache_laws OC" "no_colon name"
  shows "uo_inv C u \<Longrightarrow> offer_ok C OC zh name region zones b u st \<Longrightarrow> list_all event_typed es \<Longrightarrow>
    b + offer_changes C es u < 2 ^ 64 \<Longrightarrow>
    length (offer_run C OC zh name region zones es u st) = length (filter is_call es)
    \<and> list_all (\<lambda>(os, u'). safe_offers C u' name os) (offer_run C OC zh name region zones es u st)"
proof (induction es arbitrary: b u st)
  case (Cons e es)
  show ?case
  proof (cases e)
    case (OfferRecord ev)
    obtain u' where u': "uo_step C ev u = Some u'" "uo_inv C u'" using uo_step_inv [OF assms(1) Cons.prems(1)] by blast
    have "uo_moved C (uo_changes C ev u) u u'" using moved_step [OF assms(1) _ u'(1)] Cons.prems(3) OfferRecord by simp
    from Cons.IH [OF u'(2) offer_ok_moved [OF Cons.prems(2) this]] Cons.prems(3,4) show ?thesis
      by (simp add: OfferRecord u'(1) add.assoc)
  next
    case (OfferTick k)
    then show ?thesis
      using Cons.IH [OF Cons.prems(1) offer_ok_tick [OF assms(2) Cons.prems(2), of k]] Cons.prems by simp
  next
    case OfferJanitor
    have "offer_ok C OC zh name region zones b u (st\<lparr>off_cache := fst (c_janitor OC (off_cache st))\<rparr>)"
      using Cons.prems(2) assms(2) by (simp add: offer_ok_def)
    from Cons.IH [OF Cons.prems(1) this] Cons.prems show ?thesis by (simp add: OfferJanitor)
  next
    case (OfferCall price)
    obtain os st' where call: "createOfferings C OC zh price u name region zones st = (os, st')" by force
    from offer_ok_call [OF assms(2) Cons.prems(2) call] show ?thesis
      using Cons.IH [OF Cons.prems(1), of b st'] Cons.prems call assms(3) by (simp add: OfferCall)
  qed
qed simp

text \<open>
  C24 A launch failure is visible at the next call: for an instance type used with one zone set,
  of which nothing is cached at first, every call is answered, and what it offers as available is not marked at that moment, however
  calls, marks, deletions, flushes, and the expiry and cleanup of marks and of cached offerings
  follow each other. While nothing but marks happens to the record, expiry and cleanup of the
  cached offerings included, the availability returned is exact. Both hold as long as fewer than
  2 to the 64 changes of a sequence number happen, and they are about the availability, not about
  the price or about which zones the list has, where a cached list may be out of date.
\<close>

theorem offerings_never_stale:
  assumes "cache_laws C" "cache_laws OC" "no_colon name" "uo_inv C u"
    and "c_get OC (off_cache st) (Offering_cacheKey zh name region zones) = None"
    and "list_all event_typed es" "offer_changes C es u < 2 ^ 64"
  shows "length (offer_run C OC zh name region zones es u st) = length (filter is_call es)
     \<and> list_all (\<lambda>(os, u'). \<forall>x \<in> set os. of_available x \<longrightarrow>
          (\<exists>z. map_of (of_requirements x) LabelTopologyZone = Some [z] \<and> \<not> IsUnavailable C u' name z))
        (offer_run C OC zh name region zones es u st)
     \<and> (list_all (\<lambda>e. \<not> forgets e) es \<longrightarrow>
          list_all (\<lambda>(os, u'). truthful C u' name os) (offer_run C OC zh name region zones es u st))"
proof -
  have "offer_ok C OC zh name region zones 0 u st" "offer_inv C OC zh name region zones 0 u st"
    using assms(5) by (simp_all add: offer_ok_def offer_inv_def)
  then show ?thesis
    using offer_run_safe [OF assms(1-4) _ assms(6), of zh region zones 0 st]
      offer_run_truthful [OF assms(1-3) _ assms(6), of zh region zones 0 u st] assms(7)
    by (simp add: safe_offers_def)
qed

definition sample_offer_events :: "offer_event list" where
  "sample_offer_events =
     [OfferCall (\<lambda>_. Some (Fin 1)), OfferRecord (UoMark (MarkOffering ''g1.2'' ''eu01-1'')), OfferCall (\<lambda>_. Some (Fin 1)),
      OfferTick 1, OfferRecord (UoTick (4 * Minute)), OfferRecord UoOfferingJanitor, OfferJanitor, OfferCall (\<lambda>_. Some (Fin 1))]"

theorem offerings_never_stale_witness:
  "let rs = offer_run timed_cache timed_cache (\<lambda>zs. int (length zs)) ''g1.2'' ''eu01'' [''eu01-1'', ''eu01-2'']
        sample_offer_events (NewUnavailableOfferings timed_cache)
        (Offering_NewDefaultProvider (c_new timed_cache 300 60))
   in length rs = 3 \<and> list_all (\<lambda>(os, u'). \<forall>x \<in> set os. of_available x \<longrightarrow>
          (\<exists>z. map_of (of_requirements x) LabelTopologyZone = Some [z] \<and> \<not> IsUnavailable timed_cache u' ''g1.2'' z)) rs"
proof -
  let ?u = "NewUnavailableOfferings timed_cache"
  have "offer_changes timed_cache sample_offer_events ?u = 2" by code_simp
  then have changes: "offer_changes timed_cache sample_offer_events ?u < 2 ^ 64" by simp
  have typed: "list_all event_typed sample_offer_events" "length (filter is_call sample_offer_events) = 3"
    by (simp_all add: sample_offer_events_def no_colon_def)
  have "c_get timed_cache (off_cache (Offering_NewDefaultProvider (c_new timed_cache 300 60))) k = None" for k
    by (simp add: timed_cache_laws)
  from offerings_never_stale [OF timed_cache_laws timed_cache_laws _ uo_inv_new [OF timed_cache_laws] this typed(1) changes,
      of "''g1.2''" "\<lambda>zs. int (length zs)" "''eu01''" "[''eu01-1'', ''eu01-2'']"] typed(2)
  show ?thesis unfolding Let_def by (simp add: no_colon_def)
qed

text \<open>
  C25 With two zone sets the cache does serve a stale offering: the recorded number is kept per
  machine type while the entries are kept per zone set. After the offerings for one set were
  computed and one of them was marked, as a launch failure does, a call for another set refreshes
  the number, and the next call for the first set returns its old list, with the offering that
  just failed as available. Without the call in between it would have been unavailable. This
  holds for every machine type, price, zone and two zone sets with different keys.
\<close>

theorem offerings_stale_across_zone_sets:
  assumes "cache_laws C" "cache_laws OC"
    and "Offering_cacheKey zh name region zones \<noteq> Offering_cacheKey zh name region zones'"
    and "c_get OC (off_cache st) (Offering_cacheKey zh name region zones) = None"
    and "price name = Some p" "zone \<in> set zones" "\<not> IsUnavailable C u name (SanitizeZone zone)"
    and "createOfferings C OC zh price u name region zones st = (os, st1)"
    and "u' = MarkUnavailable C name (SanitizeZone zone) u"
    and "createOfferings C OC zh price' u' name region zones' st1 = (os2, st2)"
  shows "IsUnavailable C u' name (SanitizeZone zone)
     \<and> fst (createOfferings C OC zh price'' u' name region zones st2) = os
     \<and> (\<exists>x \<in> set os. map_of (of_requirements x) LabelTopologyZone = Some [SanitizeZone zone] \<and> of_available x)
     \<and> (\<forall>x \<in> set (fst (createOfferings C OC zh price'' u' name region zones st1)).
          map_of (of_requirements x) LabelTopologyZone = Some [SanitizeZone zone] \<longrightarrow> \<not> of_available x)"
proof -
  have marked: "IsUnavailable C u' name (SanitizeZone zone)" "SeqNum u' name = SeqNum u name + 1"
    using assms(1,9) by (simp_all add: IsUnavailable_def MarkUnavailable_def SeqNum_def seq_of_bump Let_def)
  have st1: "os = compute_offerings C price u name region zones
      \<and> st1 = st\<lparr>off_cache := c_set OC (Offering_cacheKey zh name region zones) os (off_cache st),
                off_last_seq := map_put name (SeqNum u name) (off_last_seq st)\<rparr>"
    using assms(8) by (cases rule: createOfferings_cases, use assms(4) in simp_all)
  have last1: "seq_of (off_last_seq st1) name \<noteq> SeqNum u' name"
    by (simp add: st1 seq_of_def gomap_simps marked(2))
  have st2: "st2 = st1\<lparr>off_cache := c_set OC (Offering_cacheKey zh name region zones') os2 (off_cache st1),
                off_last_seq := map_put name (SeqNum u' name) (off_last_seq st1)\<rparr>"
    using assms(10) by (cases rule: createOfferings_cases, use last1 in simp_all)
  have hit: "fst (createOfferings C OC zh price'' u' name region zones st2) = os"
    using assms(2,3) by (simp add: createOfferings_def Let_def st2 st1 [THEN conjunct2] gomap_simps)
  have miss: "fst (createOfferings C OC zh price'' u' name region zones st1) = compute_offerings C price'' u' name region zones"
  proof -
    obtain os3 st3 where c: "createOfferings C OC zh price'' u' name region zones st1 = (os3, st3)" by (rule prod.exhaust)
    then show ?thesis by (cases rule: createOfferings_cases) (use last1 c in simp_all)
  qed
  have "zone_offering C u name region p zone \<in> set os" using assms(5,6) by (simp add: st1 compute_offerings_def)
  moreover have "map_of (of_requirements (zone_offering C u name region p zone)) LabelTopologyZone = Some [SanitizeZone zone]"
      "of_available (zone_offering C u name region p zone)"
    using assms(7) by (simp_all add: zone_offering_def Let_def)
  ultimately show ?thesis
    using marked(1) hit compute_truthful [of C u' name price'' region zones]
    unfolding miss by (fastforce simp: truthful_def list_all_iff)
qed

theorem offerings_stale_across_zone_sets_witness:
  "let call = createOfferings timed_cache timed_cache (\<lambda>zs. int (length zs)) (\<lambda>_. Some (Fin 1));
       u = NewUnavailableOfferings timed_cache;
       (_, st1) = call u ''g1.2'' ''eu01'' [''eu01-1''] (Offering_NewDefaultProvider (c_new timed_cache 300 60));
       u' = MarkUnavailable timed_cache ''g1.2'' ''eu01-1'' u;
       (_, st2) = call u' ''g1.2'' ''eu01'' [''eu01-1'', ''eu01-2''] st1;
       (os, _) = call u' ''g1.2'' ''eu01'' [''eu01-1''] st2
   in IsUnavailable timed_cache u' ''g1.2'' ''eu01-1'' \<and> (\<exists>x \<in> set os. of_available x)"
proof -
  let ?call = "createOfferings timed_cache timed_cache (\<lambda>zs. int (length zs)) (\<lambda>_. Some (Fin 1))"
  let ?u = "NewUnavailableOfferings timed_cache"
  let ?u' = "MarkUnavailable timed_cache ''g1.2'' (SanitizeZone ''eu01-1'') ?u"
  have z: "SanitizeZone ''eu01-1'' = ''eu01-1''" by code_simp
  obtain os st1 where c1: "?call ?u ''g1.2'' ''eu01'' [''eu01-1''] (Offering_NewDefaultProvider (c_new timed_cache 300 60)) = (os, st1)"
    by (rule prod.exhaust)
  obtain os2 st2 where c2: "?call ?u' ''g1.2'' ''eu01'' [''eu01-1'', ''eu01-2''] st1 = (os2, st2)" by (rule prod.exhaust)
  have keys: "Offering_cacheKey (\<lambda>zs. int (length zs)) ''g1.2'' ''eu01'' [''eu01-1'']
      \<noteq> Offering_cacheKey (\<lambda>zs. int (length zs)) ''g1.2'' ''eu01'' [''eu01-1'', ''eu01-2'']" by code_simp
  have new: "c_get timed_cache (off_cache (Offering_NewDefaultProvider (c_new timed_cache 300 60))) k = None" for k
    by (simp add: timed_cache_laws)
  have av: "\<not> IsUnavailable timed_cache ?u ''g1.2'' (SanitizeZone ''eu01-1'')"
    by (simp add: IsUnavailable_def NewUnavailableOfferings_def timed_cache_laws)
  obtain os3 st3 where c3: "?call ?u' ''g1.2'' ''eu01'' [''eu01-1''] st2 = (os3, st3)" by (rule prod.exhaust)
  have "IsUnavailable timed_cache ?u' ''g1.2'' (SanitizeZone ''eu01-1'') \<and> (\<exists>x \<in> set os3. of_available x)"
    using offerings_stale_across_zone_sets [OF timed_cache_laws timed_cache_laws keys new _ _ av c1 refl c2,
      of "Fin 1" "\<lambda>_. Some (Fin 1)", unfolded c3] by auto
  then show ?thesis
    using c2 c3 unfolding z by (simp only: Let_def c1 prod.case)
qed

text \<open>
  An offering list computed before the first price refresh is empty, and it is what the
  following calls return after the prices have arrived, until the entry expires.
\<close>

lemma offerings_cached_without_price:
  "let call = createOfferings timed_cache timed_cache (\<lambda>zs. int (length zs));
       u = NewUnavailableOfferings timed_cache;
       (os1, st1) = call (\<lambda>_. None) u ''g1.2'' ''eu01'' [''eu01-1''] \<lparr>off_last_seq = [], off_cache = c_new timed_cache 300 60\<rparr>;
       (os2, _) = call (\<lambda>_. Some (Fin 1)) u ''g1.2'' ''eu01'' [''eu01-1''] st1
   in os1 = [] \<and> os2 = []"
  by code_simp

end
