(* ===== verification/InstanceTypeProvider.thy ===== *)
theory InstanceTypeProvider
  imports Offering Pricing
begin

text \<open>
  \<open>pkg/providers/instancetype/instancetype.go\<close>: the machine type catalogue, the instance types
  of a NodeClass with their caches, and the memory observed on real nodes.

  The lock on the catalogue makes each operation one step on the state. The metrics are left
  out. An operation that resolves instance types may panic in the quantity parser: its result
  is an option.
\<close>

section \<open>State\<close>

text \<open>
  What the provider is built from: the API, the resolver's region and options, the cache
  packages for the instance types, the offerings and the observed capacities, the hash
  functions, and \<open>cm\<close>, the \<open>HasChanged\<close> of karpenter's change monitor.
\<close>

record ('c, 'ct, 'co, 'cd, 'q, 'm, 'w) itp_env =
  env_api :: "'w api"
  env_quantity :: "'q quantity_ops"
  env_lower :: "string \<Rightarrow> string"
  env_oor :: "f64 \<Rightarrow> int"
  env_share :: f64
  env_region :: string
  env_key_hash :: "string \<times> string list \<times> int \<times> kubelet_configuration option \<Rightarrow> int"
  env_zone_hash :: "string list \<Rightarrow> int"
  env_uo_cache :: "('c, unit) cache_ops"
  env_type_cache :: "('ct, 'q instance_type list) cache_ops"
  env_offer_cache :: "('co, offering list) cache_ops"
  env_discovered :: "('cd, 'q) cache_ops"
  env_changed :: "string \<Rightarrow> machine_type list \<Rightarrow> 'm \<Rightarrow> bool \<times> 'm"

record ('ct, 'co, 'cd, 'm) itp_state =
  itp_machine_types :: "machine_type gomap"
  itp_types :: 'ct
  itp_offers :: "'co offering_state"
  itp_discovered :: 'cd
  itp_monitor :: 'm

text \<open>
  A new provider has no machine types. \<open>SetPricingProvider\<close> gives it its offering provider; before
  that listing fails, which is the pricing argument \<open>None\<close> of \<open>itp_List\<close>.
\<close>

definition itp_NewDefaultProvider ::
  "'ct \<Rightarrow> 'co \<Rightarrow> 'cd \<Rightarrow> 'm \<Rightarrow> ('ct, 'co, 'cd, 'm) itp_state" where
  "itp_NewDefaultProvider instanceTypesCache offeringCache discoveredCapacityCache cm =
     \<lparr>itp_machine_types = [], itp_types = instanceTypesCache,
      itp_offers = \<lparr>off_last_seq = [], off_cache = offeringCache\<rparr>,
      itp_discovered = discoveredCapacityCache, itp_monitor = cm\<rparr>"

definition SetPricingProvider :: "('ct, 'co, 'cd, 'm) itp_state \<Rightarrow> ('ct, 'co, 'cd, 'm) itp_state" where
  "SetPricingProvider st = st\<lparr>itp_offers := Offering_NewDefaultProvider (off_cache (itp_offers st))\<rparr>"

declare itp_NewDefaultProvider_def [simp] SetPricingProvider_def [simp]

section \<open>Operations\<close>

definition itp_cacheKey :: "('c, 'ct, 'co, 'cd, 'q, 'm, 'w) itp_env \<Rightarrow> nodeclass \<Rightarrow> string" where
  "itp_cacheKey E nodeClass = Resolver_CacheKey (env_key_hash E) (env_region E) nodeClass"

declare itp_cacheKey_def [simp]

definition discoveredCapacityCacheKey :: "string \<Rightarrow> nodeclass \<Rightarrow> string" where
  "discoveredCapacityCacheKey instanceType nodeClass =
     instanceType @ ''-'' @ show_int (boot_volume_size_gb nodeClass)"

text \<open>The private \<open>get\<close>; the outer option is a panic.\<close>

definition itp_get ::
  "('c, 'ct, 'co, 'cd, 'q, 'm, 'w) itp_env \<Rightarrow> nodeclass \<Rightarrow> string \<Rightarrow> ('ct, 'co, 'cd, 'm) itp_state
   \<Rightarrow> 'q instance_type result option" where
  "itp_get E nodeClass name st =
     (case map_of (itp_machine_types st) name of
        None \<Rightarrow> Some (Inl (Errorf ''machine type %q not found in cache'' [name]))
      | Some machineType \<Rightarrow> do {
          it \<leftarrow> Resolve (env_quantity E) (env_lower E) (env_oor E) (env_share E) (env_region E) machineType nodeClass;
          Some (Inr (case c_get (env_discovered E) (itp_discovered st)
                            (discoveredCapacityCacheKey (it_name it) nodeClass) of
              None \<Rightarrow> it
            | Some cached \<Rightarrow> it\<lparr>it_capacity := map_put ResourceMemory cached (it_capacity it)\<rparr>))
        })"

text \<open>\<open>lo.FilterMapToSlice\<close> over the catalogue: the instance types whose \<open>get\<close> succeeds.\<close>

fun itp_all ::
  "('c, 'ct, 'co, 'cd, 'q, 'm, 'w) itp_env \<Rightarrow> nodeclass \<Rightarrow> ('ct, 'co, 'cd, 'm) itp_state \<Rightarrow> string list
   \<Rightarrow> 'q instance_type list option" where
  "itp_all E nodeClass st [] = Some []"
| "itp_all E nodeClass st (name # names) = do {
     r \<leftarrow> itp_get E nodeClass name st;
     rest \<leftarrow> itp_all E nodeClass st names;
     Some (case r of Inl _ \<Rightarrow> rest | Inr it \<Rightarrow> it # rest)
   }"

text \<open>\<open>pricing\<close> is the attached pricing provider's \<open>Price\<close>, \<open>None\<close> before \<open>SetPricingProvider\<close>.\<close>

definition itp_List ::
  "('c, 'ct, 'co, 'cd, 'q, 'm, 'w) itp_env \<Rightarrow> (string \<Rightarrow> f64 option) option \<Rightarrow> 'c unavailable_offerings
   \<Rightarrow> nodeclass \<Rightarrow> ('ct, 'co, 'cd, 'm) itp_state
   \<Rightarrow> ('q instance_type list result \<times> ('ct, 'co, 'cd, 'm) itp_state) option" where
  "itp_List E pricing u nodeClass st =
     (case pricing of
        None \<Rightarrow> Some (Inl (Errorf ''instance type provider was not given a pricing provider'' []), st)
      | Some price \<Rightarrow>
          if itp_machine_types st = [] then Some (Inl (Errorf ''no stackit machine types found'' []), st)
          else
            let zones = availability_zone_ids nodeClass in
            if zones = [] then Some (Inl (Errorf ''nodeclass has no resolved availability zones'' []), st)
            else
              let key = itp_cacheKey E nodeClass in do {
                (instanceTypes, st1) \<leftarrow>
                  (case c_get (env_type_cache E) (itp_types st) key of
                     Some item \<Rightarrow> Some (item, st)
                   | None \<Rightarrow> do {
                       its \<leftarrow> itp_all E nodeClass st (keys (itp_machine_types st));
                       Some (its, st\<lparr>itp_types := c_set (env_type_cache E) key its (itp_types st)\<rparr>)
                     });
                let (its, offers) = InjectOfferings (env_uo_cache E) (env_offer_cache E) (env_zone_hash E) price u
                      instanceTypes (env_region E) zones (itp_offers st1);
                Some (Inr its, st1\<lparr>itp_offers := offers\<rparr>)
              })"

definition itp_Get ::
  "('c, 'ct, 'co, 'cd, 'q, 'm, 'w) itp_env \<Rightarrow> (string \<Rightarrow> f64 option) option \<Rightarrow> 'c unavailable_offerings
   \<Rightarrow> nodeclass \<Rightarrow> string \<Rightarrow> ('ct, 'co, 'cd, 'm) itp_state
   \<Rightarrow> ('q instance_type result \<times> ('ct, 'co, 'cd, 'm) itp_state) option" where
  "itp_Get E pricing u nodeClass name st = do {
     (r, st') \<leftarrow> itp_List E pricing u nodeClass st;
     Some (case r of
         Inl err \<Rightarrow> (Inl err, st')
       | Inr instanceTypes \<Rightarrow>
           (case find (\<lambda>i. it_name i = name) instanceTypes of
              None \<Rightarrow> (Inl (Errorf ''instance type %q not found'' [name]), st')
            | Some it \<Rightarrow> (Inr it, st')))
   }"

text \<open>\<open>lo.SliceToMap\<close>: a later machine type of the same name replaces an earlier one.\<close>

definition machine_type_map :: "machine_type list \<Rightarrow> machine_type gomap" where
  "machine_type_map mts = fold (\<lambda>mt. map_put (mt_name mt) mt) mts []"

definition UpdateMachineTypes ::
  "('c, 'ct, 'co, 'cd, 'q, 'm, 'w) itp_env \<Rightarrow> ('ct, 'co, 'cd, 'm) itp_state \<times> 'w
   \<Rightarrow> go_error option \<times> ('ct, 'co, 'cd, 'm) itp_state \<times> 'w" where
  "UpdateMachineTypes E sw =
     (let (st, w) = sw in
      case api_ListMachineTypes (env_api E) w of
        (Inl err, w') \<Rightarrow> (Some (Wrapf ''listing stackit machine types'' [] err), st, w')
      | (Inr machineTypes, w') \<Rightarrow>
          if machineTypes = [] then (Some (Errorf ''stackit returned no machine types'' []), st, w')
          else
            let (changed, m) = env_changed E ''machine-types'' machineTypes (itp_monitor st);
                st = st\<lparr>itp_monitor := m\<rparr>;
                st = (if changed then st\<lparr>itp_types := c_flush (env_type_cache E) (itp_types st)\<rparr> else st)
            in (None, st\<lparr>itp_machine_types := machine_type_map machineTypes\<rparr>, w'))"

definition spec_of :: "machine_type \<Rightarrow> machine_type_spec" where
  "spec_of mt = \<lparr>ms_name = mt_name mt, ms_vcpus = mt_vcpus mt, ms_ram_mib = mt_ram mt, ms_disk_gib = mt_disk mt\<rparr>"

definition MachineTypeSpecs ::
  "('c, 'ct, 'co, 'cd, 'q, 'm, 'w) itp_env \<Rightarrow> (('ct, 'co, 'cd, 'm) itp_state \<times> 'w) lister" where
  "MachineTypeSpecs E sw =
     (let (st, w) = sw in
      if itp_machine_types st = [] then
        (case UpdateMachineTypes E (st, w) of
           (Some err, sw') \<Rightarrow> (Inl err, sw')
         | (None, st', w') \<Rightarrow> (Inr (map (spec_of \<circ> snd) (itp_machine_types st')), st', w'))
      else (Inr (map (spec_of \<circ> snd) (itp_machine_types st)), st, w))"

text \<open>
  The node's labels, and the memory of its reported capacity, zero when it reports none. The
  second comparison of the code only decides whether a line is logged.
\<close>

definition UpdateInstanceTypeCapacityFromNode ::
  "('c, 'ct, 'co, 'cd, 'q, 'm, 'w) itp_env \<Rightarrow> string gomap \<Rightarrow> 'q resource_list \<Rightarrow> nodeclass
   \<Rightarrow> ('ct, 'co, 'cd, 'm) itp_state \<Rightarrow> ('ct, 'co, 'cd, 'm) itp_state" where
  "UpdateInstanceTypeCapacityFromNode E labels capacity nodeClass st =
     (case map_of labels LabelInstanceTypeStable of
        None \<Rightarrow> st
      | Some instanceTypeName \<Rightarrow>
          let key = discoveredCapacityCacheKey instanceTypeName nodeClass;
              actualCapacity = (case map_of capacity ResourceMemory of Some q \<Rightarrow> q | None \<Rightarrow> q_zero (env_quantity E));
              cachedCapacity = c_get (env_discovered E) (itp_discovered st) key
          in if (case cachedCapacity of None \<Rightarrow> False | Some q \<Rightarrow> q_cmp (env_quantity E) actualCapacity q > 0)
             then st
             else st\<lparr>itp_discovered := c_set (env_discovered E) key actualCapacity (itp_discovered st)\<rparr>)"

definition itp_Reset ::
  "('c, 'ct, 'co, 'cd, 'q, 'm, 'w) itp_env \<Rightarrow> ('ct, 'co, 'cd, 'm) itp_state \<Rightarrow> ('ct, 'co, 'cd, 'm) itp_state" where
  "itp_Reset E st =
     st\<lparr>itp_machine_types := [], itp_types := c_flush (env_type_cache E) (itp_types st),
        itp_discovered := c_flush (env_discovered E) (itp_discovered st)\<rparr>"

section \<open>Facts about the catalogue\<close>

text \<open>The catalogue files every machine type under its own name, once.\<close>

definition catalogue_ok :: "machine_type gomap \<Rightarrow> bool" where
  "catalogue_ok m \<longleftrightarrow> wf_map m \<and> list_all (\<lambda>(name, mt). name = mt_name mt) m"

lemma catalogue_put: "catalogue_ok m \<Longrightarrow> catalogue_ok (map_put (mt_name mt) mt m)"
proof -
  assume ok: "catalogue_ok m"
  have "list_all (\<lambda>(name, mt'). name = mt_name mt') (map_put (mt_name mt) mt m)"
    if "list_all (\<lambda>(name, mt'). name = mt_name mt') m"
    using that by (induction m) auto
  with ok show ?thesis by (simp add: catalogue_ok_def distinct_update del: set_map)
qed

lemma machine_type_map_ok: "catalogue_ok (machine_type_map mts)"
proof -
  have "catalogue_ok m \<Longrightarrow> catalogue_ok (fold (\<lambda>mt. map_put (mt_name mt) mt) mts m)" for m
    by (induction mts arbitrary: m) (simp_all add: catalogue_put)
  then show ?thesis by (simp add: machine_type_map_def catalogue_ok_def)
qed

lemma machine_type_map_keys: "set (keys (machine_type_map mts)) = mt_name ` set mts"
proof -
  have "set (keys (fold (\<lambda>mt. map_put (mt_name mt) mt) mts m)) = mt_name ` set mts \<union> set (keys m)" for m
    by (induction mts arbitrary: m) (simp_all only: fold.simps set_keys_put o_apply id_apply, auto)
  then show ?thesis by (simp add: machine_type_map_def del: set_map)
qed

definition itp_inv :: "('ct, 'co, 'cd, 'm) itp_state \<times> 'w \<Rightarrow> bool" where
  "itp_inv sw \<longleftrightarrow> catalogue_ok (itp_machine_types (fst sw))"

lemma UpdateMachineTypes_inv: "itp_inv sw \<Longrightarrow> itp_inv (snd (UpdateMachineTypes E sw))"
  by (cases sw) (auto simp: UpdateMachineTypes_def itp_inv_def Let_def machine_type_map_ok
      split: prod.splits sum.splits)

lemma UpdateMachineTypes_nonempty:
  "UpdateMachineTypes E sw = (None, st', w') \<Longrightarrow> itp_machine_types st' \<noteq> []"
proof (cases sw)
  case (Pair st w)
  assume "UpdateMachineTypes E sw = (None, st', w')"
  with Pair obtain mts where mts: "mts \<noteq> []" "itp_machine_types st' = machine_type_map mts"
    by (auto simp: UpdateMachineTypes_def Let_def split: prod.splits sum.splits if_splits)
  then have "set (keys (itp_machine_types st')) \<noteq> {}" by (simp add: machine_type_map_keys del: set_map)
  then show ?thesis by auto
qed

lemma catalogue_specs:
  assumes "catalogue_ok m"
  shows "distinct (map ms_name (map (spec_of \<circ> snd) m))"
proof -
  have "map ms_name (map (spec_of \<circ> snd) m) = keys m"
    using assms by (auto simp: catalogue_ok_def list_all_iff spec_of_def)
  with assms show ?thesis by (simp only: catalogue_ok_def)
qed

text \<open>The catalogue is a lister for the pricing provider, whatever the provider is built from.\<close>

interpretation lister: machine_type_lister itp_inv "MachineTypeSpecs E"
  for E :: "('c, 'ct, 'co, 'cd, 'q, 'm, 'w) itp_env"
proof unfold_locales
  fix s :: "('ct, 'co, 'cd, 'm) itp_state \<times> 'w"
  assume inv: "itp_inv s"
  then show "itp_inv (snd (MachineTypeSpecs E s))"
    using UpdateMachineTypes_inv [of s E]
    by (cases s) (auto simp: MachineTypeSpecs_def itp_inv_def split: prod.splits option.splits)
next
  fix s :: "('ct, 'co, 'cd, 'm) itp_state \<times> 'w" and xs
  assume inv: "itp_inv s" and ok: "fst (MachineTypeSpecs E s) = Inr xs"
  obtain m where m: "catalogue_ok m" "m \<noteq> []" "xs = map (spec_of \<circ> snd) m"
  proof (cases "itp_machine_types (fst s) = []")
    case True
    obtain st' w' where u: "UpdateMachineTypes E s = (None, st', w')" "xs = map (spec_of \<circ> snd) (itp_machine_types st')"
      using ok True by (cases s) (auto simp: MachineTypeSpecs_def split: prod.splits option.splits)
    with that UpdateMachineTypes_inv [OF inv, of E] UpdateMachineTypes_nonempty [OF u(1)] show ?thesis
      by (auto simp: itp_inv_def)
  next
    case False
    with that ok inv show ?thesis by (cases s) (auto simp: MachineTypeSpecs_def itp_inv_def)
  qed
  then show "xs \<noteq> [] \<and> distinct (map ms_name xs)" using catalogue_specs by blast
qed

section \<open>Facts about listing\<close>

lemma Resolve_name: "Resolve Q ul oor pct region mt nodeClass = Some it \<Longrightarrow> it_name it = mt_name mt"
  by (auto simp: Resolve_def NewInstanceType_def split: bind_splits option.splits)

lemma itp_get_name:
  "catalogue_ok (itp_machine_types st) \<Longrightarrow> itp_get E nodeClass name st = Some (Inr it) \<Longrightarrow> it_name it = name"
  by (auto simp: itp_get_def catalogue_ok_def list_all_iff dest!: map_of_SomeD Resolve_name
      split: option.splits bind_splits)

lemma itp_all_names:
  "catalogue_ok (itp_machine_types st) \<Longrightarrow> set names \<subseteq> set (keys (itp_machine_types st)) \<Longrightarrow>
     itp_all E nodeClass st names = Some its \<Longrightarrow> map it_name its = names"
proof (induction names arbitrary: its)
  case (Cons name names)
  then obtain r rest where r: "itp_get E nodeClass name st = Some r" "itp_all E nodeClass st names = Some rest"
      "its = (case r of Inl _ \<Rightarrow> rest | Inr it \<Rightarrow> it # rest)"
    by (auto split: bind_splits)
  have "map_of (itp_machine_types st) name \<noteq> None"
    using Cons.prems(2) by (simp add: map_of_eq_None_iff del: set_map) (simp)
  then obtain it where "r = Inr it" using r(1) by (auto simp: itp_get_def split: bind_splits)
  moreover have "map it_name rest = names" using Cons.IH Cons.prems r(2) by simp
  ultimately show ?case using r Cons.prems(1) itp_get_name by auto
qed simp

text \<open>Every cached list was computed from the catalogue: it names its machine types, each once.\<close>

definition cached_names_ok ::
  "('c, 'ct, 'co, 'cd, 'q, 'm, 'w) itp_env \<Rightarrow> ('ct, 'co, 'cd, 'm) itp_state \<Rightarrow> bool" where
  "cached_names_ok E st \<longleftrightarrow>
     (\<forall>key its. c_get (env_type_cache E) (itp_types st) key = Some its \<longrightarrow>
        mset (map it_name its) = mset (keys (itp_machine_types st)))"

lemma InjectOfferings_names:
  "map it_name (fst (InjectOfferings C OC zh price u its region zones st)) = map it_name its"
  by (induction its arbitrary: st) (simp_all add: Let_def split_beta)

text \<open>
  A listing fails only for the three reasons the code names, in their order, and one that
  succeeds returns exactly the machine types of the catalogue, each once, whether or not it was
  served from the cache; and it keeps the caches in step with the catalogue.
\<close>

lemma itp_List_names:
  assumes laws: "cache_laws (env_type_cache E)"
    and inv: "catalogue_ok (itp_machine_types st)" "cached_names_ok E st"
    and run: "itp_List E pricing u nodeClass st = Some (r, st')"
  shows "(\<not> is_ok r \<longleftrightarrow> pricing = None \<or> itp_machine_types st = [] \<or> availability_zone_ids nodeClass = [])
    \<and> (case r of Inl _ \<Rightarrow> st' = st | Inr its \<Rightarrow> mset (map it_name its) = mset (keys (itp_machine_types st)))
    \<and> itp_machine_types st' = itp_machine_types st \<and> cached_names_ok E st'"
proof (cases "pricing = None \<or> itp_machine_types st = [] \<or> availability_zone_ids nodeClass = []")
  case True
  with run inv show ?thesis by (auto simp: itp_List_def Let_def split: option.splits if_splits)
next
  case False
  then obtain price where p: "pricing = Some price" by auto
  let ?key = "Resolver_CacheKey (env_key_hash E) (env_region E) nodeClass"
  let ?cached = "c_get (env_type_cache E) (itp_types st) ?key"
  obtain its st1 where its: "mset (map it_name its) = mset (keys (itp_machine_types st))"
      "itp_machine_types st1 = itp_machine_types st" "cached_names_ok E st1"
    and run1: "r = Inr (fst (InjectOfferings (env_uo_cache E) (env_offer_cache E) (env_zone_hash E) price u its
          (env_region E) (availability_zone_ids nodeClass) (itp_offers st1)))"
      "itp_machine_types st' = itp_machine_types st1" "itp_types st' = itp_types st1"
  proof (cases ?cached)
    case (Some its)
    with run False p show ?thesis
      by (intro that [of its st])
         (use inv in \<open>auto simp: itp_List_def Let_def cached_names_ok_def split_beta\<close>)
  next
    case None
    with run False p obtain its where all: "itp_all E nodeClass st (keys (itp_machine_types st)) = Some its"
      by (auto simp: itp_List_def Let_def split: bind_splits)
    have names: "map it_name its = keys (itp_machine_types st)" using itp_all_names [OF inv(1) _ all] by blast
    let ?st1 = "st\<lparr>itp_types := c_set (env_type_cache E) ?key its (itp_types st)\<rparr>"
    have "cached_names_ok E ?st1" using inv(2) names laws by (simp add: cached_names_ok_def del: mset_map)
    with run False p None all names show ?thesis
      by (intro that [of its ?st1]) (auto simp: itp_List_def Let_def split_beta simp del: mset_map)
  qed
  then show ?thesis using False by (simp add: InjectOfferings_names cached_names_ok_def del: mset_map)
qed

text \<open>
  A reserved quantity that does not parse makes the resolver panic, and with it every listing that
  has to resolve instance types for the NodeClass.
\<close>

definition bad_quantity :: "'q quantity_ops \<Rightarrow> nodeclass \<Rightarrow> bool" where
  "bad_quantity Q nodeClass \<longleftrightarrow>
     (case kubelet_configuration_of nodeClass of
        None \<Rightarrow> False
      | Some kc \<Rightarrow> list_ex (\<lambda>(k, v). q_parse Q v = None) (kc_kube_reserved kc @ kc_system_reserved kc))"

lemma parse_entries_panics: "list_ex (\<lambda>(k, v). q_parse Q v = None) m \<Longrightarrow> parse_entries Q m = None"
  by (induction m) (auto split: bind_split)

lemma Resolve_panics: "bad_quantity Q nodeClass \<Longrightarrow> Resolve Q ul oor pct region mt nodeClass = None"
  by (auto simp: bad_quantity_def Resolve_def NewInstanceType_def kubeReservedResources_def systemReservedResources_def
      parse_entries_panics split: option.splits bind_split)

lemma itp_List_panics:
  assumes "bad_quantity (env_quantity E) nodeClass" "itp_machine_types st \<noteq> []"
    and "availability_zone_ids nodeClass \<noteq> []" "c_get (env_type_cache E) (itp_types st) (itp_cacheKey E nodeClass) = None"
  shows "itp_List E (Some price) u nodeClass st = None"
proof -
  obtain name mt rest where m: "itp_machine_types st = (name, mt) # rest"
    using assms(2) by (cases "itp_machine_types st") auto
  then have "itp_get E nodeClass name st = None" by (simp add: itp_get_def Resolve_panics [OF assms(1)])
  then have "itp_all E nodeClass st (keys (itp_machine_types st)) = None" by (simp add: m)
  with assms(2-4) show ?thesis by (simp add: itp_List_def Let_def)
qed

text \<open>A listing like the ones of the witnesses: one machine type, caches empty.\<close>

definition sample_type :: machine_type where
  "sample_type = \<lparr>mt_name = ''g1.2'', mt_vcpus = 2, mt_ram = 8192, mt_disk = 0, mt_description = None, mt_extra_specs = []\<rparr>"

definition sample_nodeclass :: nodeclass where
  "sample_nodeclass =
     \<lparr>nc_name = ''default'', nc_generation = 1, nc_deletion_timestamp = None, nc_annotations = [],
      nc_finalizers = [],
      nc_spec = \<lparr>spec_availability_zones = [],
        spec_boot_volume = \<lparr>bv_source = \<lparr>bvs_id = ''img'', bvs_type = None\<rparr>, bv_size = 50,
          bv_performance_class = None, bv_delete_on_termination = None\<rparr>,
        spec_user_data = None, spec_networking = \<lparr>net_network_id = Some ''net'', net_nic_ids = []\<rparr>,
        spec_security_groups = [], spec_keypair_name = None, spec_affinity_group = None,
        spec_service_account_mails = [], spec_labels = [], spec_server_name_prefix = None,
        spec_kubelet = None\<rparr>,
      nc_availability_zones = [\<lparr>az_id = ''eu01-1''\<rparr>], nc_conditions = []\<rparr>"

definition sample_api :: "machine_type list \<Rightarrow> unit api" where
  "sample_api mts =
     \<lparr>api_CreateServer = (\<lambda>p w. (Inl (ApiError 409 [] ''no valid host was found''), w)),
      api_GetServer = (\<lambda>i w. (Inl (ApiError 404 [] []), w)),
      api_DeleteServer = (\<lambda>i w. (Some (ApiError 404 [] []), w)),
      api_ListServers = (\<lambda>sel w. (Inr [], w)),
      api_UpdateServerLabels = (\<lambda>i l w. (None, w)),
      api_ListMachineTypes = (\<lambda>w. (Inr mts, w)),
      api_ListAvailabilityZones = (\<lambda>w. (Inr [''eu01-1''], w)),
      api_DeleteVolume = (\<lambda>i w. (None, w))\<rparr>"

definition sample_env ::
  "(unit timed, rat instance_type list timed, offering list timed, rat timed, rat, machine_type list, unit) itp_env" where
  "sample_env =
     \<lparr>env_api = sample_api [sample_type], env_quantity = rat_quantity, env_lower = id, env_oor = (\<lambda>_. 0),
      env_share = Fin 0, env_region = ''eu01'', env_key_hash = (\<lambda>_. 7), env_zone_hash = (\<lambda>zs. int (length zs)),
      env_uo_cache = timed_cache, env_type_cache = timed_cache, env_offer_cache = timed_cache,
      env_discovered = timed_cache, env_changed = (\<lambda>_ mts m. (mts \<noteq> m, mts))\<rparr>"

definition sample_state :: "(rat instance_type list timed, offering list timed, rat timed, machine_type list) itp_state" where
  "sample_state =
     \<lparr>itp_machine_types = [], itp_types = c_new timed_cache 300 60,
      itp_offers = \<lparr>off_last_seq = [], off_cache = c_new timed_cache 300 60\<rparr>,
      itp_discovered = c_new timed_cache 300 60, itp_monitor = []\<rparr>"

lemma sample_updated:
  "UpdateMachineTypes sample_env (sample_state, ()) =
     (None, sample_state\<lparr>itp_monitor := [sample_type], itp_machine_types := [(''g1.2'', sample_type)]\<rparr>, ())"
  by (simp add: UpdateMachineTypes_def sample_env_def sample_api_def sample_state_def machine_type_map_def
      sample_type_def timed_cache_def)

text \<open>
  A refresh of the catalogue is all or nothing: a failed or empty answer reports an error and
  leaves catalogue and caches alone; a good one installs exactly the machine types listed, the
  last one of a name winning, and if the change monitor saw a change, no instance type computed
  from the old catalogue survives in the cache.
\<close>

lemma UpdateMachineTypes_spec:
  assumes laws: "cache_laws (env_type_cache E)" and run: "UpdateMachineTypes E (st, w) = (err, st', w')"
  shows "w' = snd (api_ListMachineTypes (env_api E) w)
    \<and> (case fst (api_ListMachineTypes (env_api E) w) of
         Inl e \<Rightarrow> err = Some (Wrapf ''listing stackit machine types'' [] e) \<and> st' = st
       | Inr mts \<Rightarrow>
           (if mts = [] then err \<noteq> None \<and> st' = st
            else err = None
              \<and> (\<forall>name. map_of (itp_machine_types st') name = find (\<lambda>mt. mt_name mt = name) (rev mts))
              \<and> itp_discovered st' = itp_discovered st
              \<and> (fst (env_changed E ''machine-types'' mts (itp_monitor st))
                   \<longrightarrow> (\<forall>key. c_get (env_type_cache E) (itp_types st') key = None))))"
proof -
  have "map_of (fold (\<lambda>mt. map_put (mt_name mt) mt) mts m) name =
      (case find (\<lambda>mt. mt_name mt = name) (rev mts) of Some mt \<Rightarrow> Some mt | None \<Rightarrow> map_of m name)" for mts :: "machine_type list" and m name
    by (induction mts arbitrary: m) (auto simp: gomap_simps find_append split: option.splits)
  then have lookup: "map_of (machine_type_map mts) name = find (\<lambda>mt. mt_name mt = name) (rev mts)" for mts :: "machine_type list" and name
    by (simp add: machine_type_map_def split: option.splits)
  show ?thesis
    using run laws
    by (cases "api_ListMachineTypes (env_api E) w"; cases "fst (api_ListMachineTypes (env_api E) w)")
       (auto simp: UpdateMachineTypes_def Let_def split_beta lookup split: if_splits)
qed

lemma UpdateMachineTypes_spec_witness:
  "map_of (itp_machine_types (fst (snd (UpdateMachineTypes sample_env (sample_state, ()))))) ''g1.2'' = Some sample_type"
proof -
  have laws: "cache_laws (env_type_cache sample_env)" by (simp add: sample_env_def timed_cache_laws)
  have "fst (api_ListMachineTypes (env_api sample_env) ()) = Inr [sample_type]"
    by (simp add: sample_env_def sample_api_def)
  then show ?thesis
    using UpdateMachineTypes_spec [OF laws sample_updated] by (simp add: sample_updated)
qed

lemma sample_resolves: "\<exists>it. Resolve rat_quantity id (\<lambda>_. 0) (Fin 0) ''eu01'' sample_type sample_nodeclass = Some it"
  using NewInstanceType_returns [OF rat_quantity_laws, of sample_type "Fin 0" 50 "\<lambda>_. 0" empty_kubelet id
      "''eu01''" "[''eu01-1'']"]
  by (auto simp: Resolve_def sample_nodeclass_def sample_type_def kubelet_configuration_of_def
      availability_zone_ids_def boot_volume_size_gb_def machine_type_ok_def share_ok_def kubelet_ok_def
      empty_kubelet_def memory_signals_def get_or_def)

lemma itp_List_names_witness:
  "\<exists>its st'. itp_List sample_env (Some (\<lambda>_. Some (Fin 1))) (NewUnavailableOfferings timed_cache) sample_nodeclass
       (sample_state\<lparr>itp_machine_types := [(''g1.2'', sample_type)]\<rparr>) = Some (Inr its, st')
     \<and> mset (map it_name its) = {#''g1.2''#}"
proof -
  let ?st = "sample_state\<lparr>itp_machine_types := [(''g1.2'', sample_type)]\<rparr>"
  have laws: "cache_laws (env_type_cache sample_env)" by (simp add: sample_env_def timed_cache_laws)
  have inv: "catalogue_ok (itp_machine_types ?st)" "cached_names_ok sample_env ?st"
    by (simp_all add: catalogue_ok_def cached_names_ok_def sample_type_def sample_state_def sample_env_def)
  obtain it where "Resolve rat_quantity id (\<lambda>_. 0) (Fin 0) ''eu01'' sample_type sample_nodeclass = Some it"
    using sample_resolves by blast
  then have "\<exists>r st'. itp_List sample_env (Some (\<lambda>_. Some (Fin 1))) (NewUnavailableOfferings timed_cache)
      sample_nodeclass ?st = Some (r, st')"
    by (auto simp: itp_List_def sample_env_def itp_get_def sample_state_def sample_nodeclass_def
        availability_zone_ids_def Let_def split_beta)
  then obtain r st' where run: "itp_List sample_env (Some (\<lambda>_. Some (Fin 1))) (NewUnavailableOfferings timed_cache)
      sample_nodeclass ?st = Some (r, st')" by blast
  from itp_List_names [OF laws inv run] run show ?thesis
    by (cases r) (auto simp: sample_nodeclass_def availability_zone_ids_def)
qed

section \<open>Facts about observed capacity\<close>

definition node_memory :: "'q quantity_ops \<Rightarrow> 'q resource_list \<Rightarrow> 'q" where
  "node_memory Q capacity = (case map_of capacity ResourceMemory of Some q \<Rightarrow> q | None \<Rightarrow> q_zero Q)"

lemma observe_step:
  assumes laws: "cache_laws (env_discovered E)" "quantity_laws (env_quantity E)"
    and label: "map_of labels LabelInstanceTypeStable = Some name"
  shows "map_option (q_exact (env_quantity E))
      (c_get (env_discovered E) (itp_discovered (UpdateInstanceTypeCapacityFromNode E labels capacity nodeClass st))
        (discoveredCapacityCacheKey name nodeClass))
    = Some (case c_get (env_discovered E) (itp_discovered st) (discoveredCapacityCacheKey name nodeClass) of
        None \<Rightarrow> q_exact (env_quantity E) (node_memory (env_quantity E) capacity)
      | Some q \<Rightarrow> min (q_exact (env_quantity E) q) (q_exact (env_quantity E) (node_memory (env_quantity E) capacity)))"
  using laws q_cmp_pos [OF laws(2)]
  by (auto simp: UpdateInstanceTypeCapacityFromNode_def label Let_def node_memory_def min_def
      split: option.splits)

lemma Min_insert_min: "finite S \<Longrightarrow> Min (insert (min a b) S) = Min (insert a (insert b S))"
  by (cases "S = {}") (simp_all add: min.assoc)

text \<open>
  The smallest memory seen on a node of an instance type wins: after any sequence of nodes of
  that type, whatever their order, the capacity kept for it is the minimum of what they report,
  and that is the memory of the instance type when it is next computed.
\<close>

lemma observed_minimum:
  assumes laws: "cache_laws (env_discovered E)" "quantity_laws (env_quantity E)"
    and labels: "list_all (\<lambda>(labels, _). map_of labels LabelInstanceTypeStable = Some name) nodes"
    and start: "c_get (env_discovered E) (itp_discovered st) (discoveredCapacityCacheKey name nodeClass) = None"
    and ne: "nodes \<noteq> []"
    and get: "itp_get E nodeClass name
        (fold (\<lambda>(labels, capacity). UpdateInstanceTypeCapacityFromNode E labels capacity nodeClass) nodes st)
        = Some (Inr it)" "it_name it = name"
  shows "amount (env_quantity E) (it_capacity it) ResourceMemory
    = Min (set (map (\<lambda>(_, capacity). q_exact (env_quantity E) (node_memory (env_quantity E) capacity)) nodes))"
proof -
  let ?Q = "env_quantity E" and ?key = "discoveredCapacityCacheKey name nodeClass"
  let ?mem = "\<lambda>(_ :: string gomap, capacity). q_exact ?Q (node_memory ?Q capacity)"
  let ?obs = "\<lambda>(labels, capacity). UpdateInstanceTypeCapacityFromNode E labels capacity nodeClass"
  let ?kept = "\<lambda>s. map_option (q_exact ?Q) (c_get (env_discovered E) (itp_discovered s) ?key)"
  have step: "?kept (?obs n s) = Some (case ?kept s of None \<Rightarrow> ?mem n | Some a \<Rightarrow> min a (?mem n))"
    if "map_of (fst n) LabelInstanceTypeStable = Some name" for n s
    using observe_step [OF laws that, where capacity = "snd n" and st = s and nodeClass = nodeClass]
    by (cases n) (auto split: option.splits)
  have some: "?kept s = Some a \<Longrightarrow> list_all (\<lambda>(labels, _). map_of labels LabelInstanceTypeStable = Some name) ns \<Longrightarrow>
      ?kept (fold ?obs ns s) = Some (Min (insert a (set (map ?mem ns))))" for ns s a
  proof (induction ns arbitrary: s a)
    case (Cons n ns)
    then have "?kept (?obs n s) = Some (min a (?mem n))" using step [of n s] by auto
    moreover have "list_all (\<lambda>(labels, _). map_of labels LabelInstanceTypeStable = Some name) ns"
      using Cons.prems(2) by simp
    ultimately have "?kept (fold ?obs (n # ns) s) = Some (Min (insert (min a (?mem n)) (set (map ?mem ns))))"
      using Cons.IH [of "?obs n s"] by (simp only: fold_simps)
    then show ?case by (simp only: Min_insert_min finite_set list.map list.set)
  qed simp
  obtain n ns where nodes: "nodes = n # ns" using ne by (cases nodes) auto
  have "?kept (?obs n st) = Some (?mem n)" using step [of n st] labels nodes start by auto
  from some [OF this] labels nodes
  have "?kept (fold ?obs nodes st) = Some (Min (set (map ?mem nodes)))" by simp
  with get show ?thesis
    by (auto simp: itp_get_def amount_def gomap_simps split: option.splits bind_splits)
qed

lemma observed_minimum_witness:
  "\<exists>it. itp_get sample_env sample_nodeclass ''g1.2''
       (fold (\<lambda>(labels, capacity). UpdateInstanceTypeCapacityFromNode sample_env labels capacity sample_nodeclass)
          [([(LabelInstanceTypeStable, ''g1.2'')], [(''memory'', 8000)]),
           ([(LabelInstanceTypeStable, ''g1.2'')], [(''memory'', 7000)]),
           ([(LabelInstanceTypeStable, ''g1.2'')], [(''memory'', 7500)])]
          (sample_state\<lparr>itp_machine_types := [(''g1.2'', sample_type)]\<rparr>)) = Some (Inr it)
     \<and> amount rat_quantity (it_capacity it) ''memory'' = 7000"
proof -
  let ?nodes = "[([(LabelInstanceTypeStable, ''g1.2'')], [(''memory'', 8000)]),
           ([(LabelInstanceTypeStable, ''g1.2'')], [(''memory'', 7000)]),
           ([(LabelInstanceTypeStable, ''g1.2'')], [(''memory'', 7500 :: rat)])]"
  let ?st = "sample_state\<lparr>itp_machine_types := [(''g1.2'', sample_type)]\<rparr>"
  let ?obs = "\<lambda>(labels, capacity). UpdateInstanceTypeCapacityFromNode sample_env labels capacity sample_nodeclass"
  have laws: "cache_laws (env_discovered sample_env)" "quantity_laws (env_quantity sample_env)"
    by (simp_all add: sample_env_def timed_cache_laws rat_quantity_laws)
  have cat: "itp_machine_types (fold ?obs ns s) = itp_machine_types s" for ns s
    by (induction ns arbitrary: s) (auto simp: UpdateInstanceTypeCapacityFromNode_def Let_def split: option.splits)
  obtain it0 where r: "Resolve rat_quantity id (\<lambda>_. 0) (Fin 0) ''eu01'' sample_type sample_nodeclass = Some it0"
    using NewInstanceType_returns [OF rat_quantity_laws, of sample_type "Fin 0" 50 "\<lambda>_. 0" empty_kubelet id
        "''eu01''" "[''eu01-1'']"]
    by (auto simp: Resolve_def sample_nodeclass_def sample_type_def kubelet_configuration_of_def
        availability_zone_ids_def boot_volume_size_gb_def machine_type_ok_def share_ok_def kubelet_ok_def
        empty_kubelet_def memory_signals_def get_or_def)
  then obtain it where it: "itp_get sample_env sample_nodeclass ''g1.2'' (fold ?obs ?nodes ?st) = Some (Inr it)"
    unfolding itp_get_def cat by (auto simp: sample_env_def)
  moreover have "catalogue_ok (itp_machine_types (fold ?obs ?nodes ?st))"
    unfolding cat by (simp add: catalogue_ok_def sample_type_def)
  then have "it_name it = ''g1.2''" using it by (rule itp_get_name)
  moreover have "c_get (env_discovered sample_env) (itp_discovered ?st) k = None" for k
    by (simp add: sample_env_def sample_state_def)
  ultimately have "amount (env_quantity sample_env) (it_capacity it) ResourceMemory
      = Min (set (map (\<lambda>(_, capacity). q_exact (env_quantity sample_env) (node_memory (env_quantity sample_env) capacity)) ?nodes))"
    by (intro observed_minimum [OF laws]) simp_all
  then have "amount rat_quantity (it_capacity it) ''memory'' = 7000"
    by (simp add: sample_env_def node_memory_def ResourceMemory_def) (simp add: rat_quantity_def)
  with it show ?thesis by blast
qed

text \<open>
  The prices follow the catalogue: from any state whose catalogue is well formed, a price
  refresh fails exactly when the machine types cannot be supplied, and otherwise prices every
  machine type that was supplied, at its override or the model's price.
\<close>

lemma prices_of_catalogue:
  assumes "itp_inv s"
  shows "(fst (UpdatePrices overrides (MachineTypeSpecs E) (prices, s)) \<noteq> None \<longleftrightarrow> \<not> is_ok (fst (MachineTypeSpecs E s)))
    \<and> itp_inv (snd (snd (UpdatePrices overrides (MachineTypeSpecs E) (prices, s))))
    \<and> (\<forall>xs x. fst (MachineTypeSpecs E s) = Inr xs \<and> x \<in> set xs \<longrightarrow>
         Price (fst (snd (UpdatePrices overrides (MachineTypeSpecs E) (prices, s)))) (ms_name x)
         = Some (case map_of overrides (ms_name x) of Some p \<Rightarrow> p | None \<Rightarrow> ModelPrice x))"
  using lister.update_error [OF assms] lister.update_keeps [OF assms] lister.update_prices_listed [OF assms]
  by blast

lemma prices_of_catalogue_witness:
  "Price (fst (snd (UpdatePrices [(''g1.2'', Fin 3)] (MachineTypeSpecs sample_env) ([], (sample_state, ()))))) ''g1.2''
   = Some (Fin 3)"
proof -
  have "itp_inv (sample_state, ())" by (simp add: itp_inv_def catalogue_ok_def sample_state_def)
  moreover have "fst (MachineTypeSpecs sample_env (sample_state, ())) = Inr [spec_of sample_type]"
  proof -
    have "itp_machine_types sample_state = []" by (simp add: sample_state_def)
    then show ?thesis by (simp add: MachineTypeSpecs_def sample_updated)
  qed
  ultimately show ?thesis
    using prices_of_catalogue [of "(sample_state, ())" "[(''g1.2'', Fin 3)]" sample_env "[]"]
    by (simp add: spec_of_def sample_type_def)
qed

end
