(* ===== verification/Instance.thy ===== *)
theory Instance
  imports InstanceTypes Cache
begin

text \<open>
  \<open>pkg/providers/instance\<close>: the provider's view of a server, the choice of what to launch, and
  the operations on servers with the instance cache and the record of failed launches.

  The scheduling operations of karpenter are third-party code: the record \<open>'q sched_ops\<close>, with
  \<open>sched_laws\<close> for what the code relies on. Log lines are left out.
\<close>

section \<open>Instances (types.go)\<close>

definition StatusActive :: string where
  "StatusActive = ''ACTIVE''"

definition StatusCreating :: string where
  "StatusCreating = ''CREATING''"

definition StatusDeleting :: string where
  "StatusDeleting = ''DELETING''"

definition StatusDeleted :: string where
  "StatusDeleted = ''DELETED''"

definition StatusError :: string where
  "StatusError = ''ERROR''"

record server_instance =
  inst_id :: string
  inst_name :: string
  inst_availability_zone :: string
  inst_machine_type :: string
  inst_status :: string
  inst_created_at :: int
  inst_boot_volume_id :: string
  inst_labels :: "string gomap"

definition NewInstance :: "server \<Rightarrow> server_instance" where
  "NewInstance server =
     \<lparr>inst_id = get_or [] (srv_id server),
      inst_name = srv_name server,
      inst_availability_zone = get_or [] (srv_availability_zone server),
      inst_machine_type = srv_machine_type server,
      inst_status = get_or [] (srv_status server),
      inst_created_at = get_or 0 (srv_created_at server),
      inst_boot_volume_id =
        (case srv_boot_volume server of None \<Rightarrow> [] | Some bootVolume \<Rightarrow> get_or [] (sbv_id bootVolume)),
      inst_labels = LabelsFromAPI (get_or [] (srv_labels server))\<rparr>"

definition inst_ProviderID :: "server_instance \<Rightarrow> string" where
  "inst_ProviderID i = ProviderID (inst_id i)"

definition inst_Zone :: "server_instance \<Rightarrow> string" where
  "inst_Zone i = SanitizeZone (inst_availability_zone i)"

definition Terminating :: "server_instance \<Rightarrow> bool" where
  "Terminating i = (inst_status i = StatusDeleting \<or> inst_status i = StatusDeleted)"

section \<open>Scheduling\<close>

text \<open>
  \<open>sc_compatible\<close> is \<open>Requirements.Compatible(reqs, AllowUndefinedWellKnownLabels)\<close> with a nil
  error, \<open>sc_available\<close>, \<open>sc_offerings\<close> and \<open>sc_cheapest\<close> are the methods of \<open>Offerings\<close>,
  \<open>sc_any\<close> is \<open>Requirements.Get(key).Any()\<close>, \<open>sc_allocatable\<close> is \<open>InstanceType.Allocatable\<close>.
  A NodeClaim's requirements are passed as they are.
\<close>

record 'q sched_ops =
  sc_compatible :: "requirements \<Rightarrow> node_requirement list \<Rightarrow> bool"
  sc_available :: "offering list \<Rightarrow> offering list"
  sc_offerings :: "offering list \<Rightarrow> node_requirement list \<Rightarrow> offering list"
  sc_cheapest :: "offering list \<Rightarrow> offering option"
  sc_any :: "requirements \<Rightarrow> string \<Rightarrow> string"
  sc_allocatable :: "'q instance_type \<Rightarrow> 'q resource_list"

text \<open>
  What they document: the available offerings are those marked so, the compatible ones are
  among the given, the cheapest is one of them that no other undercuts, and a requirement with
  one value has that value.
\<close>

definition slaw_available :: "'q sched_ops \<Rightarrow> bool" where
  "slaw_available S \<longleftrightarrow> (\<forall>os. sc_available S os = filter of_available os)"

definition slaw_offerings :: "'q sched_ops \<Rightarrow> bool" where
  "slaw_offerings S \<longleftrightarrow> (\<forall>os reqs. set (sc_offerings S os reqs) \<subseteq> set os)"

definition slaw_cheapest :: "'q sched_ops \<Rightarrow> bool" where
  "slaw_cheapest S \<longleftrightarrow> (\<forall>os. case sc_cheapest S os of
       None \<Rightarrow> os = []
     | Some x \<Rightarrow> x \<in> set os \<and> (\<forall>y \<in> set os. \<not> of_price y < of_price x))"

definition slaw_any :: "'q sched_ops \<Rightarrow> bool" where
  "slaw_any S \<longleftrightarrow> (\<forall>reqs k v. map_of reqs k = Some [v] \<longrightarrow> sc_any S reqs k = v)"

definition sched_laws :: "'q sched_ops \<Rightarrow> bool" where
  "sched_laws S \<longleftrightarrow> slaw_available S \<and> slaw_offerings S \<and> slaw_cheapest S \<and> slaw_any S"

definition resourcesFit :: "'q quantity_ops \<Rightarrow> 'q sched_ops \<Rightarrow> 'q instance_type \<Rightarrow> 'q nodeclaim \<Rightarrow> bool" where
  "resourcesFit Q S it nodeClaim =
     (let allocatable = sc_allocatable S it in
      list_all (\<lambda>(name, quantity). case map_of allocatable name of
          None \<Rightarrow> False
        | Some available \<Rightarrow> \<not> q_cmp Q available quantity < 0) (claim_requests nodeClaim))"

text \<open>The loop of \<open>cheapestOffering\<close>; \<open>best\<close> is the best type and offering so far.\<close>

fun cheapest_loop ::
  "'q quantity_ops \<Rightarrow> 'q sched_ops \<Rightarrow> 'q nodeclaim \<Rightarrow> 'q instance_type list
   \<Rightarrow> ('q instance_type \<times> offering) option \<Rightarrow> ('q instance_type \<times> offering) option" where
  "cheapest_loop Q S nodeClaim [] best = best"
| "cheapest_loop Q S nodeClaim (it # its) best =
     (let reqs = claim_requirements nodeClaim in
      if \<not> sc_compatible S (it_requirements it) reqs then cheapest_loop Q S nodeClaim its best
      else if \<not> resourcesFit Q S it nodeClaim then cheapest_loop Q S nodeClaim its best
      else case sc_cheapest S (sc_offerings S (sc_available S (it_offerings it)) reqs) of
          None \<Rightarrow> cheapest_loop Q S nodeClaim its best
        | Some offering \<Rightarrow>
            (case best of
               None \<Rightarrow> cheapest_loop Q S nodeClaim its (Some (it, offering))
             | Some (bestType, bestOffering) \<Rightarrow>
                 if of_price offering < of_price bestOffering
                 then cheapest_loop Q S nodeClaim its (Some (it, offering))
                 else cheapest_loop Q S nodeClaim its best))"

definition cheapestOffering ::
  "'q quantity_ops \<Rightarrow> 'q sched_ops \<Rightarrow> 'q instance_type list \<Rightarrow> 'q nodeclaim
   \<Rightarrow> ('q instance_type \<times> string) result" where
  "cheapestOffering Q S instanceTypes nodeClaim =
     (case cheapest_loop Q S nodeClaim instanceTypes None of
        None \<Rightarrow> Inl (InsufficientCapacityError (Errorf ''no available stackit offering satisfies the nodeclaim'' []))
      | Some (bestType, bestOffering) \<Rightarrow>
          Inr (bestType, sc_any S (of_requirements bestOffering) LabelTopologyZone))"

section \<open>The launch request\<close>

definition networking :: "nodeclass \<Rightarrow> networking_payload result" where
  "networking nodeClass =
     (let spec = spec_networking (nc_spec nodeClass);
          hasNetwork = (case net_network_id spec of None \<Rightarrow> False | Some n \<Rightarrow> n \<noteq> []);
          hasNICs = length (net_nic_ids spec) > 0
      in if hasNetwork \<and> hasNICs
         then Inl (Errorf ''networking must set exactly one of networkID or nicIDs, not both'' [])
         else if hasNetwork then Inr (NetworkId (net_network_id spec))
         else if hasNICs then Inr (NicIds (net_nic_ids spec))
         else Inl (Errorf ''networking must set one of networkID or nicIDs'' []))"

definition maxServerNameLength :: nat where
  "maxServerNameLength = 63"

definition serverName :: "nodeclass \<Rightarrow> 'q nodeclaim \<Rightarrow> string result" where
  "serverName nodeClass nodeClaim =
     (let name = claim_name nodeClaim;
          pre = get_or [] (spec_server_name_prefix (nc_spec nodeClass));
          name = (if pre \<noteq> [] then pre @ ''-'' @ claim_name nodeClaim else name)
      in if length name > maxServerNameLength
         then Inl (Errorf ''server name %q is %d characters, exceeding STACKIT's limit of %d; shorten spec.serverNamePrefix or the NodePool name''
                [name, show_int (int (length name)), show_int (int maxServerNameLength)])
         else Inr name)"

definition createPayload ::
  "nodeclass \<Rightarrow> 'q nodeclaim \<Rightarrow> 'q instance_type \<Rightarrow> string \<Rightarrow> string gomap option \<Rightarrow> create_payload result" where
  "createPayload nodeClass nodeClaim instanceType zone labels =
     (let spec = nc_spec nodeClass; boot = spec_boot_volume spec in
      case networking nodeClass of
        Inl err \<Rightarrow> Inl err
      | Inr net \<Rightarrow>
          (case serverName nodeClass nodeClaim of
             Inl err \<Rightarrow> Inl err
           | Inr name \<Rightarrow>
               Inr \<lparr>cp_name = name, cp_machine_type = it_name instanceType, cp_availability_zone = Some zone,
                    cp_labels = LabelsToAPI labels, cp_networking = net,
                    cp_boot_volume =
                      \<lparr>bvp_size = bv_size boot,
                       bvp_delete_on_termination = delete_boot_volume_on_termination nodeClass,
                       bvp_performance_class = bv_performance_class boot,
                       bvp_source_id = bvs_id (bv_source boot),
                       bvp_source_type = boot_volume_source_type nodeClass\<rparr>,
                    cp_user_data = spec_user_data spec, cp_keypair_name = spec_keypair_name spec,
                    cp_affinity_group = spec_affinity_group spec,
                    cp_security_groups = spec_security_groups spec,
                    cp_service_account_mails = spec_service_account_mails spec\<rparr>))"

section \<open>The provider\<close>

record ('c, 'ci, 'q, 'w) ip_env =
  ip_clusterName :: string
  ip_client :: "'w api"
  ip_quantity :: "'q quantity_ops"
  ip_sched :: "'q sched_ops"
  ip_lower :: "string \<Rightarrow> string"
  ip_uo_ops :: "('c, unit) cache_ops"
  ip_cache_ops :: "('ci, server_instance) cache_ops"

record ('c, 'ci, 'w) ip_state =
  ips_uo :: "'c unavailable_offerings"
  ips_cache :: 'ci
  ips_world :: 'w

definition recordLaunchFailure ::
  "('c, 'ci, 'q, 'w) ip_env \<Rightarrow> go_error \<Rightarrow> string \<Rightarrow> string \<Rightarrow> ('c, 'ci, 'w) ip_state \<Rightarrow> ('c, 'ci, 'w) ip_state" where
  "recordLaunchFailure E err machineType zone st =
     (if IsUnauthorized err then st
      else if IsInsufficientCapacity (ip_lower E) err
      then st\<lparr>ips_uo := MarkUnavailable (ip_uo_ops E) machineType zone (ips_uo st)\<rparr>
      else if IsRetryable err then st\<lparr>ips_uo := MarkZoneUnavailable (ip_uo_ops E) zone (ips_uo st)\<rparr>
      else st)"

definition cache_put ::
  "('c, 'ci, 'q, 'w) ip_env \<Rightarrow> string \<Rightarrow> server_instance \<Rightarrow> ('c, 'ci, 'w) ip_state \<Rightarrow> ('c, 'ci, 'w) ip_state" where
  "cache_put E k i st = st\<lparr>ips_cache := c_set (ip_cache_ops E) k i (ips_cache st)\<rparr>"

text \<open>The instance cache has no \<open>OnEvicted\<close> callback.\<close>

definition cache_drop ::
  "('c, 'ci, 'q, 'w) ip_env \<Rightarrow> string \<Rightarrow> ('c, 'ci, 'w) ip_state \<Rightarrow> ('c, 'ci, 'w) ip_state" where
  "cache_drop E k st = st\<lparr>ips_cache := fst (c_delete (ip_cache_ops E) k (ips_cache st))\<rparr>"

definition ip_Create ::
  "('c, 'ci, 'q, 'w) ip_env \<Rightarrow> nodeclass \<Rightarrow> 'q nodeclaim \<Rightarrow> string gomap option \<Rightarrow> 'q instance_type list
   \<Rightarrow> ('c, 'ci, 'w) ip_state \<Rightarrow> server_instance result \<times> ('c, 'ci, 'w) ip_state" where
  "ip_Create E nodeClass nodeClaim labels instanceTypes st =
     (case cheapestOffering (ip_quantity E) (ip_sched E) instanceTypes nodeClaim of
        Inl err \<Rightarrow> (Inl err, st)
      | Inr (instanceType, zone) \<Rightarrow>
          (case createPayload nodeClass nodeClaim instanceType zone labels of
             Inl err \<Rightarrow> (Inl (CreateError err ''CreateRequestFailed'' ''Failed to build STACKIT server request''), st)
           | Inr payload \<Rightarrow>
               (case api_CreateServer (ip_client E) payload (ips_world st) of
                  (Inl err, w) \<Rightarrow>
                    (Inl (CreateError (Wrapf ''creating server'' [] err) ''ServerCreationFailed''
                            ''Failed to create STACKIT server: %s''),
                     recordLaunchFailure E err (it_name instanceType) zone (st\<lparr>ips_world := w\<rparr>))
                | (Inr server, w) \<Rightarrow>
                    let i = NewInstance server
                    in (Inr i, cache_put E (inst_id i) i (st\<lparr>ips_world := w\<rparr>)))))"

definition ip_Get ::
  "('c, 'ci, 'q, 'w) ip_env \<Rightarrow> bool \<Rightarrow> string \<Rightarrow> ('c, 'ci, 'w) ip_state
   \<Rightarrow> server_instance result \<times> ('c, 'ci, 'w) ip_state" where
  "ip_Get E skipCache sid st =
     (case (if skipCache then None else c_get (ip_cache_ops E) (ips_cache st) sid) of
        Some cached \<Rightarrow> (Inr cached, st)
      | None \<Rightarrow>
          (case api_GetServer (ip_client E) sid (ips_world st) of
             (Inl err, w) \<Rightarrow>
               if IsNotFound err
               then (Inl (NodeClaimNotFoundError err), cache_drop E sid (st\<lparr>ips_world := w\<rparr>))
               else (Inl (Wrapf ''getting server %q'' [sid] err), st\<lparr>ips_world := w\<rparr>)
           | (Inr server, w) \<Rightarrow>
               let i = NewInstance server in (Inr i, cache_put E sid i (st\<lparr>ips_world := w\<rparr>))))"

fun list_loop ::
  "('c, 'ci, 'q, 'w) ip_env \<Rightarrow> server list \<Rightarrow> ('c, 'ci, 'w) ip_state \<Rightarrow> server_instance list \<times> ('c, 'ci, 'w) ip_state" where
  "list_loop E [] st = ([], st)"
| "list_loop E (server # servers) st =
     (let i = NewInstance server;
          (is, st') = list_loop E servers (cache_put E (inst_id i) i st)
      in (i # is, st'))"

definition ip_List ::
  "('c, 'ci, 'q, 'w) ip_env \<Rightarrow> ('c, 'ci, 'w) ip_state \<Rightarrow> server_instance list result \<times> ('c, 'ci, 'w) ip_state" where
  "ip_List E st =
     (case api_ListServers (ip_client E) (LabelSelector [(LabelKeyManagedBy, ip_clusterName E)]) (ips_world st) of
        (Inl err, w) \<Rightarrow> (Inl (Wrapf ''listing servers'' [] err), st\<lparr>ips_world := w\<rparr>)
      | (Inr servers, w) \<Rightarrow> (let (is, st') = list_loop E servers (st\<lparr>ips_world := w\<rparr>) in (Inr is, st')))"

definition ip_Delete ::
  "('c, 'ci, 'q, 'w) ip_env \<Rightarrow> string \<Rightarrow> ('c, 'ci, 'w) ip_state \<Rightarrow> go_error option \<times> ('c, 'ci, 'w) ip_state" where
  "ip_Delete E sid st =
     (case ip_Get E True sid st of
        (Inl err, st1) \<Rightarrow> (Some err, st1)
      | (Inr i, st1) \<Rightarrow>
          if Terminating i
          then (Some (Errorf ''server %q is %s, deletion will be retried'' [sid, inst_status i]), st1)
          else (case api_DeleteServer (ip_client E) sid (ips_world st1) of
                  (Some err, w) \<Rightarrow>
                    (let st2 = st1\<lparr>ips_world := w\<rparr> in
                     if IsNotFound err then (Some (NodeClaimNotFoundError err), cache_drop E sid st2)
                     else if IsConflict err
                     then (Some (Wrapf ''server %q is busy, deletion will be retried'' [sid] err), st2)
                     else (Some (Wrapf ''deleting server %q'' [sid] err), st2))
                | (None, w) \<Rightarrow>
                    (Some (Errorf ''server %q deletion requested, waiting for it to disappear'' [sid]),
                     cache_drop E sid (st1\<lparr>ips_world := w\<rparr>))))"

definition ip_UpdateLabels ::
  "('c, 'ci, 'q, 'w) ip_env \<Rightarrow> string \<Rightarrow> string gomap option \<Rightarrow> ('c, 'ci, 'w) ip_state
   \<Rightarrow> go_error option \<times> ('c, 'ci, 'w) ip_state" where
  "ip_UpdateLabels E sid labels st =
     (case api_UpdateServerLabels (ip_client E) sid labels (ips_world st) of
        (Some err, w) \<Rightarrow>
          if IsNotFound err
          then (Some (NodeClaimNotFoundError (Wrapf ''updating server labels'' [] err)), st\<lparr>ips_world := w\<rparr>)
          else (Some (Wrapf ''updating labels on server %q'' [sid] err), st\<lparr>ips_world := w\<rparr>)
      | (None, w) \<Rightarrow> (None, cache_drop E sid (st\<lparr>ips_world := w\<rparr>)))"

section \<open>An instance of the scheduling laws\<close>

text \<open>Every NodeClaim compatible, the least price found by recursion; for the concrete inputs.\<close>

fun least_offering :: "offering list \<Rightarrow> offering option" where
  "least_offering [] = None"
| "least_offering (x # xs) =
     (case least_offering xs of
        None \<Rightarrow> Some x
      | Some y \<Rightarrow> if of_price y = NaN \<or> of_price y < of_price x then Some y else Some x)"

definition simple_sched :: "'q sched_ops" where
  "simple_sched =
     \<lparr>sc_compatible = (\<lambda>_ _. True), sc_available = filter of_available, sc_offerings = (\<lambda>os _. os),
      sc_cheapest = least_offering,
      sc_any = (\<lambda>reqs k. case map_of reqs k of Some (v # _) \<Rightarrow> v | _ \<Rightarrow> []),
      sc_allocatable = it_capacity\<rparr>"

lemma not_less_f64_trans: "b \<noteq> NaN \<Longrightarrow> \<not> c < b \<Longrightarrow> \<not> b < a \<Longrightarrow> \<not> (c :: f64) < a"
  by (cases a; cases b; cases c) (auto simp: less_f64_def)

lemma less_f64_asym: "(a :: f64) < b \<Longrightarrow> \<not> b < a"
  by (simp add: less_f64_def)

lemma least_offering_spec:
  "case least_offering os of
     None \<Rightarrow> os = [] | Some x \<Rightarrow> x \<in> set os \<and> (\<forall>y \<in> set os. \<not> of_price y < of_price x)"
proof (induction os)
  case (Cons x xs)
  show ?case
  proof (cases "least_offering xs")
    case (Some y)
    with Cons have y: "y \<in> set xs" "\<And>z. z \<in> set xs \<Longrightarrow> \<not> of_price z < of_price y" by auto
    show ?thesis
    proof (cases "of_price y = NaN \<or> of_price y < of_price x")
      case True
      then have "\<not> of_price x < of_price y" using less_f64_asym by (metis le_NaN(3))
      with True Some y show ?thesis by simp
    next
      case False
      then have "\<not> of_price z < of_price x" if "z \<in> set xs" for z
        using not_less_f64_trans y(2) [OF that] by blast
      moreover have "\<not> of_price x < of_price x" by (simp add: less_f64_def)
      ultimately show ?thesis using False Some by simp
    qed
  next
    case None
    with Cons have "xs = []" by simp
    with None show ?thesis by (simp add: less_f64_def)
  qed
qed simp

lemma simple_sched_laws: "sched_laws simple_sched"
  using least_offering_spec
  by (auto simp: sched_laws_def slaw_available_def slaw_offerings_def slaw_cheapest_def slaw_any_def simple_sched_def)

section \<open>Facts about the choice\<close>

text \<open>What may be launched: the pairs the loop looks at, for one instance type and for a list.\<close>

definition candidates_of ::
  "'q quantity_ops \<Rightarrow> 'q sched_ops \<Rightarrow> 'q nodeclaim \<Rightarrow> 'q instance_type \<Rightarrow> ('q instance_type \<times> offering) set" where
  "candidates_of Q S nodeClaim it =
     (if sc_compatible S (it_requirements it) (claim_requirements nodeClaim) \<and> resourcesFit Q S it nodeClaim
      then Pair it ` set (sc_offerings S (sc_available S (it_offerings it)) (claim_requirements nodeClaim))
      else {})"

definition candidates ::
  "'q quantity_ops \<Rightarrow> 'q sched_ops \<Rightarrow> 'q nodeclaim \<Rightarrow> 'q instance_type list \<Rightarrow> ('q instance_type \<times> offering) set" where
  "candidates Q S nodeClaim its = (\<Union>it \<in> set its. candidates_of Q S nodeClaim it)"

lemma candidates_available:
  "sched_laws S \<Longrightarrow> (it, x) \<in> candidates Q S nodeClaim its \<Longrightarrow> it \<in> set its \<and> x \<in> set (it_offerings it) \<and> of_available x"
  by (fastforce simp: sched_laws_def slaw_available_def slaw_offerings_def candidates_def candidates_of_def
      split: if_splits)

text \<open>A least element of a set of priced pairs, or \<open>None\<close> for the empty set.\<close>

fun least_in :: "('a \<times> offering) set \<Rightarrow> ('a \<times> offering) option \<Rightarrow> bool" where
  "least_in A None \<longleftrightarrow> A = {}"
| "least_in A (Some b) \<longleftrightarrow> b \<in> A \<and> (\<forall>a \<in> A. \<not> of_price (snd a) < of_price (snd b))"

fun better :: "('a \<times> offering) option \<Rightarrow> ('a \<times> offering) option \<Rightarrow> ('a \<times> offering) option" where
  "better None c = c"
| "better b None = b"
| "better (Some b) (Some c) = (if of_price (snd c) < of_price (snd b) then Some c else Some b)"

definition pick ::
  "'q quantity_ops \<Rightarrow> 'q sched_ops \<Rightarrow> 'q nodeclaim \<Rightarrow> 'q instance_type \<Rightarrow> ('q instance_type \<times> offering) option" where
  "pick Q S nodeClaim it =
     (if sc_compatible S (it_requirements it) (claim_requirements nodeClaim) \<and> resourcesFit Q S it nodeClaim
      then map_option (Pair it) (sc_cheapest S (sc_offerings S (sc_available S (it_offerings it)) (claim_requirements nodeClaim)))
      else None)"

lemma cheapest_loop_fold:
  "cheapest_loop Q S nodeClaim its best = fold (\<lambda>it b. better b (pick Q S nodeClaim it)) its best"
proof (induction its arbitrary: best)
  case (Cons it its)
  show ?case
    by (cases best; cases "sc_cheapest S (sc_offerings S (sc_available S (it_offerings it)) (claim_requirements nodeClaim))")
       (auto simp: Cons.IH pick_def Let_def)
qed simp

lemma pick_least: "sched_laws S \<Longrightarrow> least_in (candidates_of Q S nodeClaim it) (pick Q S nodeClaim it)"
proof -
  assume laws: "sched_laws S"
  let ?os = "sc_offerings S (sc_available S (it_offerings it)) (claim_requirements nodeClaim)"
  have "case sc_cheapest S ?os of None \<Rightarrow> ?os = [] | Some x \<Rightarrow> x \<in> set ?os \<and> (\<forall>y \<in> set ?os. \<not> of_price y < of_price x)"
    using laws unfolding sched_laws_def slaw_cheapest_def by blast
  then show ?thesis
    by (cases "sc_cheapest S ?os") (auto simp: pick_def candidates_of_def)
qed

lemma better_least:
  assumes "least_in A b" "least_in B c" "\<And>a. a \<in> A \<union> B \<Longrightarrow> of_price (snd a) \<noteq> NaN"
  shows "least_in (A \<union> B) (better b c)"
proof (cases b; cases c)
  fix x y assume bc: "b = Some x" "c = Some y"
  with assms have x: "x \<in> A" "\<And>a. a \<in> A \<Longrightarrow> \<not> of_price (snd a) < of_price (snd x)" "of_price (snd x) \<noteq> NaN"
    and y: "y \<in> B" "\<And>a. a \<in> B \<Longrightarrow> \<not> of_price (snd a) < of_price (snd y)" "of_price (snd y) \<noteq> NaN"
    by auto
  show ?thesis
  proof (cases "of_price (snd y) < of_price (snd x)")
    case True
    then have "\<not> of_price (snd a) < of_price (snd y)" if "a \<in> A" for a
      using not_less_f64_trans [OF x(3) x(2) [OF that] less_f64_asym] by blast
    with True bc y show ?thesis by auto
  next
    case False
    then have "\<not> of_price (snd a) < of_price (snd x)" if "a \<in> B" for a
      using not_less_f64_trans [OF y(3) y(2) [OF that]] by blast
    with False bc x show ?thesis by auto
  qed
qed (use assms in auto)

lemma fold_least:
  assumes "sched_laws S"
  shows "least_in A best \<Longrightarrow> (\<And>a. a \<in> A \<union> candidates Q S nodeClaim its \<Longrightarrow> of_price (snd a) \<noteq> NaN) \<Longrightarrow>
    least_in (A \<union> candidates Q S nodeClaim its) (fold (\<lambda>it b. better b (pick Q S nodeClaim it)) its best)"
proof (induction its arbitrary: A best)
  case (Cons it its)
  have split: "A \<union> candidates Q S nodeClaim (it # its)
      = (A \<union> candidates_of Q S nodeClaim it) \<union> candidates Q S nodeClaim its"
    by (auto simp: candidates_def)
  have "least_in (A \<union> candidates_of Q S nodeClaim it) (better best (pick Q S nodeClaim it))"
    by (rule better_least [OF Cons.prems(1) pick_least [OF assms]]) (use Cons.prems(2) split in blast)
  from Cons.IH [OF this] Cons.prems(2) show ?case unfolding split by simp
qed (simp add: candidates_def)

text \<open>
  C4 What is launched is the cheapest of everything that may be launched: an available offering
  of an instance type that is compatible with the NodeClaim and has room for it, undercut by no
  other; and the launch is refused as insufficient capacity exactly when there is none. Prices
  that are not numbers are excluded.
\<close>

theorem cheapestOffering_optimal:
  assumes laws: "sched_laws S"
    and nan: "\<forall>(it, x) \<in> candidates Q S nodeClaim its. of_price x \<noteq> NaN"
  shows "case cheapestOffering Q S its nodeClaim of
      Inl err \<Rightarrow> candidates Q S nodeClaim its = {} \<and> (\<exists>e. err = InsufficientCapacityError e)
    | Inr (it, zone) \<Rightarrow> \<exists>x. (it, x) \<in> candidates Q S nodeClaim its \<and> of_available x
        \<and> zone = sc_any S (of_requirements x) LabelTopologyZone
        \<and> (\<forall>(it', y) \<in> candidates Q S nodeClaim its. \<not> of_price y < of_price x)"
proof -
  have "of_price (snd a) \<noteq> NaN" if "a \<in> {} \<union> candidates Q S nodeClaim its" for a
    using bspec [OF nan] that by (simp add: split_beta)
  from fold_least [OF laws least_in.simps(1) [THEN iffD2, OF refl] this]
  have least: "least_in (candidates Q S nodeClaim its) (cheapest_loop Q S nodeClaim its None)"
    by (simp only: cheapest_loop_fold Un_empty_left)
  show ?thesis
  proof (cases "cheapest_loop Q S nodeClaim its None")
    case None
    with least show ?thesis by (simp add: cheapestOffering_def)
  next
    case (Some b)
    obtain it x where b: "b = (it, x)" by force
    with least Some have x: "(it, x) \<in> candidates Q S nodeClaim its"
        "\<forall>a \<in> candidates Q S nodeClaim its. \<not> of_price (snd a) < of_price x"
      by simp_all
    from candidates_available [OF laws x(1)] x show ?thesis
      unfolding cheapestOffering_def Some b by (simp add: split_beta) blast
  qed
qed

text \<open>The result of the choice is a candidate, whatever the prices are.\<close>

lemma chosen_candidate:
  assumes "sched_laws S" "cheapestOffering Q S its nodeClaim = Inr (it, zone)"
  shows "\<exists>x. (it, x) \<in> candidates Q S nodeClaim its \<and> zone = sc_any S (of_requirements x) LabelTopologyZone"
proof -
  have pick: "pick Q S nodeClaim j = Some b \<Longrightarrow> b \<in> candidates_of Q S nodeClaim j" for j b
    using pick_least [OF assms(1), of Q nodeClaim j] by simp
  have "fold (\<lambda>it b. better b (pick Q S nodeClaim it)) js best = Some b \<Longrightarrow> best = Some b \<or> b \<in> candidates Q S nodeClaim js"
    for js best b
  proof (induction js arbitrary: best)
    case (Cons j js)
    have "better best (pick Q S nodeClaim j) = Some b \<Longrightarrow> best = Some b \<or> pick Q S nodeClaim j = Some b"
      by (cases best; cases "pick Q S nodeClaim j") (auto split: if_splits)
    with Cons.IH [of "better best (pick Q S nodeClaim j)"] Cons.prems pick [of j b] show ?case
      by (auto simp: candidates_def)
  qed simp
  from this [of its None] assms(2) show ?thesis
    by (auto simp: cheapestOffering_def cheapest_loop_fold split: option.splits)
qed

definition sample_offering :: "string \<Rightarrow> rat \<Rightarrow> bool \<Rightarrow> offering" where
  "sample_offering zone price avail =
     \<lparr>of_requirements = [(LabelTopologyZone, [zone])], of_price = Fin price, of_available = avail\<rparr>"

definition sample_it :: "string \<Rightarrow> offering list \<Rightarrow> rat instance_type" where
  "sample_it name os =
     \<lparr>it_name = name, it_requirements = [], it_offerings = os, it_capacity = [(''cpu'', 2)],
      it_overhead = \<lparr>ov_kube_reserved = [], ov_system_reserved = [], ov_eviction_threshold = []\<rparr>\<rparr>"

definition sample_claim :: "rat nodeclaim" where
  "sample_claim =
     \<lparr>claim_name = ''default-abcde'', claim_uid = ''u-1'', claim_labels = [(NodePoolLabelKey, ''default'')], claim_annotations = [],
      claim_creation_timestamp = 0, claim_deletion_timestamp = None, claim_nodeclass_ref = Some ''default'',
      claim_requirements = [], claim_requests = [(''cpu'', 1)], claim_provider_id = [],
      claim_capacity = [], claim_allocatable = [], claim_drifted = False\<rparr>"

lemmas sample_defs = sample_offering_def sample_it_def sample_claim_def

lemmas sample_choice_defs = sample_offering_def sample_it_def sample_claim_def simple_sched_def
  resourcesFit_def rat_quantity_def

theorem cheapestOffering_optimal_witness:
  "\<exists>it. cheapestOffering rat_quantity simple_sched
     [sample_it ''g1.4'' [sample_offering ''eu01-1'' 2 True],
      sample_it ''g1.2'' [sample_offering ''eu01-1'' 1 False, sample_offering ''eu01-2'' 1 True]] sample_claim
   = Inr (it, ''eu01-2'')"
proof -
  define i1 where "i1 = sample_it ''g1.4'' [sample_offering ''eu01-1'' 2 True]"
  define i2 where "i2 = sample_it ''g1.2'' [sample_offering ''eu01-1'' 1 False, sample_offering ''eu01-2'' 1 True]"
  let ?C = "candidates rat_quantity simple_sched sample_claim [i1, i2]"
  have offs: "it_offerings i1 = [sample_offering ''eu01-1'' 2 True]"
      "it_offerings i2 = [sample_offering ''eu01-1'' 1 False, sample_offering ''eu01-2'' 1 True]"
    by (simp_all add: i1_def i2_def sample_it_def)
  have sub: "x \<in> {sample_offering ''eu01-1'' 2 True, sample_offering ''eu01-2'' 1 True}"
    if "(it, x) \<in> ?C" for it x
  proof -
    from candidates_available [OF simple_sched_laws that]
    have "it = i1 \<or> it = i2" "x \<in> set (it_offerings it)" "of_available x" by simp_all
    then show ?thesis by (elim disjE) (auto simp: offs, auto simp: sample_offering_def)
  qed
  have "it_capacity i2 = [(''cpu'', 2)]" by (simp add: i2_def sample_it_def)
  then have fit: "resourcesFit rat_quantity simple_sched i2 sample_claim"
    by (simp add: resourcesFit_def simple_sched_def sample_claim_def rat_quantity_def)
  have "sample_offering ''eu01-2'' 1 True
      \<in> set (sc_offerings simple_sched (sc_available simple_sched (it_offerings i2)) (claim_requirements sample_claim))"
    by (simp add: offs simple_sched_def, simp add: sample_offering_def)
  then have "(i2, sample_offering ''eu01-2'' 1 True) \<in> candidates_of rat_quantity simple_sched sample_claim i2"
    unfolding candidates_of_def using fit by (simp add: simple_sched_def)
  then have mem: "(i2, sample_offering ''eu01-2'' 1 True) \<in> ?C"
    by (simp add: candidates_def)
  have nan: "\<forall>(it, x) \<in> ?C. of_price x \<noteq> NaN"
  proof (rule ballI, clarify)
    fix it x assume "(it, x) \<in> ?C" "of_price x = NaN"
    with sub [of it x] show False by (auto simp: sample_offering_def)
  qed
  note opt = cheapestOffering_optimal [OF simple_sched_laws nan]
  show ?thesis
  proof (cases "cheapestOffering rat_quantity simple_sched [i1, i2] sample_claim")
    case (Inl err)
    with opt mem show ?thesis by auto
  next
    case (Inr r)
    obtain it zone where r: "r = (it, zone)" by force
    from opt [unfolded Inr r] obtain x where x: "(it, x) \<in> ?C"
        "zone = sc_any (simple_sched :: rat sched_ops) (of_requirements x) LabelTopologyZone"
        "\<forall>(it', y) \<in> ?C. \<not> of_price y < of_price x"
      by (simp only: sum.case prod.case) (elim exE conjE, rule that; assumption)
    from x(3) mem have "\<not> Fin 1 < of_price x" by (auto simp: sample_offering_def)
    with sub [OF x(1)] have "x = sample_offering ''eu01-2'' 1 True"
      by (auto simp: sample_offering_def less_f64_def)
    with x(2) have "zone = ''eu01-2''" by (simp add: sample_offering_def simple_sched_def)
    with Inr r show ?thesis by (simp add: i1_def i2_def)
  qed
qed

section \<open>Failed launches\<close>

text \<open>The specification: what a failed launch takes out of rotation.\<close>

definition failure_marks :: "(string \<Rightarrow> string) \<Rightarrow> go_error \<Rightarrow> string \<Rightarrow> string \<Rightarrow> mark list" where
  "failure_marks ul err machineType zone =
     (if IsUnauthorized err then []
      else if IsInsufficientCapacity ul err then [MarkOffering machineType zone]
      else if IsRetryable err then [MarkZone zone] else [])"

lemma recordLaunchFailure_uo:
  "ips_uo (recordLaunchFailure E err machineType zone st)
   = fold (uo_apply_mark (ip_uo_ops E)) (failure_marks (ip_lower E) err machineType zone) (ips_uo st)"
  by (simp add: recordLaunchFailure_def failure_marks_def uo_apply_mark_def)

lemma recordLaunchFailure_rest [simp]:
  "ips_cache (recordLaunchFailure E err machineType zone st) = ips_cache st"
  "ips_world (recordLaunchFailure E err machineType zone st) = ips_world st"
  by (simp_all add: recordLaunchFailure_def)

lemma failure_marks_typed: "no_colon t \<Longrightarrow> list_all (mark_typed no_colon) (failure_marks ul err t zone)"
  by (simp add: failure_marks_def)

lemma ip_Create_failed:
  assumes "cheapestOffering (ip_quantity E) (ip_sched E) its nodeClaim = Inr (it, zone)"
    and "createPayload nodeClass nodeClaim it zone labels = Inr payload"
    and "api_CreateServer (ip_client E) payload (ips_world st) = (Inl err, w)"
  shows "ip_Create E nodeClass nodeClaim labels its st =
     (Inl (CreateError (Wrapf ''creating server'' [] err) ''ServerCreationFailed'' ''Failed to create STACKIT server: %s''),
      recordLaunchFailure E err (it_name it) zone (st\<lparr>ips_world := w\<rparr>))"
  using assms by (simp add: ip_Create_def)

lemma launch_marks:
  assumes "cache_laws (ip_uo_ops E)" "no_colon (it_name it)" "no_colon t"
    and "cheapestOffering (ip_quantity E) (ip_sched E) its nodeClaim = Inr (it, zone)"
    and "createPayload nodeClass nodeClaim it zone labels = Inr payload"
    and "api_CreateServer (ip_client E) payload (ips_world st) = (Inl err, w)"
  shows "let (r, st') = ip_Create E nodeClass nodeClaim labels its st in
     \<not> is_ok r \<and> ips_cache st' = ips_cache st \<and>
     (IsUnavailable (ip_uo_ops E) (ips_uo st') t z \<longleftrightarrow>
        IsUnavailable (ip_uo_ops E) (ips_uo st) t z
        \<or> z = zone \<and> \<not> IsUnauthorized err
          \<and> (if IsInsufficientCapacity (ip_lower E) err then t = it_name it else IsRetryable err))"
proof -
  have "IsUnavailable (ip_uo_ops E) (ips_uo (recordLaunchFailure E err (it_name it) zone (st\<lparr>ips_world := w\<rparr>))) t z
      \<longleftrightarrow> list_ex (\<lambda>m. mark_hits m t z) (failure_marks (ip_lower E) err (it_name it) zone)
          \<or> IsUnavailable (ip_uo_ops E) (ips_uo st) t z"
    using uo.marks_unavailable [OF assms(1) failure_marks_typed [OF assms(2)] assms(3)]
    by (simp add: recordLaunchFailure_uo)
  then show ?thesis
    by (auto simp: ip_Create_failed [OF assms(4-6)] failure_marks_def)
qed

lemma launch_unauthorized:
  assumes "cheapestOffering (ip_quantity E) (ip_sched E) its nodeClaim = Inr (it, zone)"
    and "createPayload nodeClass nodeClaim it zone labels = Inr payload"
    and "api_CreateServer (ip_client E) payload (ips_world st) = (Inl err, w)" "IsUnauthorized err"
  shows "snd (ip_Create E nodeClass nodeClaim labels its st) = st\<lparr>ips_world := w\<rparr>"
  using assms(4) by (simp add: ip_Create_failed [OF assms(1-3)] recordLaunchFailure_def)

text \<open>
  What the comment in sdk.go calls a quota failure is recognised as a lack of capacity, and is one
  of the answers that nothing is recorded for.
\<close>

lemma quota_403:
  "IsInsufficientCapacity id (ApiError 403 [] ''quota exceeded'') \<and> IsUnauthorized (ApiError 403 [] ''quota exceeded'')"
  by code_simp

text \<open>
  C23 What a launch the API refuses takes out of rotation, by the status of the answer. A 401 or a
  403 changes nothing, also when it reports an exhausted quota, which the comment in sdk.go says
  STACKIT answers with 403. Any other answer that reports a lack of capacity takes exactly the
  machine type in its zone out; any other answer that says the API itself is failing takes every
  machine type of the zone out; any other refusal takes out nothing. Nothing that was unavailable
  becomes available, and the instance cache is untouched.
\<close>

theorem launch_failure_recorded:
  assumes "cache_laws (ip_uo_ops E)" "no_colon (it_name it)" "no_colon t"
    and "cheapestOffering (ip_quantity E) (ip_sched E) its nodeClaim = Inr (it, zone)"
    and "createPayload nodeClass nodeClaim it zone labels = Inr payload"
    and "api_CreateServer (ip_client E) payload (ips_world st) = (Inl err, w)"
  shows "let (r, st') = ip_Create E nodeClass nodeClaim labels its st in
     \<not> is_ok r \<and> ips_cache st' = ips_cache st \<and>
     (if hasStatus err 401 \<or> hasStatus err 403 then ips_uo st' = ips_uo st
      else IsUnavailable (ip_uo_ops E) (ips_uo st') t z \<longleftrightarrow>
        IsUnavailable (ip_uo_ops E) (ips_uo st) t z
        \<or> z = zone
          \<and> (if IsInsufficientCapacity (ip_lower E) err then t = it_name it else IsRetryable err))"
  using launch_marks [OF assms, of z] launch_unauthorized [OF assms(4-6)]
  by (auto simp: split_beta IsUnauthorized_def split: if_splits)

text \<open>The concrete inputs of the instances below.\<close>

definition sample_launch_class :: nodeclass where
  "sample_launch_class =
     \<lparr>nc_name = ''default'', nc_generation = 1, nc_deletion_timestamp = None, nc_annotations = [], nc_finalizers = [],
      nc_spec =
        \<lparr>spec_availability_zones = [],
         spec_boot_volume = \<lparr>bv_source = \<lparr>bvs_id = ''image-1'', bvs_type = None\<rparr>, bv_size = 50,
                             bv_performance_class = None, bv_delete_on_termination = None\<rparr>,
         spec_user_data = None, spec_networking = \<lparr>net_network_id = Some ''net-1'', net_nic_ids = []\<rparr>,
         spec_security_groups = [], spec_keypair_name = None, spec_affinity_group = None,
         spec_service_account_mails = [], spec_labels = [], spec_server_name_prefix = Some ''prod'', spec_kubelet = None\<rparr>,
      nc_availability_zones = [], nc_conditions = []\<rparr>"

definition sample_its :: "rat instance_type list" where
  "sample_its = [sample_it ''g1.2'' [sample_offering ''eu01-1'' 1 True]]"

definition failing_api :: "go_error \<Rightarrow> 'w api" where
  "failing_api e =
     \<lparr>api_CreateServer = (\<lambda>_ w. (Inl e, w)), api_GetServer = (\<lambda>_ w. (Inl e, w)), api_DeleteServer = (\<lambda>_ w. (Some e, w)),
      api_ListServers = (\<lambda>_ w. (Inl e, w)), api_UpdateServerLabels = (\<lambda>_ _ w. (Some e, w)),
      api_ListMachineTypes = (\<lambda>w. (Inl e, w)), api_ListAvailabilityZones = (\<lambda>w. (Inl e, w)),
      api_DeleteVolume = (\<lambda>_ w. (Some e, w))\<rparr>"

definition sample_ip_env :: "'w api \<Rightarrow> (unit timed, server_instance timed, rat, 'w) ip_env" where
  "sample_ip_env A =
     \<lparr>ip_clusterName = ''prod'', ip_client = A, ip_quantity = rat_quantity, ip_sched = simple_sched, ip_lower = id,
      ip_uo_ops = timed_cache, ip_cache_ops = timed_cache\<rparr>"

definition sample_ip_state :: "'w \<Rightarrow> (unit timed, server_instance timed, 'w) ip_state" where
  "sample_ip_state w =
     \<lparr>ips_uo = NewUnavailableOfferings timed_cache, ips_cache = c_new timed_cache DefaultTTL DefaultCleanupInterval,
      ips_world = w\<rparr>"

lemma sample_choice:
  "cheapestOffering rat_quantity simple_sched sample_its sample_claim
   = Inr (sample_it ''g1.2'' [sample_offering ''eu01-1'' 1 True], ''eu01-1'')"
  by (simp add: sample_its_def cheapestOffering_def sample_choice_defs less_f64_def)

lemma sample_payload: "is_ok (createPayload sample_launch_class sample_claim it zone labels)"
  by (simp add: createPayload_def networking_def serverName_def sample_launch_class_def sample_claim_def
      get_or_def maxServerNameLength_def Let_def)

lemmas sample_ip_defs = sample_ip_env_def sample_ip_state_def failing_api_def

theorem launch_failure_recorded_witness:
  "let (r, st') = ip_Create (sample_ip_env (failing_api (ApiError 409 ''No valid host was found'' [])))
       sample_launch_class sample_claim None sample_its (sample_ip_state ())
   in IsUnavailable timed_cache (ips_uo st') ''g1.2'' ''eu01-1''
      \<and> \<not> IsUnavailable timed_cache (ips_uo st') ''g1.4'' ''eu01-1''"
proof -
  let ?e = "ApiError 409 ''No valid host was found'' []"
  let ?E = "sample_ip_env (failing_api ?e)"
  let ?it = "sample_it ''g1.2'' [sample_offering ''eu01-1'' 1 True]"
  obtain p where p: "createPayload sample_launch_class sample_claim ?it ''eu01-1'' None = Inr p"
    using sample_payload [of ?it "''eu01-1''" None] unfolding is_ok_iff by blast
  have choice: "cheapestOffering (ip_quantity ?E) (ip_sched ?E) sample_its sample_claim = Inr (?it, ''eu01-1'')"
    by (simp add: sample_ip_env_def sample_choice)
  have api: "api_CreateServer (ip_client ?E) p (ips_world (sample_ip_state ())) = (Inl ?e, ())"
    by (simp add: sample_ip_defs)
  have laws: "cache_laws (ip_uo_ops ?E)" by (simp add: sample_ip_env_def timed_cache_laws)
  have names: "no_colon (it_name ?it)" "no_colon ''g1.2''" "no_colon ''g1.4''" "it_name ?it = ''g1.2''"
    by (simp_all add: no_colon_def sample_it_def)
  have kind: "IsInsufficientCapacity (ip_lower ?E) ?e" "\<not> IsUnauthorized ?e"
    by (simp add: sample_ip_env_def; code_simp) code_simp
  have ops: "ip_uo_ops ?E = timed_cache" by (simp add: sample_ip_env_def)
  have new: "\<not> IsUnavailable timed_cache (ips_uo (sample_ip_state ())) t z" for t z
    by (simp add: IsUnavailable_def NewUnavailableOfferings_def timed_cache_def timed_get_def sample_ip_state_def)
  note rec = launch_failure_recorded [OF laws names(1) _ choice p api, where z = "''eu01-1''", unfolded ops]
  show ?thesis
    using rec [OF names(2)] rec [OF names(3)] kind [unfolded IsUnauthorized_def] names(4) new by (simp add: split_beta)
qed

section \<open>The launch request\<close>

lemma serverName_cases:
  "serverName nodeClass nodeClaim = Inr name \<longleftrightarrow>
     length name \<le> 63
     \<and> name = (case spec_server_name_prefix (nc_spec nodeClass) of
           None \<Rightarrow> claim_name nodeClaim
         | Some pre \<Rightarrow> if pre = [] then claim_name nodeClaim else pre @ ''-'' @ claim_name nodeClaim)"
  by (cases "spec_server_name_prefix (nc_spec nodeClass)")
     (auto simp: serverName_def get_or_def Let_def maxServerNameLength_def)

lemma createPayload_cases:
  "createPayload nodeClass nodeClaim it zone labels = Inr payload \<longleftrightarrow>
     (\<exists>net name. networking nodeClass = Inr net \<and> serverName nodeClass nodeClaim = Inr name
        \<and> payload = \<lparr>cp_name = name, cp_machine_type = it_name it, cp_availability_zone = Some zone,
             cp_labels = LabelsToAPI labels, cp_networking = net,
             cp_boot_volume =
               \<lparr>bvp_size = bv_size (spec_boot_volume (nc_spec nodeClass)),
                bvp_delete_on_termination = delete_boot_volume_on_termination nodeClass,
                bvp_performance_class = bv_performance_class (spec_boot_volume (nc_spec nodeClass)),
                bvp_source_id = bvs_id (bv_source (spec_boot_volume (nc_spec nodeClass))),
                bvp_source_type = boot_volume_source_type nodeClass\<rparr>,
             cp_user_data = spec_user_data (nc_spec nodeClass), cp_keypair_name = spec_keypair_name (nc_spec nodeClass),
             cp_affinity_group = spec_affinity_group (nc_spec nodeClass),
             cp_security_groups = spec_security_groups (nc_spec nodeClass),
             cp_service_account_mails = spec_service_account_mails (nc_spec nodeClass)\<rparr>)"
  by (auto simp: createPayload_def Let_def split: sum.splits)

text \<open>Two prefixes and two NodeClaims with one server name.\<close>

lemma names_collide:
  assumes "spec_server_name_prefix (nc_spec nodeClass) = Some ''a''" "claim_name nodeClaim = ''b-c''"
    and "spec_server_name_prefix (nc_spec nodeClass') = Some ''a-b''" "claim_name nodeClaim' = ''c''"
  shows "serverName nodeClass nodeClaim = Inr ''a-b-c'' \<and> serverName nodeClass' nodeClaim' = Inr ''a-b-c''"
  using assms by (simp add: serverName_cases)

text \<open>What the API requires of the networking of a request.\<close>

fun one_network :: "networking_spec \<Rightarrow> networking_payload \<Rightarrow> bool" where
  "one_network spec (NetworkId n) \<longleftrightarrow> n = net_network_id spec \<and> get_or [] n \<noteq> [] \<and> net_nic_ids spec = []"
| "one_network spec (NicIds ns) \<longleftrightarrow> ns = net_nic_ids spec \<and> ns \<noteq> [] \<and> get_or [] (net_network_id spec) = []"

lemma networking_one: "networking nodeClass = Inr net \<longleftrightarrow> one_network (spec_networking (nc_spec nodeClass)) net"
  by (cases net; cases "net_network_id (spec_networking (nc_spec nodeClass))")
     (auto simp: networking_def Let_def get_or_def split: option.splits)

text \<open>
  C27 A request that is built asks for what was chosen and what the NodeClass says. The name is
  the whole name of the NodeClaim, behind the prefix and a hyphen when the NodeClass has a prefix,
  and at most 63 characters long; so the servers of two NodeClaims with different names share a
  name only where the prefixes of their NodeClasses differ. Exactly one kind of networking is set; the boot volume
  dies with the server unless the NodeClass says otherwise; and reading the labels back off
  the server gives the labels that were to be stamped on it.
\<close>

theorem createPayload_faithful:
  assumes "createPayload nodeClass nodeClaim it zone labels = Inr payload"
  shows "cp_machine_type payload = it_name it \<and> cp_availability_zone payload = Some zone
     \<and> length (cp_name payload) \<le> 63
     \<and> cp_name payload = (case spec_server_name_prefix (nc_spec nodeClass) of
          None \<Rightarrow> claim_name nodeClaim
        | Some pre \<Rightarrow> if pre = [] then claim_name nodeClaim else pre @ ''-'' @ claim_name nodeClaim)
     \<and> (\<forall>nodeClass' nodeClaim' it' zone' labels' payload'.
          createPayload nodeClass' nodeClaim' it' zone' labels' = Inr payload' \<longrightarrow>
          get_or [] (spec_server_name_prefix (nc_spec nodeClass')) = get_or [] (spec_server_name_prefix (nc_spec nodeClass)) \<longrightarrow>
          (cp_name payload' = cp_name payload) = (claim_name nodeClaim' = claim_name nodeClaim))
     \<and> one_network (spec_networking (nc_spec nodeClass)) (cp_networking payload)
     \<and> (bvp_delete_on_termination (cp_boot_volume payload) \<longleftrightarrow>
          bv_delete_on_termination (spec_boot_volume (nc_spec nodeClass)) \<noteq> Some False)
     \<and> map_option LabelsFromAPI (cp_labels payload) = labels"
proof -
  have labels: "map_option LabelsFromAPI (LabelsToAPI labels) = labels"
    using LabelsFromAPI_ToAPI by (cases labels) (simp_all add: LabelsToAPI_def)
  have del: "delete_boot_volume_on_termination nodeClass \<longleftrightarrow>
      bv_delete_on_termination (spec_boot_volume (nc_spec nodeClass)) \<noteq> Some False"
    by (simp add: delete_boot_volume_on_termination_def split: option.splits)
  have same: "(name' = name) = (claim_name nodeClaim' = claim_name nodeClaim)"
    if "serverName nodeClass nodeClaim = Inr name" "serverName nodeClass' nodeClaim' = Inr name'"
      "get_or [] (spec_server_name_prefix (nc_spec nodeClass')) = get_or [] (spec_server_name_prefix (nc_spec nodeClass))"
    for name name' nodeClaim' nodeClass'
    using that by (auto simp: serverName_cases get_or_def split: option.splits if_splits)
  from assms show ?thesis
    unfolding createPayload_cases networking_one
    by (auto simp: labels del same serverName_cases [of nodeClass nodeClaim])
qed

theorem createPayload_faithful_witness:
  "\<exists>payload. createPayload sample_launch_class sample_claim (sample_it ''g1.2'' []) ''eu01-1'' (Some [(''a'', ''x'')]) = Inr payload
     \<and> bvp_delete_on_termination (cp_boot_volume payload) \<and> map_option LabelsFromAPI (cp_labels payload) = Some [(''a'', ''x'')]"
proof -
  obtain p where p: "createPayload sample_launch_class sample_claim (sample_it ''g1.2'' []) ''eu01-1'' (Some [(''a'', ''x'')]) = Inr p"
    using sample_payload [of "sample_it ''g1.2'' []" "''eu01-1''" "Some [(''a'', ''x'')]"] unfolding is_ok_iff by blast
  have "bv_delete_on_termination (spec_boot_volume (nc_spec sample_launch_class)) = None"
    by (simp add: sample_launch_class_def)
  with createPayload_faithful [OF p] p show ?thesis by auto
qed

section \<open>The teardown protocol\<close>

text \<open>
  What Karpenter sees of a deletion. An API is plain when none of its errors is one of
  Karpenter's own NotFound errors; the client of \<open>pkg/stackit\<close> is plain when the SDK is.
\<close>

definition plain_api :: "'w api \<Rightarrow> bool" where
  "plain_api A \<longleftrightarrow>
     (\<forall>sid w e w'. api_GetServer A sid w = (Inl e, w') \<longrightarrow> \<not> is_nodeclaim_not_found e)
     \<and> (\<forall>sid w e w'. api_DeleteServer A sid w = (Some e, w') \<longrightarrow> \<not> is_nodeclaim_not_found e)"

lemma plain_client:
  assumes "\<And>p r i w e w'. sdk_get_server (client_api c) p r i w = (Inl e, w') \<Longrightarrow> \<not> is_nodeclaim_not_found e"
    and "\<And>p r i w e w'. sdk_delete_server (client_api c) p r i w = (Some e, w') \<Longrightarrow> \<not> is_nodeclaim_not_found e"
  shows "plain_api (client_as_api c)"
  using assms
  by (fastforce simp: plain_api_def client_as_api_def GetServer_def DeleteServer_def wrap_result_def wrap_error_def
      split: prod.splits sum.splits option.splits)

text \<open>The four ways a deletion can go, from the two answers of the API.\<close>

datatype teardown = Gone | Requested | AlreadyTerminating | DeleteFailed go_error | LookupFailed go_error

definition teardown_of :: "'w api \<Rightarrow> string \<Rightarrow> 'w \<Rightarrow> teardown" where
  "teardown_of A sid w =
     (case api_GetServer A sid w of
        (Inl e, w') \<Rightarrow> if IsNotFound e then Gone else LookupFailed e
      | (Inr server, w') \<Rightarrow>
          if get_or [] (srv_status server) \<in> {''DELETING'', ''DELETED''} then AlreadyTerminating
          else (case api_DeleteServer A sid w' of
                  (Some e, w'') \<Rightarrow> if IsNotFound e then Gone else DeleteFailed e
                | (None, w'') \<Rightarrow> Requested))"

lemma Terminating_iff: "Terminating (NewInstance server) \<longleftrightarrow> get_or [] (srv_status server) \<in> {''DELETING'', ''DELETED''}"
  by (auto simp: Terminating_def NewInstance_def StatusDeleting_def StatusDeleted_def)

lemma ip_Get_skip:
  "ip_Get E True sid st =
     (case api_GetServer (ip_client E) sid (ips_world st) of
        (Inl err, w) \<Rightarrow>
          if IsNotFound err then (Inl (NodeClaimNotFoundError err), cache_drop E sid (st\<lparr>ips_world := w\<rparr>))
          else (Inl (Wrapf ''getting server %q'' [sid] err), st\<lparr>ips_world := w\<rparr>)
      | (Inr server, w) \<Rightarrow> (Inr (NewInstance server), cache_put E sid (NewInstance server) (st\<lparr>ips_world := w\<rparr>)))"
  by (auto simp: ip_Get_def Let_def split: prod.splits sum.splits)

lemma plain_get: "plain_api A \<Longrightarrow> api_GetServer A sid w = (Inl e, w') \<Longrightarrow> \<not> is_nodeclaim_not_found e"
  unfolding plain_api_def by blast

lemma plain_delete: "plain_api A \<Longrightarrow> api_DeleteServer A sid w = (Some e, w') \<Longrightarrow> \<not> is_nodeclaim_not_found e"
  unfolding plain_api_def by blast

lemma cache_put_drop_world [simp]:
  "ips_world (cache_put E k i st) = ips_world st" "ips_world (cache_drop E k st) = ips_world st"
  "ips_uo (cache_put E k i st) = ips_uo st" "ips_uo (cache_drop E k st) = ips_uo st"
  by (simp_all add: cache_put_def cache_drop_def)

lemma cache_drop_get:
  "cache_laws (ip_cache_ops E) \<Longrightarrow> c_get (ip_cache_ops E) (ips_cache (cache_drop E k st)) k' =
     (if k' = k then None else c_get (ip_cache_ops E) (ips_cache st) k')"
  by (simp add: cache_drop_def)

lemma cache_put_get:
  "cache_laws (ip_cache_ops E) \<Longrightarrow> c_get (ip_cache_ops E) (ips_cache (cache_put E k i st)) k' =
     (if k' = k then Some i else c_get (ip_cache_ops E) (ips_cache st) k')"
  by (simp add: cache_put_def)

lemma ip_Delete_teardown:
  assumes "plain_api (ip_client E)" "cache_laws (ip_cache_ops E)" "ip_Delete E sid st = (r, st')"
  shows "r \<noteq> None \<and> (is_nodeclaim_not_found (the r) \<longleftrightarrow> teardown_of (ip_client E) sid (ips_world st) = Gone)
     \<and> (teardown_of (ip_client E) sid (ips_world st) \<in> {Gone, Requested} \<longrightarrow>
          c_get (ip_cache_ops E) (ips_cache st') sid = None)
     \<and> (teardown_of (ip_client E) sid (ips_world st) = AlreadyTerminating \<longrightarrow>
          ips_world st' = snd (api_GetServer (ip_client E) sid (ips_world st)))
     \<and> ips_uo st' = ips_uo st"
proof (cases "api_GetServer (ip_client E) sid (ips_world st)")
  case (Pair g w)
  show ?thesis
  proof (cases g)
    case (Inl e)
    with Pair have "\<not> is_nodeclaim_not_found e" using plain_get [OF assms(1)] by blast
    with assms Pair Inl show ?thesis
      by (auto simp: ip_Delete_def ip_Get_skip teardown_of_def cache_drop_get split: if_splits)
  next
    case (Inr server)
    show ?thesis
    proof (cases "Terminating (NewInstance server)")
      case True
      with assms Pair Inr show ?thesis
        by (auto simp: ip_Delete_def ip_Get_skip teardown_of_def Terminating_iff)
    next
      case False
      obtain d w2 where d: "api_DeleteServer (ip_client E) sid w = (d, w2)" by force
      show ?thesis
      proof (cases d)
        case None
        with assms Pair Inr False d show ?thesis
          by (auto simp: ip_Delete_def ip_Get_skip teardown_of_def Terminating_iff cache_drop_get)
      next
        case (Some e)
        with d have "\<not> is_nodeclaim_not_found e" using plain_delete [OF assms(1)] by blast
        with assms Pair Inr False d Some show ?thesis
          by (auto simp: ip_Delete_def ip_Get_skip teardown_of_def Terminating_iff cache_drop_get Let_def split: if_splits)
      qed
    qed
  qed
qed

text \<open>
  C21 A deletion never reports success: it reports the NodeClaim as gone exactly when the API
  answers the lookup or the deletion with a 404, and every other way it goes is an error that
  Karpenter retries, the request having just been accepted included. A server that is already
  terminating is not deleted again, and once a deletion was accepted or the server is gone the
  instance cache holds no copy of it.
\<close>

theorem Delete_protocol:
  assumes "plain_api (ip_client E)" "cache_laws (ip_cache_ops E)" "ip_Delete E sid st = (r, st')"
  shows "r \<noteq> None
     \<and> (is_nodeclaim_not_found (the r) \<longleftrightarrow> teardown_of (ip_client E) sid (ips_world st) = Gone)
     \<and> (teardown_of (ip_client E) sid (ips_world st) = AlreadyTerminating \<longrightarrow>
          ips_world st' = snd (api_GetServer (ip_client E) sid (ips_world st)))
     \<and> (teardown_of (ip_client E) sid (ips_world st) \<in> {Gone, Requested} \<longrightarrow>
          c_get (ip_cache_ops E) (ips_cache st') sid = None)"
  using ip_Delete_teardown [OF assms] by blast

text \<open>
  Karpenter calls again until the NodeClaim is gone. \<open>tick\<close> is what happens at STACKIT between
  two calls; \<open>drains\<close> says that faults are finite in number and that a server being deleted
  disappears: each answer other than a 404 brings the server nearer to its end by \<open>rank\<close>.
\<close>

fun delete_retries ::
  "('c, 'ci, 'q, 'w) ip_env \<Rightarrow> ('w \<Rightarrow> 'w) \<Rightarrow> string \<Rightarrow> nat \<Rightarrow> ('c, 'ci, 'w) ip_state \<Rightarrow> bool" where
  "delete_retries E tick sid 0 st = False"
| "delete_retries E tick sid (Suc n) st =
     (let (r, st') = ip_Delete E sid st in
      (case r of Some e \<Rightarrow> is_nodeclaim_not_found e | None \<Rightarrow> False)
      \<or> delete_retries E tick sid n (st'\<lparr>ips_world := tick (ips_world st')\<rparr>))"

definition drains :: "'w api \<Rightarrow> ('w \<Rightarrow> 'w) \<Rightarrow> string \<Rightarrow> ('w \<Rightarrow> nat) \<Rightarrow> bool" where
  "drains A tick sid rank \<longleftrightarrow>
     (\<forall>w. case api_GetServer A sid w of
        (Inl e, w') \<Rightarrow> IsNotFound e \<or> rank (tick w') < rank w
      | (Inr server, w') \<Rightarrow>
          if get_or [] (srv_status server) \<in> {''DELETING'', ''DELETED''} then rank (tick w') < rank w
          else (case api_DeleteServer A sid w' of
                  (Some e, w'') \<Rightarrow> IsNotFound e \<or> rank (tick w'') < rank w
                | (None, w'') \<Rightarrow> rank (tick w'') < rank w))"

lemma ip_Delete_drains:
  assumes "drains (ip_client E) tick sid rank" "teardown_of (ip_client E) sid (ips_world st) \<noteq> Gone"
  shows "rank (tick (ips_world (snd (ip_Delete E sid st)))) < rank (ips_world st)"
proof -
  have rank: "case api_GetServer (ip_client E) sid (ips_world st) of
        (Inl e, w') \<Rightarrow> IsNotFound e \<or> rank (tick w') < rank (ips_world st)
      | (Inr server, w') \<Rightarrow>
          if get_or [] (srv_status server) \<in> {''DELETING'', ''DELETED''} then rank (tick w') < rank (ips_world st)
          else (case api_DeleteServer (ip_client E) sid w' of
                  (Some e, w'') \<Rightarrow> IsNotFound e \<or> rank (tick w'') < rank (ips_world st)
                | (None, w'') \<Rightarrow> rank (tick w'') < rank (ips_world st))"
    using assms(1) unfolding drains_def by (rule spec)
  with assms(2) show ?thesis
    by (auto simp: ip_Delete_def ip_Get_skip teardown_of_def Terminating_iff Let_def
        split: prod.splits sum.splits option.splits if_splits)
qed

lemma delete_retries_rank:
  assumes "plain_api (ip_client E)" "cache_laws (ip_cache_ops E)" "drains (ip_client E) tick sid rank"
  shows "rank (ips_world st) \<le> n \<Longrightarrow> delete_retries E tick sid (Suc n) st"
proof (induction n arbitrary: st)
  case (0 st)
  obtain r st' where d: "ip_Delete E sid st = (r, st')" by force
  have "teardown_of (ip_client E) sid (ips_world st) = Gone"
    using ip_Delete_drains [OF assms(3), of st] 0 by auto
  with ip_Delete_teardown [OF assms(1,2) d] d show ?case by auto
next
  case (Suc n st)
  obtain r st' where d: "ip_Delete E sid st = (r, st')" by force
  show ?case
  proof (cases "teardown_of (ip_client E) sid (ips_world st) = Gone")
    case True
    with ip_Delete_teardown [OF assms(1,2) d] d show ?thesis by auto
  next
    case False
    with ip_Delete_drains [OF assms(3) False] d Suc.prems
    have "rank (ips_world (st'\<lparr>ips_world := tick (ips_world st')\<rparr>)) \<le> n" by simp
    from Suc.IH [OF this] d show ?thesis by simp
  qed
qed

text \<open>
  C22 Retrying ends: against an API that drains, Karpenter's repeated deletion of a server reports
  the NodeClaim as gone after at most one call more than the rank of the world it starts in.
\<close>

theorem Delete_retries_finish:
  assumes "plain_api (ip_client E)" "cache_laws (ip_cache_ops E)" "drains (ip_client E) tick sid rank"
  shows "delete_retries E tick sid (Suc (rank (ips_world st))) st"
  by (rule delete_retries_rank [OF assms order_refl])

text \<open>
  A server that needs two rounds to disappear once its deletion was accepted, behind an API that
  answers with a conflict for as long as the server is being created. The world counts down.
\<close>

definition slow_server :: "nat \<Rightarrow> server" where
  "slow_server w =
     \<lparr>srv_id = Some ''s-1'', srv_name = ''default-abcde'', srv_availability_zone = Some ''eu01-1'',
      srv_machine_type = ''g1.2'', srv_status = Some (if w \<le> 2 then ''DELETING'' else ''CREATING''),
      srv_created_at = Some 0, srv_labels = None, srv_boot_volume = None\<rparr>"

definition slow_api :: "nat api" where
  "slow_api = (failing_api (ApiError 404 [] []))
     \<lparr>api_GetServer := (\<lambda>_ w. (if w = 0 then Inl (ApiError 404 [] []) else Inr (slow_server w), w)),
      api_DeleteServer := (\<lambda>_ w. (if 3 < w then Some (ApiError 409 [] []) else None, w))\<rparr>"

lemma slow_api_drains: "drains slow_api (\<lambda>w. w - 1) ''s-1'' id"
  by (auto simp: drains_def slow_api_def slow_server_def classify_defs)

lemma slow_api_plain: "plain_api slow_api"
  by (auto simp: plain_api_def slow_api_def split: if_splits)

theorem Delete_protocol_witness:
  "teardown_of slow_api ''s-1'' 3 = Requested
   \<and> \<not> is_nodeclaim_not_found (the (fst (ip_Delete (sample_ip_env slow_api) ''s-1'' (sample_ip_state 3))))"
proof -
  have t: "teardown_of slow_api ''s-1'' 3 = Requested"
    by (simp add: teardown_of_def slow_api_def slow_server_def get_or_def)
  obtain r st' where d: "ip_Delete (sample_ip_env slow_api) ''s-1'' (sample_ip_state 3) = (r, st')" by force
  have E: "plain_api (ip_client (sample_ip_env slow_api))" "cache_laws (ip_cache_ops (sample_ip_env slow_api))"
      "ip_client (sample_ip_env slow_api) = slow_api" "ips_world (sample_ip_state 3) = (3 :: nat)"
    by (simp_all add: sample_ip_env_def sample_ip_state_def slow_api_plain timed_cache_laws)
  from Delete_protocol [OF E(1,2) d] t show ?thesis unfolding E(3,4) by (simp add: d)
qed

theorem Delete_retries_finish_witness:
  "delete_retries (sample_ip_env slow_api) (\<lambda>w. w - 1) ''s-1'' 6 (sample_ip_state 5)"
proof -
  have E: "plain_api (ip_client (sample_ip_env slow_api))" "cache_laws (ip_cache_ops (sample_ip_env slow_api))"
      "drains (ip_client (sample_ip_env slow_api)) (\<lambda>w. w - 1) ''s-1'' id"
    using slow_api_drains by (simp_all add: sample_ip_env_def slow_api_plain timed_cache_laws)
  have "Suc (id (ips_world (sample_ip_state (5 :: nat)))) = 6" by (simp add: sample_ip_state_def)
  with Delete_retries_finish [OF E, of "sample_ip_state 5"] show ?thesis by (simp del: delete_retries.simps)
qed

section \<open>Whose servers are listed, and what the cache answers\<close>

text \<open>The list API documents that it filters by the selector: key and value pairs joined by commas.\<close>

definition honours_selector :: "'w api \<Rightarrow> bool" where
  "honours_selector A \<longleftrightarrow>
     (\<forall>sel w servers w'. api_ListServers A sel w = (Inr servers, w') \<longrightarrow>
        list_all (\<lambda>s. wf_map (get_or [] (srv_labels s))
          \<and> list_all (\<lambda>(k, v). map_of (get_or [] (srv_labels s)) k = Some (APIString v)) (parse_selector sel)) servers)"

lemma honours_selectorD:
  assumes "honours_selector A" "api_ListServers A sel w = (Inr servers, w')" "s \<in> set servers" "(k, v) \<in> set (parse_selector sel)"
  shows "map_of (LabelsFromAPI (get_or [] (srv_labels s))) k = Some v"
proof -
  have "wf_map (get_or [] (srv_labels s))" "map_of (get_or [] (srv_labels s)) k = Some (APIString v)"
    using assms unfolding honours_selector_def list_all_iff by fast+
  then show ?thesis by (simp add: LabelsFromAPI_lookup)
qed

lemma parse_selector_single:
  "CHR '','' \<notin> set k \<Longrightarrow> CHR ''='' \<notin> set k \<Longrightarrow> CHR '','' \<notin> set v \<Longrightarrow> parse_selector (LabelSelector [(k, v)]) = [(k, v)]"
proof -
  assume free: "CHR '','' \<notin> set k" "CHR ''='' \<notin> set k" "CHR '','' \<notin> set v"
  have "sortedKeys [(k, v)] = [k]" by (simp add: sortedKeys_sort)
  then show ?thesis
    using free by (simp add: parse_selector_def LabelSelector_def map_get_def split_on_free cut_append)
qed

lemma list_loop_spec:
  "fst (list_loop E servers st) = map NewInstance servers
   \<and> ips_world (snd (list_loop E servers st)) = ips_world st \<and> ips_uo (snd (list_loop E servers st)) = ips_uo st"
  by (induction servers arbitrary: st) (simp_all add: Let_def split_beta)

lemma list_loop_cache:
  "cache_laws (ip_cache_ops E) \<Longrightarrow> distinct (map (\<lambda>s. get_or [] (srv_id s)) servers) \<Longrightarrow>
   c_get (ip_cache_ops E) (ips_cache (snd (list_loop E servers st))) k =
     (case find (\<lambda>s. get_or [] (srv_id s) = k) servers of
        Some s \<Rightarrow> Some (NewInstance s) | None \<Rightarrow> c_get (ip_cache_ops E) (ips_cache st) k)"
proof (induction servers arbitrary: st)
  case (Cons s servers)
  have "find (\<lambda>s'. get_or [] (srv_id s') = get_or [] (srv_id s)) servers = None"
    using Cons.prems(2) by (simp add: find_None_iff image_iff) metis
  with Cons show ?case
    by (auto simp: Let_def split_beta cache_put_get NewInstance_def split: option.splits)
qed simp

lemma list_owned:
  assumes "honours_selector (ip_client E)" "cache_laws (ip_cache_ops E)" "CHR '','' \<notin> set (ip_clusterName E)"
    and "ip_List E st = (Inr is, st')"
  shows "list_all (\<lambda>i. map_of (inst_labels i) LabelKeyManagedBy = Some (ip_clusterName E)) is
     \<and> (\<exists>servers. fst (api_ListServers (ip_client E) (LabelSelector [(LabelKeyManagedBy, ip_clusterName E)]) (ips_world st))
            = Inr servers \<and> is = map NewInstance servers)
     \<and> (distinct (map inst_id is) \<longrightarrow> list_all (\<lambda>i. ip_Get E False (inst_id i) st' = (Inr i, st')) is)"
proof -
  let ?sel = "LabelSelector [(LabelKeyManagedBy, ip_clusterName E)]"
  have sel: "parse_selector ?sel = [(LabelKeyManagedBy, ip_clusterName E)]"
    using assms(3) by (intro parse_selector_single) (simp_all add: LabelKeyManagedBy_def)
  obtain servers w where api: "api_ListServers (ip_client E) ?sel (ips_world st) = (Inr servers, w)"
    using assms(4) by (auto simp: ip_List_def split: prod.splits sum.splits)
  then have "is": "is = map NewInstance servers" and st': "st' = snd (list_loop E servers (st\<lparr>ips_world := w\<rparr>))"
    using assms(4) list_loop_spec [of E servers "st\<lparr>ips_world := w\<rparr>"] by (auto simp: ip_List_def split_beta)
  have owned: "map_of (inst_labels (NewInstance s)) LabelKeyManagedBy = Some (ip_clusterName E)" if "s \<in> set servers" for s
    using honours_selectorD [OF assms(1) api that] by (simp add: sel NewInstance_def)
  have ids: "map inst_id is = map (\<lambda>s. get_or [] (srv_id s)) servers"
    by (simp add: "is" NewInstance_def)
  have cached: "ip_Get E False (get_or [] (srv_id s)) st' = (Inr (NewInstance s), st')"
    if "s \<in> set servers" "distinct (map inst_id is)" for s
  proof -
    have dist: "distinct (map (\<lambda>s. get_or [] (srv_id s)) servers)" using that(2) ids by simp
    have "find (\<lambda>s'. get_or [] (srv_id s') = get_or [] (srv_id s)) servers = Some s"
      using that(1) dist by (induction servers) auto
    then have "c_get (ip_cache_ops E) (ips_cache st') (get_or [] (srv_id s)) = Some (NewInstance s)"
      using list_loop_cache [OF assms(2) dist] by (simp add: st')
    then show ?thesis by (simp add: ip_Get_def)
  qed
  have "inst_id (NewInstance s) = get_or [] (srv_id s)" for s by (simp add: NewInstance_def)
  with owned cached api show ?thesis by (simp add: "is" list_all_iff)
qed

text \<open>
  The controller only ever sees its own servers: when the cluster's name has no comma and the
  list API filters as it documents, every instance it lists carries the managed-by label with
  the cluster's name, there is one instance for each server the API returned, and a lookup
  that follows is answered with the listed instance.
\<close>

lemma List_owned:
  assumes "honours_selector (ip_client E)" "cache_laws (ip_cache_ops E)" "CHR '','' \<notin> set (ip_clusterName E)"
    and "ip_List E st = (Inr is, st')"
  shows "list_all (\<lambda>i. map_of (inst_labels i) LabelKeyManagedBy = Some (ip_clusterName E)) is
     \<and> (\<exists>servers. fst (api_ListServers (ip_client E) (LabelSelector [(LabelKeyManagedBy, ip_clusterName E)]) (ips_world st))
            = Inr servers \<and> is = map NewInstance servers)
     \<and> (distinct (map inst_id is) \<longrightarrow> list_all (\<lambda>i. ip_Get E False (inst_id i) st' = (Inr i, st')) is)"
  by (rule list_owned [OF assms])

text \<open>
  The instance cache is coherent with the calls of the controller: a created server is
  answered from the cache without a call, whatever the API would say; after the labels were
  replaced the next lookup asks the API again; and a 404 empties the entry, so that a lookup
  never returns a server the API has reported gone.
\<close>

lemma Get_coherent:
  assumes "cache_laws (ip_cache_ops E)"
  shows "(case ip_Create E nodeClass nodeClaim labels its st of
            (Inr i, st') \<Rightarrow> ip_Get E False (inst_id i) st' = (Inr i, st') | (Inl _, st') \<Rightarrow> ips_cache st' = ips_cache st)
     \<and> (case ip_UpdateLabels E sid labels st of
            (None, st') \<Rightarrow> ip_Get E False sid st' = ip_Get E True sid st' | (Some _, st') \<Rightarrow> ips_cache st' = ips_cache st)
     \<and> (case ip_Get E skip sid st of
            (Inr i, st') \<Rightarrow> ip_Get E False sid st' = (Inr i, st')
          | (Inl e, st') \<Rightarrow> (case e of NodeClaimNotFoundError _ \<Rightarrow> ip_Get E False sid st' = ip_Get E True sid st' | _ \<Rightarrow> ips_cache st' = ips_cache st))"
proof -
  have put: "ip_Get E False k (cache_put E k i s) = (Inr i, cache_put E k i s)" for k i s
    using cache_put_get [OF assms] by (simp add: ip_Get_def)
  have drop: "ip_Get E False k (cache_drop E k s) = ip_Get E True k (cache_drop E k s)" for k s
    using cache_drop_get [OF assms] by (simp add: ip_Get_def)
  have hit: "ip_Get E False sid st = (Inr i, st)" if "c_get (ip_cache_ops E) (ips_cache st) sid = Some i" for i
    using that by (simp add: ip_Get_def)
  have create: "case ip_Create E nodeClass nodeClaim labels its st of
      (Inr i, st') \<Rightarrow> ip_Get E False (inst_id i) st' = (Inr i, st') | (Inl _, st') \<Rightarrow> ips_cache st' = ips_cache st"
    by (auto simp: ip_Create_def Let_def put split: sum.splits prod.splits)
  have labels: "case ip_UpdateLabels E sid labels st of
      (None, st') \<Rightarrow> ip_Get E False sid st' = ip_Get E True sid st' | (Some _, st') \<Rightarrow> ips_cache st' = ips_cache st"
    by (auto simp: ip_UpdateLabels_def drop split: option.splits prod.splits)
  have get: "case ip_Get E skip sid st of
      (Inr i, st') \<Rightarrow> ip_Get E False sid st' = (Inr i, st')
    | (Inl e, st') \<Rightarrow> (case e of NodeClaimNotFoundError _ \<Rightarrow> ip_Get E False sid st' = ip_Get E True sid st' | _ \<Rightarrow> ips_cache st' = ips_cache st)"
  proof (cases "if skip then None else c_get (ip_cache_ops E) (ips_cache st) sid")
    case (Some i)
    then have "c_get (ip_cache_ops E) (ips_cache st) sid = Some i" by (simp split: if_splits)
    with Some show ?thesis by (simp add: ip_Get_def [of E skip] hit)
  next
    case None
    then have "ip_Get E skip sid st = ip_Get E True sid st" by (simp add: ip_Get_def)
    then show ?thesis
      by (auto simp: ip_Get_skip put drop split: prod.splits sum.splits)
  qed
  from create labels get show ?thesis by blast
qed

text \<open>A list API over a fixed set of servers that filters as documented.\<close>

definition listed_server :: "string \<Rightarrow> string \<Rightarrow> server" where
  "listed_server sid owner = (slow_server 1)
     \<lparr>srv_id := Some sid, srv_status := Some ''ACTIVE'',
      srv_labels := Some [(LabelKeyManagedBy, APIString owner)]\<rparr>"

definition selects :: "string gomap \<Rightarrow> server \<Rightarrow> bool" where
  "selects reqs s \<longleftrightarrow> wf_map (get_or [] (srv_labels s))
     \<and> list_all (\<lambda>(k, v). map_of (get_or [] (srv_labels s)) k = Some (APIString v)) reqs"

definition listing_api :: "server list \<Rightarrow> 'w api" where
  "listing_api all = (failing_api (ApiError 404 [] []))
     \<lparr>api_ListServers := (\<lambda>sel w. (Inr (filter (selects (parse_selector sel)) all), w))\<rparr>"

lemma listing_api_list:
  "api_ListServers (listing_api all) sel w = (Inr (filter (selects (parse_selector sel)) all), w)"
  by (simp add: listing_api_def)

lemma listing_api_honours: "honours_selector (listing_api all)"
  by (auto simp: honours_selector_def listing_api_def selects_def list_all_iff)

lemma List_owned_witness:
  "\<exists>is st'. ip_List (sample_ip_env (listing_api [listed_server ''s-1'' ''prod'', listed_server ''s-2'' ''dev''])) (sample_ip_state ())
     = (Inr is, st') \<and> map inst_id is = [''s-1''] \<and> map (\<lambda>i. map_of (inst_labels i) LabelKeyManagedBy) is = [Some ''prod'']"
proof -
  let ?all = "[listed_server ''s-1'' ''prod'', listed_server ''s-2'' ''dev'']"
  let ?E = "sample_ip_env (listing_api ?all) :: (unit timed, server_instance timed, rat, unit) ip_env"
  let ?sel = "LabelSelector [(LabelKeyManagedBy, ip_clusterName ?E)]"
  have E: "ip_client ?E = listing_api ?all" "ip_clusterName ?E = ''prod''" "cache_laws (ip_cache_ops ?E)"
    by (simp_all add: sample_ip_env_def timed_cache_laws)
  have sel: "parse_selector ?sel = [(LabelKeyManagedBy, ''prod'')]"
    unfolding E by (intro parse_selector_single) (simp_all add: LabelKeyManagedBy_def)
  have api: "api_ListServers (ip_client ?E) ?sel (ips_world (sample_ip_state ())) = (Inr [listed_server ''s-1'' ''prod''], ())"
    unfolding E(1) listing_api_list sel by (simp add: selects_def listed_server_def get_or_def)
  then obtain "is" st' where run: "ip_List ?E (sample_ip_state ()) = (Inr is, st')"
    by (simp add: ip_List_def split_beta)
  have "honours_selector (ip_client ?E)" "CHR '','' \<notin> set (ip_clusterName ?E)"
    by (simp_all add: E listing_api_honours)
  from List_owned [OF this(1) E(3) this(2) run] api
  have "is = [NewInstance (listed_server ''s-1'' ''prod'')]" "list_all (\<lambda>i. map_of (inst_labels i) LabelKeyManagedBy = Some ''prod'') is"
    unfolding E(2) by auto
  with run show ?thesis by (simp add: NewInstance_def listed_server_def get_or_def)
qed

lemma Get_coherent_witness:
  "ip_Get (sample_ip_env slow_api) False ''s-1'' (snd (ip_Get (sample_ip_env slow_api) True ''s-1'' (sample_ip_state 3)))
   = (Inr (NewInstance (slow_server 3)), snd (ip_Get (sample_ip_env slow_api) True ''s-1'' (sample_ip_state 3)))"
proof -
  have "cache_laws (ip_cache_ops (sample_ip_env slow_api))" by (simp add: sample_ip_env_def timed_cache_laws)
  moreover have "fst (ip_Get (sample_ip_env slow_api) True ''s-1'' (sample_ip_state 3)) = Inr (NewInstance (slow_server 3))"
    by (simp add: ip_Get_skip sample_ip_env_def sample_ip_state_def slow_api_def)
  ultimately show ?thesis
    using Get_coherent [where E = "sample_ip_env slow_api" and st = "sample_ip_state 3" and sid = "''s-1''" and skip = True]
    by (simp add: split_beta)
qed

section \<open>The interface\<close>

text \<open>
  \<open>Provider\<close> is a Go interface: a record of functions on the provider's state, and
  \<open>*DefaultProvider\<close> is one. \<open>lift_provider\<close> is the same provider as a part of a larger state.
\<close>

record ('q, 's) instance_provider =
  ipr_Create :: "nodeclass \<Rightarrow> 'q nodeclaim \<Rightarrow> string gomap option \<Rightarrow> 'q instance_type list \<Rightarrow> 's
                 \<Rightarrow> server_instance result \<times> 's"
  ipr_Get :: "bool \<Rightarrow> string \<Rightarrow> 's \<Rightarrow> server_instance result \<times> 's"
  ipr_List :: "'s \<Rightarrow> server_instance list result \<times> 's"
  ipr_Delete :: "string \<Rightarrow> 's \<Rightarrow> go_error option \<times> 's"
  ipr_UpdateLabels :: "string \<Rightarrow> string gomap option \<Rightarrow> 's \<Rightarrow> go_error option \<times> 's"

definition default_provider :: "('c, 'ci, 'q, 'w) ip_env \<Rightarrow> ('q, ('c, 'ci, 'w) ip_state) instance_provider" where
  "default_provider E =
     \<lparr>ipr_Create = ip_Create E, ipr_Get = ip_Get E, ipr_List = ip_List E, ipr_Delete = ip_Delete E,
      ipr_UpdateLabels = ip_UpdateLabels E\<rparr>"

definition on_part :: "('s \<Rightarrow> 'a) \<Rightarrow> ('a \<Rightarrow> 's \<Rightarrow> 's) \<Rightarrow> ('a \<Rightarrow> 'r \<times> 'a) \<Rightarrow> 's \<Rightarrow> 'r \<times> 's" where
  "on_part get put f s = (let (r, a) = f (get s) in (r, put a s))"

definition lift_provider ::
  "('s \<Rightarrow> 'a) \<Rightarrow> ('a \<Rightarrow> 's \<Rightarrow> 's) \<Rightarrow> ('q, 'a) instance_provider \<Rightarrow> ('q, 's) instance_provider" where
  "lift_provider get put P =
     \<lparr>ipr_Create = (\<lambda>nc claim labels its. on_part get put (ipr_Create P nc claim labels its)),
      ipr_Get = (\<lambda>skip sid. on_part get put (ipr_Get P skip sid)),
      ipr_List = on_part get put (ipr_List P),
      ipr_Delete = (\<lambda>sid. on_part get put (ipr_Delete P sid)),
      ipr_UpdateLabels = (\<lambda>sid labels. on_part get put (ipr_UpdateLabels P sid labels))\<rparr>"

text \<open>
  What the cloud provider and the controllers rely on. \<open>e\<close> stands for what a provider is built
  from; a deletion never reports success, a launched server is the answer to the next lookup,
  and so is the API's own answer once labels were replaced.
\<close>

locale instance_contract =
  fixes lawful :: "'e \<Rightarrow> bool"
    and provider :: "'e \<Rightarrow> ('q, 's) instance_provider"
  assumes delete_reports: "fst (ipr_Delete (provider e) sid s) \<noteq> None"
    and create_then_get:
      "lawful e \<Longrightarrow> ipr_Create (provider e) nc claim labels its s = (Inr i, s') \<Longrightarrow>
         ipr_Get (provider e) False (inst_id i) s' = (Inr i, s')"
    and relabel_then_get:
      "lawful e \<Longrightarrow> ipr_UpdateLabels (provider e) sid labels s = (None, s') \<Longrightarrow>
         ipr_Get (provider e) False sid s' = ipr_Get (provider e) True sid s'"
begin

lemma delete_error: "\<exists>err. fst (ipr_Delete (provider e) sid s) = Some err"
  using delete_reports [of e sid s] by blast

lemma relabelled:
  assumes "lawful e" "ipr_UpdateLabels (provider e) sid labels s = (None, s')"
    and "ipr_Get (provider e) True sid s' = (Inr i, s'')" "inst_labels i = get_or [] labels"
  shows "ipr_Get (provider e) False sid s' = (Inr i, s'') \<and> maps_equal (get_or [] labels) (inst_labels i)"
  using relabel_then_get [OF assms(1,2)] assms(3,4) by simp

end

lemma ip_Delete_reports: "fst (ip_Delete E sid st) \<noteq> None"
  by (auto simp: ip_Delete_def Let_def split: prod.splits sum.splits option.splits)

lemma ip_Create_then_get:
  "cache_laws (ip_cache_ops E) \<Longrightarrow> ip_Create E nodeClass nodeClaim labels its st = (Inr i, st') \<Longrightarrow>
     ip_Get E False (inst_id i) st' = (Inr i, st')"
  by (auto simp: ip_Create_def Let_def ip_Get_def cache_put_get split: sum.splits prod.splits)

lemma ip_relabel_then_get:
  "cache_laws (ip_cache_ops E) \<Longrightarrow> ip_UpdateLabels E sid labels st = (None, st') \<Longrightarrow>
     ip_Get E False sid st' = ip_Get E True sid st'"
  by (auto simp: ip_UpdateLabels_def ip_Get_def cache_drop_get split: option.splits prod.splits if_splits)

interpretation dp: instance_contract "\<lambda>E. cache_laws (ip_cache_ops E)" default_provider
  by unfold_locales
     (simp_all add: default_provider_def ip_Delete_reports ip_Create_then_get ip_relabel_then_get)

text \<open>The provider as a part of a larger state; \<open>get\<close> and \<open>put\<close> select the part.\<close>

definition part_laws :: "('s \<Rightarrow> 'a) \<Rightarrow> ('a \<Rightarrow> 's \<Rightarrow> 's) \<Rightarrow> bool" where
  "part_laws get put \<longleftrightarrow> (\<forall>a s. get (put a s) = a) \<and> (\<forall>a b s. put a (put b s) = put a s)"

lemma on_part_result: "fst (on_part get put f s) = fst (f (get s))"
  by (simp add: on_part_def split_beta)

lemma on_part_put: "part_laws get put \<Longrightarrow> on_part get put f (put a s) = (fst (f a), put (snd (f a)) s)"
  by (simp add: on_part_def part_laws_def split_beta)

lemma on_part_Inr: "on_part get put f s = (r, s') \<longleftrightarrow> (\<exists>a. f (get s) = (r, a) \<and> s' = put a s)"
  by (cases "f (get s)") (auto simp: on_part_def)

interpretation lp: instance_contract
  "\<lambda>(E, get, put). cache_laws (ip_cache_ops E) \<and> part_laws get put"
  "\<lambda>(E, get, put). lift_provider get put (default_provider E)"
proof (unfold_locales, goal_cases)
  case (1 e sid s)
  show ?case
    by (cases e) (simp add: lift_provider_def on_part_result default_provider_def ip_Delete_reports)
next
  case (2 e nc claim labels its s i s')
  obtain E get put where e: "e = (E, get, put)" by (cases e)
  from 2 obtain a where "ip_Create E nc claim labels its (get s) = (Inr i, a)" "s' = put a s"
    by (auto simp: e lift_provider_def default_provider_def on_part_Inr)
  with 2(1) show ?case
    by (simp add: e lift_provider_def default_provider_def on_part_put ip_Create_then_get)
next
  case (3 e sid labels s s')
  obtain E get put where e: "e = (E, get, put)" by (cases e)
  from 3 obtain a where a: "ip_UpdateLabels E sid labels (get s) = (None, a)" "s' = put a s"
    by (auto simp: e lift_provider_def default_provider_def on_part_Inr)
  with 3(1) ip_relabel_then_get [OF _ a(1)] show ?case
    by (simp add: e lift_provider_def default_provider_def on_part_put)
qed

section \<open>What a successful launch is\<close>

lemma cheapest_loop_member:
  assumes "sched_laws S"
  shows "fold (\<lambda>it b. better b (pick Q S nodeClaim it)) its best = Some r \<Longrightarrow>
     best = Some r \<or> r \<in> candidates Q S nodeClaim its"
proof (induction its arbitrary: best)
  case (Cons it its)
  have pick: "r' \<in> candidates_of Q S nodeClaim it" if "pick Q S nodeClaim it = Some r'" for r'
    using pick_least [OF assms, of Q nodeClaim it] unfolding that least_in.simps by blast
  have "better best (pick Q S nodeClaim it) = Some r \<Longrightarrow> best = Some r \<or> pick Q S nodeClaim it = Some r"
    by (cases best; cases "pick Q S nodeClaim it") (auto split: if_splits)
  moreover have "better best (pick Q S nodeClaim it) = Some r \<or> r \<in> candidates Q S nodeClaim its"
    using Cons.IH [of "better best (pick Q S nodeClaim it)"] Cons.prems by simp
  ultimately show ?case using pick [of r] unfolding candidates_def by auto
qed simp

lemma cheapestOffering_member:
  assumes "sched_laws S" "cheapestOffering Q S its nodeClaim = Inr (it, zone)"
  shows "\<exists>x. it \<in> set its \<and> x \<in> set (it_offerings it) \<and> of_available x
     \<and> zone = sc_any S (of_requirements x) LabelTopologyZone"
proof -
  obtain x where x: "cheapest_loop Q S nodeClaim its None = Some (it, x)"
      "zone = sc_any S (of_requirements x) LabelTopologyZone"
    using assms(2) by (auto simp: cheapestOffering_def split: option.splits)
  then have "(it, x) \<in> candidates Q S nodeClaim its"
    using cheapest_loop_member [OF assms(1), of Q nodeClaim its None] by (simp add: cheapest_loop_fold)
  with candidates_available [OF assms(1) this] x(2) show ?thesis by blast
qed

lemma ip_Create_ok:
  assumes "ip_Create E nodeClass nodeClaim labels its st = (Inr i, st')"
  shows "\<exists>it zone payload server w. cheapestOffering (ip_quantity E) (ip_sched E) its nodeClaim = Inr (it, zone)
     \<and> createPayload nodeClass nodeClaim it zone labels = Inr payload
     \<and> api_CreateServer (ip_client E) payload (ips_world st) = (Inr server, w) \<and> i = NewInstance server
     \<and> ips_world st' = w"
  using assms by (auto simp: ip_Create_def Let_def split: sum.splits prod.splits)

end
