(* ===== verification/CloudProvider.thy ===== *)
theory CloudProvider
  imports Instance InstanceTypeProvider
begin

text \<open>
  \<open>pkg/cloudprovider\<close>: Karpenter's \<open>CloudProvider\<close> interface on top of the two providers, the
  drift rules and the events.

  \<open>'s\<close> is the state of everything behind the cloud provider: the Kubernetes API server, the event
  recorder and the two providers. The Kubernetes client and the recorder are third-party code;
  the providers are Go interfaces, records of functions here, instantiated below with the models
  of the two default providers. Resolving instance types may panic in the quantity parser, so an
  operation that does it has an optional result.
\<close>

section \<open>Events (events/events.go)\<close>

datatype 'q involved_object = InvolvedNodePool nodepool | InvolvedNodeClaim "'q nodeclaim"

record 'q event =
  ev_involved_object :: "'q involved_object"
  ev_type :: string
  ev_message :: string
  ev_dedupe_values :: "string list"

definition NodePoolFailedToResolveNodeClass :: "nodepool \<Rightarrow> 'q event" where
  "NodePoolFailedToResolveNodeClass nodePool =
     \<lparr>ev_involved_object = InvolvedNodePool nodePool, ev_type = ''Warning'',
      ev_message = ''Failed resolving NodeClass'', ev_dedupe_values = [pool_uid nodePool]\<rparr>"

definition NodeClaimFailedToResolveNodeClass :: "'q nodeclaim \<Rightarrow> 'q event" where
  "NodeClaimFailedToResolveNodeClass nodeClaim =
     \<lparr>ev_involved_object = InvolvedNodeClaim nodeClaim, ev_type = ''Warning'',
      ev_message = ''Failed resolving NodeClass'', ev_dedupe_values = [claim_uid nodeClaim]\<rparr>"

section \<open>The environment\<close>

text \<open>The interface \<open>instancetype.Provider\<close>, as far as it is called.\<close>

record ('q, 's) type_provider =
  tpr_List :: "nodeclass \<Rightarrow> 's \<Rightarrow> ('q instance_type list result \<times> 's) option"

text \<open>
  The struct \<open>CloudProvider\<close> with the cluster name of the context's options. \<open>cpe_ready\<close> is
  \<open>StatusConditions().Get("Ready")\<close>, which the condition library keeps present, \<open>cpe_text\<close> the
  text of a condition's message, \<open>cpe_hash\<close> \<open>hashstructure.Hash\<close> printed, \<open>cpe_allocatable\<close>
  \<open>InstanceType.Allocatable\<close>.
\<close>

record ('q, 's) cp_env =
  cpe_get_nodeclass :: "string \<Rightarrow> 's \<Rightarrow> nodeclass result"
  cpe_get_nodepool :: "string \<Rightarrow> 's \<Rightarrow> nodepool result"
  cpe_publish :: "'q event \<Rightarrow> 's \<Rightarrow> 's"
  cpe_region :: string
  cpe_types :: "('q, 's) type_provider"
  cpe_instances :: "('q, 's) instance_provider"
  cpe_clusterName :: string
  cpe_ready :: "nodeclass \<Rightarrow> condition"
  cpe_text :: "cond_message \<Rightarrow> string"
  cpe_hash :: "nodeclass_spec \<Rightarrow> string"
  cpe_quantity :: "'q quantity_ops"
  cpe_allocatable :: "'q instance_type \<Rightarrow> 'q resource_list"

section \<open>Resolving (cloudprovider.go)\<close>

definition nodeclassResource :: string where
  "nodeclassResource = ''stackitnodeclasses.karpenter.k8s.stackit''"

definition newNotFound :: "string \<Rightarrow> string \<Rightarrow> go_error" where
  "newNotFound resource name = KubeError KNotFound ''%s %q not found'' [resource, name]"

definition newTerminatingNodeClassError :: "string \<Rightarrow> go_error" where
  "newTerminatingNodeClassError name =
     KubeError KNotFound ''%s %q is terminating, treating as not found'' [nodeclassResource, name]"

definition resolveNodeClassFromNodeClaim :: "('q, 's) cp_env \<Rightarrow> 'q nodeclaim \<Rightarrow> 's \<Rightarrow> nodeclass result" where
  "resolveNodeClassFromNodeClaim E nodeClaim s =
     (case claim_nodeclass_ref nodeClaim of
        None \<Rightarrow> Inl (newNotFound nodeclassResource [])
      | Some name \<Rightarrow>
          (case cpe_get_nodeclass E name s of
             Inl err \<Rightarrow> Inl err
           | Inr nodeClass \<Rightarrow>
               if \<not> is_zero_time (nc_deletion_timestamp nodeClass)
               then Inl (newTerminatingNodeClassError (nc_name nodeClass)) else Inr nodeClass))"

definition resolveNodeClassFromNodePool :: "('q, 's) cp_env \<Rightarrow> nodepool \<Rightarrow> 's \<Rightarrow> nodeclass result" where
  "resolveNodeClassFromNodePool E nodePool s =
     (case pool_nodeclass_ref nodePool of
        None \<Rightarrow> Inl (newNotFound nodeclassResource [])
      | Some name \<Rightarrow>
          (case cpe_get_nodeclass E name s of
             Inl err \<Rightarrow> Inl err
           | Inr nodeClass \<Rightarrow>
               if \<not> is_zero_time (nc_deletion_timestamp nodeClass)
               then Inl (newTerminatingNodeClassError (nc_name nodeClass)) else Inr nodeClass))"

definition resolveNodePoolFromInstance :: "('q, 's) cp_env \<Rightarrow> server_instance \<Rightarrow> 's \<Rightarrow> nodepool result" where
  "resolveNodePoolFromInstance E i s =
     (case map_of (inst_labels i) LabelKeyNodePool of
        None \<Rightarrow> Inl (newNotFound ''nodepools.karpenter.sh'' [])
      | Some nodePoolName \<Rightarrow> cpe_get_nodepool E nodePoolName s)"

definition GetInstanceTypes ::
  "('q, 's) cp_env \<Rightarrow> nodepool \<Rightarrow> 's \<Rightarrow> ('q instance_type list result \<times> 's) option" where
  "GetInstanceTypes E nodePool s =
     (case resolveNodeClassFromNodePool E nodePool s of
        Inl err \<Rightarrow>
          (let s' = (if is_kube_not_found err then cpe_publish E (NodePoolFailedToResolveNodeClass nodePool) s else s)
           in Some (Inl (Wrapf ''resolving node class'' [] err), s'))
      | Inr nodeClass \<Rightarrow> tpr_List (cpe_types E) nodeClass s)"

text \<open>A nil instance type with a nil error is \<open>Inr None\<close>.\<close>

definition resolveInstanceTypeFromInstance ::
  "('q, 's) cp_env \<Rightarrow> server_instance \<Rightarrow> 's \<Rightarrow> ('q instance_type option result \<times> 's) option" where
  "resolveInstanceTypeFromInstance E i s =
     (case resolveNodePoolFromInstance E i s of
        Inl err \<Rightarrow>
          Some (case ignore_kube_not_found (Wrapf ''resolving nodepool'' [] err) of
              Some err' \<Rightarrow> (Inl err', s) | None \<Rightarrow> (Inr None, s))
      | Inr nodePool \<Rightarrow>
          (case GetInstanceTypes E nodePool s of
             None \<Rightarrow> None
           | Some (Inl err, s') \<Rightarrow>
               Some (case ignore_kube_not_found (Wrapf ''resolving instance type'' [] err) of
                   Some err' \<Rightarrow> (Inl err', s') | None \<Rightarrow> (Inr None, s'))
           | Some (Inr instanceTypes, s') \<Rightarrow>
               Some (Inr (find (\<lambda>it. it_name it = inst_machine_type i) instanceTypes), s')))"

section \<open>NodeClaims of servers\<close>

text \<open>The labels of the requirements with exactly one value in their set, in the map's order.\<close>

fun requirement_labels :: "requirements \<Rightarrow> string gomap \<Rightarrow> string gomap" where
  "requirement_labels [] labels = labels"
| "requirement_labels ((k, vs) # reqs) labels =
     requirement_labels reqs (if length (remdups vs) = 1 then map_put k (hd vs) labels else labels)"

definition instanceToNodeClaim ::
  "('q, 's) cp_env \<Rightarrow> server_instance \<Rightarrow> 'q instance_type option \<Rightarrow> 'q nodeclaim" where
  "instanceToNodeClaim E i instanceType =
     (let labels = (case instanceType of None \<Rightarrow> [] | Some it \<Rightarrow> requirement_labels (it_requirements it) []);
          nonZero = (\<lambda>(k, v). \<not> q_is_zero (cpe_quantity E) v);
          labels = map_put LabelTopologyZone (inst_Zone i) labels;
          labels = map_put LabelTopologyRegion (cpe_region E) labels;
          labels = map_put CapacityTypeLabelKey CapacityTypeOnDemand labels
      in \<lparr>claim_name = [], claim_uid = [], claim_labels = labels, claim_annotations = [],
          claim_creation_timestamp = inst_created_at i, claim_deletion_timestamp = None,
          claim_nodeclass_ref = None, claim_requirements = [], claim_requests = [],
          claim_provider_id = inst_ProviderID i,
          claim_capacity = (case instanceType of None \<Rightarrow> [] | Some it \<Rightarrow> filter nonZero (it_capacity it)),
          claim_allocatable = (case instanceType of None \<Rightarrow> [] | Some it \<Rightarrow> filter nonZero (cpe_allocatable E it)),
          claim_drifted = False\<rparr>)"

section \<open>The operations\<close>

definition cp_Create ::
  "('q, 's) cp_env \<Rightarrow> 'q nodeclaim \<Rightarrow> 's \<Rightarrow> ('q nodeclaim result \<times> 's) option" where
  "cp_Create E nodeClaim s =
     (case resolveNodeClassFromNodeClaim E nodeClaim s of
        Inl err \<Rightarrow>
          if is_kube_not_found err
          then Some (Inl (InsufficientCapacityError (Wrapf ''resolving nodeclass'' [] err)),
                     cpe_publish E (NodeClaimFailedToResolveNodeClass nodeClaim) s)
          else Some (Inl (Wrapf ''resolving nodeclass'' [] err), s)
      | Inr nodeClass \<Rightarrow>
          let nodeClassReady = cpe_ready E nodeClass in
          if cond_status nodeClassReady = CondFalse
          then Some (Inl (NodeClassNotReadyError (Errorf (cpe_text E (cond_message nodeClassReady)) [])), s)
          else if cond_status nodeClassReady = CondUnknown
          then Some (Inl (CreateError
                 (Errorf ''resolving nodeclass readiness, nodeclass is in Ready=Unknown, %s''
                    [cpe_text E (cond_message nodeClassReady)])
                 ''NodeClassReadinessUnknown'' ''NodeClass is in Ready=Unknown''), s)
          else if cond_observed_generation nodeClassReady \<noteq> nc_generation nodeClass
          then Some (Inl (NodeClassNotReadyError
                 (Errorf ''nodeclass status has not been reconciled against the latest spec'' [])), s)
          else (case tpr_List (cpe_types E) nodeClass s of
              None \<Rightarrow> None
            | Some (Inl err, s1) \<Rightarrow>
                Some (Inl (CreateError (Wrapf ''resolving instance types'' [] err)
                       ''InstanceTypeResolutionFailed'' ''Error resolving instance types''), s1)
            | Some (Inr instanceTypes, s1) \<Rightarrow>
                let labels = ManagedLabels nodeClass nodeClaim (cpe_clusterName E) in
                (case ipr_Create (cpe_instances E) nodeClass nodeClaim (Some labels) instanceTypes s1 of
                   (Inl err, s2) \<Rightarrow> Some (Inl (Wrapf ''creating instance'' [] err), s2)
                 | (Inr i, s2) \<Rightarrow>
                     let instanceType = find (\<lambda>it. it_name it = inst_machine_type i) instanceTypes;
                         created = instanceToNodeClaim E i instanceType
                     in Some (Inr (created\<lparr>claim_annotations := assign (claim_annotations created)
                          [(AnnotationStackitNodeClassHash, nodeclass_hash (cpe_hash E) nodeClass),
                           (AnnotationStackitNodeClassHashVersion, StackitNodeClassHashVersion)]\<rparr>), s2))))"

fun cp_list_loop ::
  "('q, 's) cp_env \<Rightarrow> server_instance list \<Rightarrow> 's \<Rightarrow> ('q nodeclaim list result \<times> 's) option" where
  "cp_list_loop E [] s = Some (Inr [], s)"
| "cp_list_loop E (i # is) s =
     (case resolveInstanceTypeFromInstance E i s of
        None \<Rightarrow> None
      | Some (Inl err, s') \<Rightarrow> Some (Inl (Wrapf ''resolving instance type'' [] err), s')
      | Some (Inr instanceType, s') \<Rightarrow>
          (case cp_list_loop E is s' of
             None \<Rightarrow> None
           | Some (Inl err, s'') \<Rightarrow> Some (Inl err, s'')
           | Some (Inr nodeClaims, s'') \<Rightarrow> Some (Inr (instanceToNodeClaim E i instanceType # nodeClaims), s'')))"

definition cp_List :: "('q, 's) cp_env \<Rightarrow> 's \<Rightarrow> ('q nodeclaim list result \<times> 's) option" where
  "cp_List E s =
     (case ipr_List (cpe_instances E) s of
        (Inl err, s') \<Rightarrow> Some (Inl (Wrapf ''listing instances'' [] err), s')
      | (Inr instances, s') \<Rightarrow> cp_list_loop E instances s')"

definition cp_Get :: "('q, 's) cp_env \<Rightarrow> string \<Rightarrow> 's \<Rightarrow> ('q nodeclaim result \<times> 's) option" where
  "cp_Get E providerID s =
     (case ParseInstanceID providerID of
        Inl err \<Rightarrow> Some (Inl (Wrapf ''getting instance ID'' [] err), s)
      | Inr sid \<Rightarrow>
          (case ipr_Get (cpe_instances E) False sid s of
             (Inl err, s') \<Rightarrow> Some (Inl err, s')
           | (Inr i, s') \<Rightarrow>
               (case resolveInstanceTypeFromInstance E i s' of
                  None \<Rightarrow> None
                | Some (Inl err, s'') \<Rightarrow> Some (Inl (Wrapf ''resolving instance type'' [] err), s'')
                | Some (Inr instanceType, s'') \<Rightarrow> Some (Inr (instanceToNodeClaim E i instanceType), s''))))"

definition cp_Delete :: "('q, 's) cp_env \<Rightarrow> 'q nodeclaim \<Rightarrow> 's \<Rightarrow> go_error option \<times> 's" where
  "cp_Delete E nodeClaim s =
     (case ParseInstanceID (claim_provider_id nodeClaim) of
        Inl err \<Rightarrow> (Some (Wrapf ''getting instance ID'' [] err), s)
      | Inr sid \<Rightarrow> ipr_Delete (cpe_instances E) sid s)"

section \<open>Drift (drift.go)\<close>

text \<open>A drift reason is a string; the empty one is no drift.\<close>

definition NodeClassDrift :: string where
  "NodeClassDrift = ''NodeClassDrift''"

definition AvailabilityZoneDrift :: string where
  "AvailabilityZoneDrift = ''AvailabilityZoneDrift''"

definition areStaticFieldsDrifted :: "'q nodeclaim \<Rightarrow> nodeclass \<Rightarrow> string" where
  "areStaticFieldsDrifted nodeClaim nodeClass =
     (case (map_of (nc_annotations nodeClass) AnnotationStackitNodeClassHash,
            map_of (nc_annotations nodeClass) AnnotationStackitNodeClassHashVersion,
            map_of (claim_annotations nodeClaim) AnnotationStackitNodeClassHash,
            map_of (claim_annotations nodeClaim) AnnotationStackitNodeClassHashVersion) of
        (Some nodeClassHash, Some nodeClassHashVersion, Some nodeClaimHash, Some nodeClaimHashVersion) \<Rightarrow>
          if nodeClassHashVersion \<noteq> nodeClaimHashVersion then []
          else if nodeClassHash \<noteq> nodeClaimHash then NodeClassDrift else []
      | _ \<Rightarrow> [])"

definition isAvailabilityZoneDrifted ::
  "('q, 's) cp_env \<Rightarrow> 'q nodeclaim \<Rightarrow> nodeclass \<Rightarrow> 's \<Rightarrow> string \<times> 's" where
  "isAvailabilityZoneDrifted E nodeClaim nodeClass s =
     (case ParseInstanceID (claim_provider_id nodeClaim) of
        Inl err \<Rightarrow> ([], s)
      | Inr sid \<Rightarrow>
          (case ipr_Get (cpe_instances E) False sid s of
             (Inl err, s') \<Rightarrow> ([], s')
           | (Inr i, s') \<Rightarrow>
               let zones = availability_zone_ids nodeClass in
               if zones = [] then ([], s')
               else let sanitized = map SanitizeZone zones in
                 (if inst_Zone i \<in> set sanitized then [] else AvailabilityZoneDrift, s')))"

definition isNodeClassDrifted ::
  "('q, 's) cp_env \<Rightarrow> 'q nodeclaim \<Rightarrow> nodeclass \<Rightarrow> 's \<Rightarrow> string \<times> 's" where
  "isNodeClassDrifted E nodeClaim nodeClass s =
     (let drifted = areStaticFieldsDrifted nodeClaim nodeClass in
      if drifted \<noteq> [] then (drifted, s) else isAvailabilityZoneDrifted E nodeClaim nodeClass s)"

text \<open>A reason and an error: the code returns an empty reason with every error.\<close>

definition IsDrifted :: "('q, 's) cp_env \<Rightarrow> 'q nodeclaim \<Rightarrow> 's \<Rightarrow> string result \<times> 's" where
  "IsDrifted E nodeClaim s =
     (case map_of (claim_labels nodeClaim) NodePoolLabelKey of
        None \<Rightarrow> (Inr [], s)
      | Some nodePoolName \<Rightarrow>
          (case cpe_get_nodepool E nodePoolName s of
             Inl err \<Rightarrow> (case ignore_kube_not_found err of Some err' \<Rightarrow> (Inl err', s) | None \<Rightarrow> (Inr [], s))
           | Inr nodePool \<Rightarrow>
               if pool_nodeclass_ref nodePool = None then (Inr [], s)
               else (case resolveNodeClassFromNodePool E nodePool s of
                   Inl err \<Rightarrow>
                     if is_kube_not_found err
                     then (Inr [], cpe_publish E (NodePoolFailedToResolveNodeClass nodePool) s)
                     else (Inl (Wrapf ''resolving nodeclass'' [] err), s)
                 | Inr nodeClass \<Rightarrow>
                     let (reason, s') = isNodeClassDrifted E nodeClaim nodeClass s in (Inr reason, s'))))"

section \<open>Constants of the provider\<close>

definition cp_Name :: string where
  "cp_Name = ''stackit''"

record repair_policy =
  rp_condition_type :: string
  rp_condition_status :: condition_status
  rp_toleration :: int

definition RepairPolicies :: "repair_policy list" where
  "RepairPolicies =
     [\<lparr>rp_condition_type = ''Ready'', rp_condition_status = CondFalse, rp_toleration = 30 * Minute\<rparr>,
      \<lparr>rp_condition_type = ''Ready'', rp_condition_status = CondUnknown, rp_toleration = 30 * Minute\<rparr>,
      \<lparr>rp_condition_type = ''StorageReady'', rp_condition_status = CondFalse, rp_toleration = 30 * Minute\<rparr>,
      \<lparr>rp_condition_type = ''NetworkingReady'', rp_condition_status = CondFalse, rp_toleration = 30 * Minute\<rparr>,
      \<lparr>rp_condition_type = ''KernelReady'', rp_condition_status = CondFalse, rp_toleration = 30 * Minute\<rparr>,
      \<lparr>rp_condition_type = ''ContainerRuntimeReady'', rp_condition_status = CondFalse, rp_toleration = 30 * Minute\<rparr>]"

section \<open>Facts about the NodeClaim of a server\<close>

lemma requirement_labels_lookup:
  "wf_map reqs \<Longrightarrow> map_of (requirement_labels reqs labels) k =
     (case map_of reqs k of
        Some vs \<Rightarrow> if length (remdups vs) = 1 then Some (hd vs) else map_of labels k
      | None \<Rightarrow> map_of labels k)"
proof (induction reqs arbitrary: labels)
  case (Cons kv reqs)
  obtain k' vs where kv: "kv = (k', vs)" by force
  with Cons.prems have "map_of reqs k' = None" "wf_map reqs" by (simp_all add: map_of_eq_None_iff)
  with Cons.IH show ?case
    by (auto simp: kv gomap_simps split: option.splits)
qed simp

lemma claim_of_server [simp]:
  "claim_provider_id (instanceToNodeClaim E i t) = ProviderID (inst_id i)"
  "claim_creation_timestamp (instanceToNodeClaim E i t) = inst_created_at i"
  "claim_deletion_timestamp (instanceToNodeClaim E i t) = None"
  "claim_annotations (instanceToNodeClaim E i t) = []"
  by (simp_all add: instanceToNodeClaim_def Let_def inst_ProviderID_def)

text \<open>
  The labels of the NodeClaim of a server are what the node will carry: the zone is the
  server's own, sanitised, the region is the controller's, the capacity type is on-demand,
  whatever the instance type says, and every other label is the value of a requirement that
  admits exactly one; capacity that is zero is left out, and the provider id parses back to the
  server's id.
\<close>

lemma NodeClaim_of_server:
  assumes "wf_map (it_requirements it)" "quantity_laws (cpe_quantity E)"
  shows "map_of (claim_labels (instanceToNodeClaim E i (Some it))) k =
       (if k = CapacityTypeLabelKey then Some ''on-demand''
        else if k = LabelTopologyRegion then Some (cpe_region E)
        else if k = LabelTopologyZone then Some (SanitizeZone (inst_availability_zone i))
        else case map_of (it_requirements it) k of
          Some vs \<Rightarrow> if length (remdups vs) = 1 then Some (hd vs) else None | None \<Rightarrow> None)
     \<and> list_all (\<lambda>(_, q). q_exact (cpe_quantity E) q \<noteq> 0) (claim_capacity (instanceToNodeClaim E i (Some it)))
     \<and> (is_ok (ParseInstanceID (claim_provider_id (instanceToNodeClaim E i (Some it)))) = instance_id_ok (inst_id i))
     \<and> (instance_id_ok (inst_id i)
          = (ParseInstanceID (claim_provider_id (instanceToNodeClaim E i (Some it))) = Inr (inst_id i)))"
proof -
  have labels: "map_of (claim_labels (instanceToNodeClaim E i (Some it))) k =
       (if k = CapacityTypeLabelKey then Some ''on-demand''
        else if k = LabelTopologyRegion then Some (cpe_region E)
        else if k = LabelTopologyZone then Some (SanitizeZone (inst_availability_zone i))
        else case map_of (it_requirements it) k of
          Some vs \<Rightarrow> if length (remdups vs) = 1 then Some (hd vs) else None | None \<Rightarrow> None)"
    by (simp add: instanceToNodeClaim_def Let_def gomap_simps requirement_labels_lookup [OF assms(1)]
        CapacityTypeOnDemand_def inst_Zone_def split: option.splits)
  have zero: "q_is_zero (cpe_quantity E) q \<longleftrightarrow> q_exact (cpe_quantity E) q = 0" for q
    using assms(2) by (simp add: quantity_laws_def qlaw_order_def)
  have cap: "list_all (\<lambda>(_, q). q_exact (cpe_quantity E) q \<noteq> 0) (claim_capacity (instanceToNodeClaim E i (Some it)))"
    by (auto simp: instanceToNodeClaim_def Let_def list_all_iff zero)
  have parse: "ParseInstanceID (ProviderID j) = Inr k \<longleftrightarrow> instance_id_ok k \<and> k = j" for j k
    using pid.parse_iff [of "ProviderID j" k] by (auto simp: ProviderID_def)
  show ?thesis using labels cap parse by (auto simp: is_ok_iff)
qed

section \<open>Facts about launches\<close>

text \<open>A NodeClaim may be launched from a NodeClass that exists, is not going away, and is ready as it is now.\<close>

definition launchable :: "('q, 's) cp_env \<Rightarrow> 'q nodeclaim \<Rightarrow> 's \<Rightarrow> nodeclass \<Rightarrow> bool" where
  "launchable E nodeClaim s nodeClass \<longleftrightarrow>
     resolveNodeClassFromNodeClaim E nodeClaim s = Inr nodeClass
     \<and> cond_status (cpe_ready E nodeClass) = CondTrue
     \<and> cond_observed_generation (cpe_ready E nodeClass) = nc_generation nodeClass"

definition nodeclass_missing :: "('q, 's) cp_env \<Rightarrow> 'q nodeclaim \<Rightarrow> 's \<Rightarrow> bool" where
  "nodeclass_missing E nodeClaim s \<longleftrightarrow>
     (case resolveNodeClassFromNodeClaim E nodeClaim s of Inl err \<Rightarrow> is_kube_not_found err | Inr _ \<Rightarrow> False)"

text \<open>
  C9 Nothing is launched from a NodeClass that is missing, terminating, not ready, of unknown
  readiness or ready only in an older generation: neither provider is called and the one
  thing that may happen is a published event. Karpenter is told that there is no capacity
  exactly when the NodeClass is missing or terminating.
\<close>

theorem Create_guarded:
  assumes "\<forall>nodeClass. \<not> launchable E nodeClaim s nodeClass"
  shows "\<exists>err. cp_Create E nodeClaim s =
       Some (Inl err, if nodeclass_missing E nodeClaim s
                      then cpe_publish E (NodeClaimFailedToResolveNodeClass nodeClaim) s else s)
     \<and> ((\<exists>e. err = InsufficientCapacityError e) \<longleftrightarrow> nodeclass_missing E nodeClaim s)"
proof (cases "resolveNodeClassFromNodeClaim E nodeClaim s")
  case (Inl err)
  then show ?thesis by (simp add: cp_Create_def nodeclass_missing_def)
next
  case (Inr nodeClass)
  with assms have "cond_status (cpe_ready E nodeClass) \<noteq> CondTrue
      \<or> cond_observed_generation (cpe_ready E nodeClass) \<noteq> nc_generation nodeClass"
    by (auto simp: launchable_def)
  with Inr show ?thesis
    by (cases "cond_status (cpe_ready E nodeClass)") (simp_all add: cp_Create_def nodeclass_missing_def Let_def)
qed

lemma cp_Create_ok:
  assumes "cp_Create E nodeClaim s = Some (Inr created, s')"
  shows "\<exists>nodeClass its s1 i. launchable E nodeClaim s nodeClass
     \<and> tpr_List (cpe_types E) nodeClass s = Some (Inr its, s1)
     \<and> ipr_Create (cpe_instances E) nodeClass nodeClaim
         (Some (ManagedLabels nodeClass nodeClaim (cpe_clusterName E))) its s1 = (Inr i, s')
     \<and> created = (instanceToNodeClaim E i (find (\<lambda>it. it_name it = inst_machine_type i) its))
         \<lparr>claim_annotations :=
            assign [] [(AnnotationStackitNodeClassHash, nodeclass_hash (cpe_hash E) nodeClass),
                       (AnnotationStackitNodeClassHashVersion, StackitNodeClassHashVersion)]\<rparr>"
proof -
  obtain nodeClass where nc: "resolveNodeClassFromNodeClaim E nodeClaim s = Inr nodeClass"
    using assms by (auto simp: cp_Create_def split: sum.splits if_splits)
  have ready: "cond_status (cpe_ready E nodeClass) = CondTrue"
      "cond_observed_generation (cpe_ready E nodeClass) = nc_generation nodeClass"
    using assms by (cases "cond_status (cpe_ready E nodeClass)"; simp add: cp_Create_def nc Let_def split: if_splits)+
  then show ?thesis
    using assms nc
    by (auto simp: cp_Create_def launchable_def Let_def split: option.splits sum.splits prod.splits)
qed

section \<open>Facts about drift\<close>

text \<open>The hash controller keeps the annotations of a NodeClass either absent, old, or current.\<close>

definition hash_current :: "(nodeclass_spec \<Rightarrow> string) \<Rightarrow> nodeclass \<Rightarrow> bool" where
  "hash_current hs nodeClass \<longleftrightarrow>
     map_of (nc_annotations nodeClass) AnnotationStackitNodeClassHashVersion \<noteq> Some StackitNodeClassHashVersion
     \<or> map_of (nc_annotations nodeClass) AnnotationStackitNodeClassHash
         \<in> {None, Some (nodeclass_hash hs nodeClass)}"

lemma hash_keys_neq: "AnnotationStackitNodeClassHash \<noteq> AnnotationStackitNodeClassHashVersion"
  by (simp add: AnnotationStackitNodeClassHash_def AnnotationStackitNodeClassHashVersion_def Group_def)

lemma stamped_lookup:
  "map_of (assign m [(AnnotationStackitNodeClassHash, h), (AnnotationStackitNodeClassHashVersion, v)]) k =
     (if k = AnnotationStackitNodeClassHash then Some h
      else if k = AnnotationStackitNodeClassHashVersion then Some v else map_of m k)"
  using hash_keys_neq by (auto simp: gomap_simps)

lemma static_drift_iff:
  "areStaticFieldsDrifted nodeClaim nodeClass = NodeClassDrift \<longleftrightarrow>
     (\<exists>h h' v. map_of (nc_annotations nodeClass) AnnotationStackitNodeClassHash = Some h
        \<and> map_of (nc_annotations nodeClass) AnnotationStackitNodeClassHashVersion = Some v
        \<and> map_of (claim_annotations nodeClaim) AnnotationStackitNodeClassHash = Some h'
        \<and> map_of (claim_annotations nodeClaim) AnnotationStackitNodeClassHashVersion = Some v \<and> h \<noteq> h')"
  by (auto simp: areStaticFieldsDrifted_def NodeClassDrift_def split: option.splits)

lemma static_drift_values: "areStaticFieldsDrifted nodeClaim nodeClass \<in> {[], NodeClassDrift}"
  by (auto simp: areStaticFieldsDrifted_def split: option.splits)

lemma zone_drift_values: "fst (isAvailabilityZoneDrifted E nodeClaim nodeClass s) \<in> {[], AvailabilityZoneDrift}"
  by (auto simp: isAvailabilityZoneDrifted_def Let_def split: sum.splits prod.splits)

lemma stamped_not_static_drifted:
  assumes "hash_current hs nodeClass"
    and "map_of (claim_annotations c) AnnotationStackitNodeClassHash = Some (nodeclass_hash hs nodeClass)"
    and "map_of (claim_annotations c) AnnotationStackitNodeClassHashVersion = Some StackitNodeClassHashVersion"
  shows "areStaticFieldsDrifted c nodeClass = []"
  using assms by (auto simp: areStaticFieldsDrifted_def hash_current_def split: option.splits)

context instance_contract
begin

lemma fresh_zone_ok:
  assumes "lawful e" "cpe_instances E = provider e"
    and "ipr_Create (provider e) nc claim labels its s1 = (Inr i, s')"
    and "instance_id_ok (inst_id i)" "claim_provider_id c = ProviderID (inst_id i)"
    and "inst_Zone i \<in> set (map SanitizeZone (availability_zone_ids nodeClass))"
  shows "isAvailabilityZoneDrifted E c nodeClass s' = ([], s')"
proof -
  have "ParseInstanceID (claim_provider_id c) = Inr (inst_id i)"
    using pid.parse_iff [of "ProviderID (inst_id i)" "inst_id i"] assms(4,5) by simp
  with create_then_get [OF assms(1,3)] assms(2,6) show ?thesis
    by (auto simp: isAvailabilityZoneDrifted_def Let_def)
qed

end

text \<open>An API that creates what it is asked for, and a cloud provider on it with one NodeClass.\<close>

definition creating_api :: "'w api" where
  "creating_api = (failing_api (ApiError 404 [] []))
     \<lparr>api_CreateServer := (\<lambda>p w. (Inr
        \<lparr>srv_id = Some ''s-1'', srv_name = cp_name p, srv_availability_zone = cp_availability_zone p,
         srv_machine_type = cp_machine_type p, srv_status = Some ''CREATING'', srv_created_at = Some 1,
         srv_labels = cp_labels p, srv_boot_volume = None\<rparr>, w))\<rparr>"

definition sample_ready :: condition where
  "sample_ready =
     \<lparr>cond_type = ''Ready'', cond_status = CondTrue, cond_reason = ''Ready'', cond_message = Message [] [] None,
      cond_observed_generation = 1\<rparr>"

definition sample_class :: nodeclass where
  "sample_class = sample_launch_class\<lparr>nc_availability_zones := [\<lparr>az_id = ''eu01-1''\<rparr>]\<rparr>"

definition sample_cp ::
  "(nodeclass \<Rightarrow> condition) \<Rightarrow> (rat, (unit timed, server_instance timed, unit) ip_state) cp_env" where
  "sample_cp ready =
     \<lparr>cpe_get_nodeclass = (\<lambda>name s. if name = ''default'' then Inr sample_class else Inl (newNotFound nodeclassResource name)),
      cpe_get_nodepool = (\<lambda>name s. Inr \<lparr>pool_name = name, pool_uid = ''p-1'', pool_nodeclass_ref = Some ''default''\<rparr>),
      cpe_publish = (\<lambda>ev s. s), cpe_region = ''eu01'',
      cpe_types = \<lparr>tpr_List = (\<lambda>nc s. Some (Inr sample_its, s))\<rparr>,
      cpe_instances = lift_provider id (\<lambda>a s. a) (default_provider (sample_ip_env creating_api)),
      cpe_clusterName = ''prod'', cpe_ready = ready, cpe_text = (\<lambda>_. []), cpe_hash = (\<lambda>_. ''42''),
      cpe_quantity = rat_quantity, cpe_allocatable = it_capacity\<rparr>"

lemma sample_zone: "SanitizeZone ''eu01-1'' = ''eu01-1''"
  by code_simp

lemma sample_part: "part_laws id (\<lambda>a s. a)"
  by (simp add: part_laws_def)

lemma sample_resolve: "resolveNodeClassFromNodeClaim (sample_cp ready) sample_claim s = Inr sample_class"
  by (simp add: resolveNodeClassFromNodeClaim_def sample_cp_def sample_claim_def sample_class_def
      sample_launch_class_def is_zero_time_def)

lemma sample_class_payload: "is_ok (createPayload sample_class sample_claim it zone labels)"
  by (simp add: createPayload_def networking_def serverName_def sample_class_def sample_launch_class_def sample_claim_def
      get_or_def maxServerNameLength_def Let_def)

lemma sample_cp_Create:
  "\<exists>created s'. cp_Create (sample_cp (\<lambda>_. sample_ready)) sample_claim (sample_ip_state ()) = Some (Inr created, s')"
proof -
  let ?E = "sample_cp (\<lambda>_. sample_ready)"
  let ?IE = "sample_ip_env (creating_api :: unit api)"
  let ?it = "sample_it ''g1.2'' [sample_offering ''eu01-1'' 1 True]"
  let ?labels = "Some (ManagedLabels sample_class sample_claim ''prod'')"
  obtain p where p: "createPayload sample_class sample_claim ?it ''eu01-1'' ?labels = Inr p"
    using sample_class_payload [of ?it "''eu01-1''" ?labels] unfolding is_ok_iff by blast
  have "cheapestOffering (ip_quantity ?IE) (ip_sched ?IE) sample_its sample_claim
      = Inr (?it, ''eu01-1'')"
    by (simp add: sample_ip_env_def sample_choice)
  moreover obtain srv w where "api_CreateServer (ip_client ?IE) p (ips_world (sample_ip_state ())) = (Inr srv, w)"
    by (simp add: sample_ip_env_def creating_api_def)
  ultimately obtain i st where
    "ip_Create ?IE sample_class sample_claim ?labels sample_its (sample_ip_state ()) = (Inr i, st)"
    using p by (simp add: ip_Create_def Let_def)
  then have "ipr_Create (cpe_instances ?E) sample_class sample_claim ?labels sample_its (sample_ip_state ()) = (Inr i, st)"
    by (simp add: sample_cp_def lift_provider_def default_provider_def on_part_def)
  moreover have "tpr_List (cpe_types ?E) sample_class (sample_ip_state ()) = Some (Inr sample_its, sample_ip_state ())"
      "cpe_ready ?E sample_class = sample_ready" "cpe_clusterName ?E = ''prod''"
    by (simp_all add: sample_cp_def)
  moreover have "cond_observed_generation sample_ready = nc_generation sample_class" "cond_status sample_ready = CondTrue"
    by (simp_all add: sample_ready_def sample_class_def sample_launch_class_def)
  ultimately show ?thesis
    by (simp add: cp_Create_def sample_resolve Let_def)
qed

theorem Create_guarded_witness:
  "\<exists>err. cp_Create (sample_cp (\<lambda>_. sample_ready\<lparr>cond_observed_generation := 0\<rparr>)) sample_claim (sample_ip_state ())
     = Some (Inl err, sample_ip_state ())"
proof -
  let ?E = "sample_cp (\<lambda>_. sample_ready\<lparr>cond_observed_generation := 0\<rparr>)"
  have "cond_observed_generation (cpe_ready ?E nc) = 0" for nc by (simp add: sample_cp_def)
  moreover have "nc_generation sample_class = 1" by (simp add: sample_class_def sample_launch_class_def)
  ultimately have "\<forall>nodeClass. \<not> launchable ?E sample_claim (sample_ip_state ()) nodeClass"
    by (auto simp: launchable_def sample_resolve)
  from Create_guarded [OF this] show ?thesis
    by (auto simp: nodeclass_missing_def sample_resolve)
qed

lemma NodeClaim_of_server_witness:
  "map_of (claim_labels (instanceToNodeClaim (sample_cp (\<lambda>_. sample_ready)) (NewInstance (slow_server 1))
     (Some (sample_it ''g1.2'' [])))) LabelTopologyZone = Some ''eu01-1''"
proof -
  have "wf_map (it_requirements (sample_it ''g1.2'' []))" "quantity_laws (cpe_quantity (sample_cp (\<lambda>_. sample_ready)))"
    by (simp_all add: sample_it_def sample_cp_def rat_quantity_laws)
  from NodeClaim_of_server [OF this, of "NewInstance (slow_server 1)" LabelTopologyZone]
  show ?thesis by (simp add: NewInstance_def slow_server_def get_or_def sample_zone node_label_defs)
qed

section \<open>Facts about listing and drift\<close>

text \<open>The NodeClass a NodeClaim is compared with, when there is one.\<close>

definition drift_subject :: "('q, 's) cp_env \<Rightarrow> 'q nodeclaim \<Rightarrow> 's \<Rightarrow> nodeclass option" where
  "drift_subject E nodeClaim s =
     (case map_of (claim_labels nodeClaim) NodePoolLabelKey of
        None \<Rightarrow> None
      | Some name \<Rightarrow>
          (case cpe_get_nodepool E name s of
             Inl _ \<Rightarrow> None
           | Inr nodePool \<Rightarrow>
               (case resolveNodeClassFromNodePool E nodePool s of Inl _ \<Rightarrow> None | Inr nodeClass \<Rightarrow> Some nodeClass)))"

definition zone_excluded :: "('q, 's) cp_env \<Rightarrow> 'q nodeclaim \<Rightarrow> nodeclass \<Rightarrow> 's \<Rightarrow> bool" where
  "zone_excluded E nodeClaim nodeClass s \<longleftrightarrow>
     (\<exists>sid i. ParseInstanceID (claim_provider_id nodeClaim) = Inr sid
        \<and> fst (ipr_Get (cpe_instances E) False sid s) = Inr i
        \<and> availability_zone_ids nodeClass \<noteq> []
        \<and> inst_Zone i \<notin> SanitizeZone ` set (availability_zone_ids nodeClass))"

lemma zone_drift_iff:
  "fst (isAvailabilityZoneDrifted E nodeClaim nodeClass s) =
     (if zone_excluded E nodeClaim nodeClass s then AvailabilityZoneDrift else [])"
  by (auto simp: isAvailabilityZoneDrifted_def zone_excluded_def Let_def AvailabilityZoneDrift_def split: sum.splits prod.splits)

lemma pool_without_ref: "pool_nodeclass_ref nodePool = None \<Longrightarrow> \<exists>err. resolveNodeClassFromNodePool E nodePool s = Inl err"
  by (simp add: resolveNodeClassFromNodePool_def)

lemma drift_reason_iff:
  "fst (isNodeClassDrifted E nodeClaim nodeClass s) =
     (if areStaticFieldsDrifted nodeClaim nodeClass = NodeClassDrift then NodeClassDrift
      else if zone_excluded E nodeClaim nodeClass s then AvailabilityZoneDrift else [])"
  using static_drift_values [of nodeClaim nodeClass] zone_drift_iff [of E nodeClaim nodeClass s]
  by (auto simp: isNodeClassDrifted_def Let_def NodeClassDrift_def)

lemma IsDrifted_subject:
  "case drift_subject E nodeClaim s of
     Some nodeClass \<Rightarrow> fst (IsDrifted E nodeClaim s) = Inr (fst (isNodeClassDrifted E nodeClaim nodeClass s))
   | None \<Rightarrow> (case fst (IsDrifted E nodeClaim s) of Inl err \<Rightarrow> \<not> is_kube_not_found err | Inr reason \<Rightarrow> reason = [])"
proof (cases "map_of (claim_labels nodeClaim) NodePoolLabelKey")
  case None
  then show ?thesis by (simp add: drift_subject_def IsDrifted_def)
next
  case (Some name)
  show ?thesis
  proof (cases "cpe_get_nodepool E name s")
    case (Inl err)
    with Some show ?thesis by (simp add: drift_subject_def IsDrifted_def ignore_kube_not_found_def)
  next
    case (Inr nodePool)
    with Some pool_without_ref [of nodePool E s] show ?thesis
      by (cases "resolveNodeClassFromNodePool E nodePool s"; cases "pool_nodeclass_ref nodePool")
         (auto simp: drift_subject_def IsDrifted_def Let_def split_beta)
  qed
qed

text \<open>
  Drift, decided: a NodeClaim is drifted from its NodeClass exactly when both carry a hash of
  the same version and the hashes differ, or else when the server that its provider id names
  is found in a zone that none of the NodeClass's resolved zones sanitises to. When the
  NodePool or the NodeClass is missing or going away there is no drift and no error, and every
  error is one that Kubernetes gave and that is not a NotFound.
\<close>

lemma IsDrifted_spec:
  "case drift_subject E nodeClaim s of
     Some nodeClass \<Rightarrow>
       fst (IsDrifted E nodeClaim s) = Inr
         (if (\<exists>h h' v. map_of (nc_annotations nodeClass) AnnotationStackitNodeClassHash = Some h
               \<and> map_of (nc_annotations nodeClass) AnnotationStackitNodeClassHashVersion = Some v
               \<and> map_of (claim_annotations nodeClaim) AnnotationStackitNodeClassHash = Some h'
               \<and> map_of (claim_annotations nodeClaim) AnnotationStackitNodeClassHashVersion = Some v \<and> h \<noteq> h')
          then NodeClassDrift
          else if zone_excluded E nodeClaim nodeClass s then AvailabilityZoneDrift else [])
   | None \<Rightarrow> (case fst (IsDrifted E nodeClaim s) of Inl err \<Rightarrow> \<not> is_kube_not_found err | Inr reason \<Rightarrow> reason = [])"
  using IsDrifted_subject [of E nodeClaim s]
  by (cases "drift_subject E nodeClaim s") (simp_all only: option.case drift_reason_iff static_drift_iff)

text \<open>The instance type provider as a part of a larger state, with the availability cache it reads.\<close>

definition default_type_provider ::
  "('c, 'ct, 'co, 'cd, 'q, 'm, 'w) itp_env \<Rightarrow> ('s \<Rightarrow> (string \<Rightarrow> f64 option) option) \<Rightarrow> ('s \<Rightarrow> 'c unavailable_offerings)
   \<Rightarrow> ('s \<Rightarrow> ('ct, 'co, 'cd, 'm) itp_state) \<Rightarrow> (('ct, 'co, 'cd, 'm) itp_state \<Rightarrow> 's \<Rightarrow> 's) \<Rightarrow> ('q, 's) type_provider" where
  "default_type_provider E pricing uo get put =
     \<lparr>tpr_List = (\<lambda>nodeClass s.
        map_option (\<lambda>(r, st). (r, put st s)) (itp_List E (pricing s) (uo s) nodeClass (get s)))\<rparr>"

lemma itp_List_no_zones:
  "availability_zone_ids nodeClass = [] \<Longrightarrow> \<exists>fmt args. itp_List TE pricing u nodeClass st = Some (Inl (Errorf fmt args), st)"
  by (cases pricing; cases "itp_machine_types st = []") (simp_all add: itp_List_def)

lemma unresolved_class_unlistable:
  assumes "cpe_types E = default_type_provider TE pricing uo get put" "availability_zone_ids nodeClass = []"
    and "resolveNodePoolFromInstance E i t = Inr nodePool" "resolveNodeClassFromNodePool E nodePool t = Inr nodeClass"
  shows "\<exists>err t'. resolveInstanceTypeFromInstance E i t = Some (Inl err, t')"
proof -
  obtain fmt args st where "itp_List TE (pricing t) (uo t) nodeClass (get t) = Some (Inl (Errorf fmt args), st)"
    using itp_List_no_zones [OF assms(2)] by metis
  then have "GetInstanceTypes E nodePool t = Some (Inl (Errorf fmt args), put st t)"
    using assms by (simp add: GetInstanceTypes_def default_type_provider_def)
  with assms(3) show ?thesis
    by (simp add: resolveInstanceTypeFromInstance_def ignore_kube_not_found_def)
qed

lemma cp_list_loop_fails:
  "i \<in> set is \<Longrightarrow> (\<And>t. \<exists>err t'. resolveInstanceTypeFromInstance E i t = Some (Inl err, t')) \<Longrightarrow>
     cp_list_loop E is s = Some (r, s') \<Longrightarrow> \<not> is_ok r"
proof (induction "is" arbitrary: s r s')
  case (Cons j "is")
  show ?case
  proof (cases "j = i")
    case True
    with Cons.prems(2) [of s] Cons.prems(3) show ?thesis by auto
  next
    case False
    with Cons.prems(1) have "i \<in> set is" by simp
    show ?thesis
    proof (cases r)
      case (Inr claims)
      with Cons.prems(3) obtain it t claims' where "resolveInstanceTypeFromInstance E j s = Some (Inr it, t)"
          "cp_list_loop E is t = Some (Inr claims', s')"
        by (auto split: option.splits sum.splits prod.splits)
      from Cons.IH [OF \<open>i \<in> set is\<close> Cons.prems(2) this(2)] show ?thesis by simp
    qed simp
  qed
qed simp

text \<open>
  C30 Listing is all or nothing: with the default instance type provider, one server whose NodePool
  and NodeClass exist but whose NodeClass has no resolved zone makes the whole listing fail,
  whichever servers come before and after it. The code's comment says that failing to resolve an
  instance type is not fatal.
\<close>

theorem List_blocked:
  assumes "cpe_types E = default_type_provider TE pricing uo get put"
    and "ipr_List (cpe_instances E) s = (Inr is, s1)" "i \<in> set is" "availability_zone_ids nodeClass = []"
    and "\<forall>t. resolveNodePoolFromInstance E i t = Inr nodePool \<and> resolveNodeClassFromNodePool E nodePool t = Inr nodeClass"
    and "cp_List E s = Some (r, s')"
  shows "\<not> is_ok r"
proof -
  have "cp_list_loop E is s1 = Some (r, s')" using assms(2,6) by (simp add: cp_List_def)
  moreover have "\<exists>err t'. resolveInstanceTypeFromInstance E i t = Some (Inl err, t')" for t
    by (rule unresolved_class_unlistable [OF assms(1,4) spec [OF assms(5), THEN conjunct1] spec [OF assms(5), THEN conjunct2]])
  ultimately show ?thesis using cp_list_loop_fails [OF assms(3)] by fast
qed

text \<open>A cloud provider over a fixed list of servers, whose NodePools all use one NodeClass.\<close>

definition pooled_instance :: "string \<Rightarrow> string option \<Rightarrow> server_instance" where
  "pooled_instance sid pool = (NewInstance (listed_server sid ''prod''))
     \<lparr>inst_labels := (case pool of None \<Rightarrow> [] | Some p \<Rightarrow> [(LabelKeyNodePool, p)])\<rparr>"

definition listing_cp :: "nodeclass \<Rightarrow> server_instance list \<Rightarrow>
    (rat, (rat instance_type list timed, offering list timed, rat timed, machine_type list) itp_state) cp_env" where
  "listing_cp nodeClass is =
     \<lparr>cpe_get_nodeclass = (\<lambda>name s. Inr nodeClass),
      cpe_get_nodepool = (\<lambda>name s. if name = ''default''
         then Inr \<lparr>pool_name = name, pool_uid = ''p-1'', pool_nodeclass_ref = Some ''default''\<rparr>
         else Inl (newNotFound ''nodepools.karpenter.sh'' name)),
      cpe_publish = (\<lambda>ev s. s), cpe_region = ''eu01'',
      cpe_types = default_type_provider sample_env (\<lambda>_. Some (\<lambda>_. Some (Fin 1))) (\<lambda>_. NewUnavailableOfferings timed_cache) id (\<lambda>a s. a),
      cpe_instances = \<lparr>ipr_Create = (\<lambda>_ _ _ _ s. (Inl (Errorf [] []), s)), ipr_Get = (\<lambda>_ _ s. (Inl (Errorf [] []), s)),
         ipr_List = (\<lambda>s. (Inr is, s)), ipr_Delete = (\<lambda>_ s. (Some (Errorf [] []), s)), ipr_UpdateLabels = (\<lambda>_ _ s. (None, s))\<rparr>,
      cpe_clusterName = ''prod'', cpe_ready = (\<lambda>_. sample_ready), cpe_text = (\<lambda>_. []), cpe_hash = (\<lambda>_. ''42''),
      cpe_quantity = rat_quantity, cpe_allocatable = it_capacity\<rparr>"

theorem List_blocked_witness:
  "\<exists>err s'. cp_List (listing_cp sample_launch_class [pooled_instance ''s-1'' None, pooled_instance ''s-2'' (Some ''default'')]) sample_state
     = Some (Inl err, s')"
proof -
  let ?is = "[pooled_instance ''s-1'' None, pooled_instance ''s-2'' (Some ''default'')]"
  let ?E = "listing_cp sample_launch_class ?is"
  let ?p = "\<lparr>pool_name = ''default'', pool_uid = ''p-1'', pool_nodeclass_ref = Some ''default''\<rparr>"
  have tp: "cpe_types ?E = default_type_provider sample_env (\<lambda>_. Some (\<lambda>_. Some (Fin 1))) (\<lambda>_. NewUnavailableOfferings timed_cache) id (\<lambda>a s. a)"
    and run: "ipr_List (cpe_instances ?E) sample_state = (Inr ?is, sample_state)"
    and zones: "availability_zone_ids sample_launch_class = []"
    by (simp_all add: listing_cp_def availability_zone_ids_def sample_launch_class_def)
  have pool: "\<forall>t. resolveNodePoolFromInstance ?E (pooled_instance ''s-2'' (Some ''default'')) t = Inr ?p
      \<and> resolveNodeClassFromNodePool ?E ?p t = Inr sample_launch_class"
    by (simp add: resolveNodePoolFromInstance_def resolveNodeClassFromNodePool_def pooled_instance_def listing_cp_def
        is_zero_time_def sample_launch_class_def)
  have "resolveInstanceTypeFromInstance ?E (pooled_instance ''s-1'' None) t = Some (Inr None, t)" for t
    by (simp add: resolveInstanceTypeFromInstance_def resolveNodePoolFromInstance_def pooled_instance_def
        newNotFound_def ignore_kube_not_found_def)
  moreover obtain err t where "resolveInstanceTypeFromInstance ?E (pooled_instance ''s-2'' (Some ''default'')) sample_state
      = Some (Inl err, t)"
    using unresolved_class_unlistable [OF tp zones] pool by blast
  ultimately obtain r s' where l: "cp_List ?E sample_state = Some (r, s')"
    using run by (simp add: cp_List_def)
  from List_blocked [OF tp run _ zones pool l] l show ?thesis by (cases r) auto
qed

end
