(* ===== verification/GarbageCollection.thy ===== *)
theory GarbageCollection
  imports CloudProvider "HOL-Library.Multiset"
begin

text \<open>
  \<open>pkg/controllers/nodeclaim/garbagecollection/controller.go\<close>: servers without a NodeClaim are
  deleted.

  The Kubernetes calls are third-party code, and so is the pool of workers: \<open>gc_order n\<close> is the
  order in which the workers take the \<open>n\<close> items, any permutation, and each item is one step.
  \<open>gc_clock i\<close> is the time at which item \<open>i\<close> is looked at.
\<close>

section \<open>The controller\<close>

definition gcGracePeriod :: int where
  "gcGracePeriod = 2 * Minute"

record node =
  node_name :: string
  node_provider_id :: string

record ('q, 's) gc_env =
  gc_list :: "'s \<Rightarrow> ('q nodeclaim list result \<times> 's) option"
  gc_delete :: "'q nodeclaim \<Rightarrow> 's \<Rightarrow> go_error option \<times> 's"
  gc_list_managed :: "'s \<Rightarrow> 'q nodeclaim list result"
  gc_list_nodes :: "'s \<Rightarrow> node list result"
  gc_delete_node :: "node \<Rightarrow> 's \<Rightarrow> go_error option \<times> 's"
  gc_clock :: "nat \<Rightarrow> int"
  gc_order :: "nat \<Rightarrow> nat list"

definition garbageCollect :: "('q, 's) gc_env \<Rightarrow> 'q nodeclaim \<Rightarrow> node list \<Rightarrow> 's \<Rightarrow> go_error option \<times> 's" where
  "garbageCollect E nodeClaim nodeList s =
     (case gc_delete E nodeClaim s of
        (Some err, s1) \<Rightarrow> (ignore_nodeclaim_not_found err, s1)
      | (None, s1) \<Rightarrow>
          (case find (\<lambda>n. node_provider_id n = claim_provider_id nodeClaim) nodeList of
             None \<Rightarrow> (None, s1)
           | Some node \<Rightarrow>
               (case gc_delete_node E node s1 of
                  (Some err, s2) \<Rightarrow> (ignore_kube_not_found err, s2)
                | (None, s2) \<Rightarrow> (None, s2))))"

text \<open>The function the workers run, and their loop; the errors are kept by index.\<close>

definition gc_item ::
  "('q, 's) gc_env \<Rightarrow> string list \<Rightarrow> node list \<Rightarrow> 'q nodeclaim list \<Rightarrow> nat \<Rightarrow> 's \<Rightarrow> go_error option \<times> 's" where
  "gc_item E clusterProviderIDs nodeList cloudNodeClaims i s =
     (let nc = cloudNodeClaims ! i in
      if claim_provider_id nc \<in> set clusterProviderIDs then (None, s)
      else if claim_creation_timestamp nc = 0 then (None, s)
      else if gc_clock E i - claim_creation_timestamp nc < gcGracePeriod then (None, s)
      else garbageCollect E nc nodeList s)"

fun gc_items ::
  "('q, 's) gc_env \<Rightarrow> string list \<Rightarrow> node list \<Rightarrow> 'q nodeclaim list \<Rightarrow> nat list \<Rightarrow> go_error option list \<Rightarrow> 's
   \<Rightarrow> go_error option list \<times> 's" where
  "gc_items E ids nodeList claims [] errs s = (errs, s)"
| "gc_items E ids nodeList claims (i # is) errs s =
     (let (e, s') = gc_item E ids nodeList claims i s in gc_items E ids nodeList claims is (errs[i := e]) s')"

text \<open>
  \<open>Reconcile\<close>, with \<open>successfulCount\<close>, a \<open>uint64\<close>. A panic in the instance type resolver ends
  the reconcile.
\<close>

definition gc_Reconcile :: "('q, 's) gc_env \<Rightarrow> 64 word \<Rightarrow> 's \<Rightarrow> (reconciled \<times> 64 word \<times> 's) option" where
  "gc_Reconcile E successfulCount s =
     (case gc_list E s of
        None \<Rightarrow> None
      | Some (Inl err, s1) \<Rightarrow> Some (Inl (Wrapf ''listing cloudprovider nodeclaims'' [] err), successfulCount, s1)
      | Some (Inr listed, s1) \<Rightarrow>
          let cloudNodeClaims = filter (\<lambda>nc. is_zero_time (claim_deletion_timestamp nc)) listed in
          (case gc_list_managed E s1 of
             Inl err \<Rightarrow> Some (Inl err, successfulCount, s1)
           | Inr clusterNodeClaims \<Rightarrow>
               let clusterProviderIDs = filter (\<lambda>p. p \<noteq> []) (map claim_provider_id clusterNodeClaims) in
               (case gc_list_nodes E s1 of
                  Inl err \<Rightarrow> Some (Inl err, successfulCount, s1)
                | Inr nodeList \<Rightarrow>
                    let n = length cloudNodeClaims;
                        (errs, s2) = gc_items E clusterProviderIDs nodeList cloudNodeClaims (gc_order E n) (replicate n None) s1
                    in (case combine_errors errs of
                          Some err \<Rightarrow> Some (Inl err, successfulCount, s2)
                        | None \<Rightarrow>
                            let successfulCount = successfulCount + 1 in
                            Some (Inr (if successfulCount \<le> 20 then 10 * Second else 2 * Minute), successfulCount, s2)))))"

section \<open>Which servers are deleted\<close>

text \<open>
  The specification: a server is an orphan when no NodeClaim of the cluster names it, and it is
  known to have been created longer ago than the grace period.
\<close>

definition orphan :: "'q nodeclaim list \<Rightarrow> (nat \<Rightarrow> int) \<Rightarrow> 'q nodeclaim list \<Rightarrow> nat \<Rightarrow> bool" where
  "orphan clusterNodeClaims clock claims i \<longleftrightarrow>
     claim_provider_id (claims ! i) \<notin> set (filter (\<lambda>p. p \<noteq> []) (map claim_provider_id clusterNodeClaims))
     \<and> claim_creation_timestamp (claims ! i) \<noteq> 0
     \<and> claim_creation_timestamp (claims ! i) + 2 * Minute \<le> clock i"

lemma gc_item_orphan:
  "gc_item E (filter (\<lambda>p. p \<noteq> []) (map claim_provider_id managed)) nodeList claims i s =
     (if orphan managed (gc_clock E) claims i then garbageCollect E (claims ! i) nodeList s else (None, s))"
  by (auto simp: gc_item_def orphan_def Let_def gcGracePeriod_def)

text \<open>
  The environment with a record of the provider ids that \<open>Delete\<close> was called for, in order; the
  record is not visible to anything else.
\<close>

definition logged :: "('q, 's) gc_env \<Rightarrow> ('q, 's \<times> string list) gc_env" where
  "logged E =
     \<lparr>gc_list = (\<lambda>(s, dels). map_option (\<lambda>(r, s'). (r, s', dels)) (gc_list E s)),
      gc_delete = (\<lambda>nc (s, dels). (let (e, s') = gc_delete E nc s in (e, s', dels @ [claim_provider_id nc]))),
      gc_list_managed = (\<lambda>(s, dels). gc_list_managed E s), gc_list_nodes = (\<lambda>(s, dels). gc_list_nodes E s),
      gc_delete_node = (\<lambda>node (s, dels). (let (e, s') = gc_delete_node E node s in (e, s', dels))),
      gc_clock = gc_clock E, gc_order = gc_order E\<rparr>"

lemma logged_sel [simp]:
  "gc_clock (logged E) = gc_clock E" "gc_order (logged E) = gc_order E"
  "gc_list (logged E) (s, dels) = map_option (\<lambda>(r, s'). (r, s', dels)) (gc_list E s)"
  "gc_list_managed (logged E) (s, dels) = gc_list_managed E s"
  "gc_list_nodes (logged E) (s, dels) = gc_list_nodes E s"
  by (simp_all add: logged_def)

lemma gc_Reconcile_items:
  assumes "gc_list E s = Some (Inr listed, s1)" "gc_list_managed E s1 = Inr managed" "gc_list_nodes E s1 = Inr nodes"
    and "gc_Reconcile E n s = Some (r, n', s')"
  shows "let claims = filter (\<lambda>nc. is_zero_time (claim_deletion_timestamp nc)) listed;
       (errs, s2) = gc_items E (filter (\<lambda>p. p \<noteq> []) (map claim_provider_id managed)) nodes claims
          (gc_order E (length claims)) (replicate (length claims) None) s1
     in s' = s2 \<and> (is_ok r \<longleftrightarrow> (\<forall>e \<in> set errs. e = None)) \<and> n' = (if is_ok r then n + 1 else n)"
  using assms
  by (auto simp: gc_Reconcile_def Let_def combine_errors_None dest: combine_errors_Some split: prod.splits option.splits)

lemma garbageCollect_log: "snd (snd (garbageCollect (logged E) nc nodeList (s, dels))) = dels @ [claim_provider_id nc]"
  by (auto simp: garbageCollect_def logged_def split: prod.splits option.splits)

lemma gc_items_log:
  "snd (snd (gc_items (logged E) (filter (\<lambda>p. p \<noteq> []) (map claim_provider_id managed)) nodeList claims is errs (s, dels))) =
     dels @ map (\<lambda>i. claim_provider_id (claims ! i)) (filter (orphan managed (gc_clock E) claims) is)"
proof (induction "is" arbitrary: errs s dels)
  case (Cons i "is")
  obtain e s1 d1 where r: "gc_item (logged E) (filter (\<lambda>p. p \<noteq> []) (map claim_provider_id managed)) nodeList claims i (s, dels)
      = (e, s1, d1)"
    by (rule prod_cases3)
  then have "d1 = (if orphan managed (gc_clock E) claims i then dels @ [claim_provider_id (claims ! i)] else dels)"
    using garbageCollect_log [of E "claims ! i" nodeList s dels] by (auto simp: gc_item_orphan split: if_splits)
  with r Cons.IH [of "errs[i := e]" s1 d1] show ?case by simp
qed simp

definition orders_all :: "(nat \<Rightarrow> nat list) \<Rightarrow> bool" where
  "orders_all order \<longleftrightarrow> (\<forall>n. mset (order n) = mset [0..<n])"

lemma gc_deletes:
  assumes "orders_all (gc_order E)"
    and "gc_Reconcile (logged E) n (s, []) = Some (r, n', s', dels)"
  shows "case gc_list E s of
      Some (Inr listed, s1) \<Rightarrow>
        (let claims = filter (\<lambda>nc. is_zero_time (claim_deletion_timestamp nc)) listed in
         case (gc_list_managed E s1, gc_list_nodes E s1) of
           (Inr managed, Inr nodes) \<Rightarrow>
             mset dels = {# claim_provider_id (claims ! i). i \<in># filter_mset (orphan managed (gc_clock E) claims) (mset [0..<length claims]) #}
         | _ \<Rightarrow> dels = [] \<and> \<not> is_ok r)
    | _ \<Rightarrow> dels = [] \<and> \<not> is_ok r"
proof (cases "gc_list E s")
  case None
  with assms(2) show ?thesis by (simp add: gc_Reconcile_def)
next
  case (Some p)
  obtain r1 s1 where p: "p = (r1, s1)" by force
  show ?thesis
  proof (cases r1)
    case (Inl err)
    with assms(2) Some p show ?thesis by (auto simp: gc_Reconcile_def)
  next
    case (Inr listed)
    let ?claims = "filter (\<lambda>nc. is_zero_time (claim_deletion_timestamp nc)) listed"
    note lists = Some [unfolded p Inr]
    show ?thesis
    proof (cases "gc_list_managed E s1")
      case (Inl err)
      with assms(2) lists show ?thesis by (auto simp: gc_Reconcile_def Let_def)
    next
      case (Inr managed)
      show ?thesis
      proof (cases "gc_list_nodes E s1")
        case (Inl err)
        with assms(2) lists Inr show ?thesis by (auto simp: gc_Reconcile_def Let_def)
      next
        case (Inr nodes)
        let ?items = "gc_items (logged E) (filter (\<lambda>p. p \<noteq> []) (map claim_provider_id managed)) nodes ?claims
          (gc_order E (length ?claims)) (replicate (length ?claims) None) (s1, [])"
        have "dels = snd (snd ?items)"
          using gc_Reconcile_items [of "logged E" "(s, [])", OF _ _ _ assms(2)] lists
            \<open>gc_list_managed E s1 = Inr managed\<close> Inr
          by (simp add: Let_def split_beta) (metis snd_conv)
        then have "dels = map (\<lambda>i. claim_provider_id (?claims ! i))
            (filter (orphan managed (gc_clock E) ?claims) (gc_order E (length ?claims)))"
          by (simp add: gc_items_log)
        moreover have "mset (gc_order E (length ?claims)) = mset [0..<length ?claims]"
          using assms(1) by (simp add: orders_all_def)
        ultimately have "mset dels = {# claim_provider_id (?claims ! i).
            i \<in># filter_mset (orphan managed (gc_clock E) ?claims) (mset [0..<length ?claims]) #}"
          by simp
        with lists \<open>gc_list_managed E s1 = Inr managed\<close> Inr show ?thesis by (simp add: Let_def)
      qed
    qed
  qed
qed

text \<open>
  The garbage collector deletes exactly the orphans, each once, in whatever order its workers
  run: of the listed servers that are not terminating, those that no NodeClaim of the cluster
  names, that have a creation time, and that are at least two minutes old. When any of the three
  listings fails, nothing is deleted.
\<close>

lemma GC_exact:
  assumes "orders_all (gc_order E)"
    and "gc_Reconcile (logged E) n (s, []) = Some (r, n', s', dels)"
  shows "case gc_list E s of
      Some (Inr listed, s1) \<Rightarrow>
        (let claims = filter (\<lambda>nc. is_zero_time (claim_deletion_timestamp nc)) listed in
         case (gc_list_managed E s1, gc_list_nodes E s1) of
           (Inr managed, Inr nodes) \<Rightarrow>
             mset dels = {# claim_provider_id (claims ! i). i \<in># filter_mset (orphan managed (gc_clock E) claims) (mset [0..<length claims]) #}
         | _ \<Rightarrow> dels = [] \<and> \<not> is_ok r)
    | _ \<Rightarrow> dels = [] \<and> \<not> is_ok r"
  by (rule gc_deletes [OF assms])

text \<open>
  What the controller relies on in the cloud provider's \<open>List\<close>: what it lists is \<open>owned\<close>, as the
  server with this id and creation time; \<open>lawful\<close> says of a provider that its own laws hold.
\<close>

locale server_listing =
  fixes lister :: "'e \<Rightarrow> 's \<Rightarrow> ('q nodeclaim list result \<times> 's) option"
    and lawful :: "'e \<Rightarrow> bool"
    and owned :: "'e \<Rightarrow> 's \<Rightarrow> string \<Rightarrow> int \<Rightarrow> bool"
  assumes listed_owned: "lawful e \<Longrightarrow> lister e s = Some (Inr claims, s') \<Longrightarrow> c \<in> set claims \<Longrightarrow>
      owned e s (claim_provider_id c) (claim_creation_timestamp c)"
begin

lemma collects_owned:
  assumes "lawful e" "gc_list E = lister e" "orders_all (gc_order E)" "\<forall>s. gc_list_managed E s = Inr managed"
    and "gc_Reconcile (logged E) n (s, []) = Some (r, n', s', dels)" "p \<in> set dels"
  shows "p \<notin> set (filter (\<lambda>p. p \<noteq> []) (map claim_provider_id managed))
     \<and> (\<exists>created i. owned e s p created \<and> created \<noteq> 0 \<and> created + 2 * Minute \<le> gc_clock E i)"
proof -
  note d = gc_deletes [OF assms(3,5)]
  obtain listed s1 nodes where l: "gc_list E s = Some (Inr listed, s1)" "gc_list_nodes E s1 = Inr nodes"
  proof (cases "gc_list E s")
    case (Some q)
    obtain listed s1 where q: "q = (listed, s1)" by force
    show thesis
    proof (cases listed)
      case (Inr claims)
      then show thesis
        using that [of claims s1] d Some q assms(4,6) by (cases "gc_list_nodes E s1") (simp_all add: Let_def)
    qed (use d Some q assms(6) in simp)
  qed (use d assms(6) in simp)
  let ?claims = "filter (\<lambda>nc. is_zero_time (claim_deletion_timestamp nc)) listed"
  have "mset dels = {# claim_provider_id (?claims ! i). i \<in># filter_mset (orphan managed (gc_clock E) ?claims) (mset [0..<length ?claims]) #}"
    using d l assms(4) by (simp add: Let_def)
  then have "p \<in># {# claim_provider_id (?claims ! i). i \<in># filter_mset (orphan managed (gc_clock E) ?claims) (mset [0..<length ?claims]) #}"
    using assms(6) by (metis set_mset_mset)
  then obtain i where i: "i < length ?claims" "orphan managed (gc_clock E) ?claims i" "p = claim_provider_id (?claims ! i)"
    by auto
  have "?claims ! i \<in> set listed" using nth_mem [OF i(1)] by simp
  then have "owned e s p (claim_creation_timestamp (?claims ! i))"
    using listed_owned [OF assms(1)] l(1) assms(2) i(3) by simp
  with i(2,3) show ?thesis by (auto simp: orphan_def)
qed

end

lemma gc_Reconcile_total: "gc_list E s \<noteq> None \<Longrightarrow> \<exists>r n' s'. gc_Reconcile E n s = Some (r, n', s')"
  by (auto simp: gc_Reconcile_def Let_def split: prod.splits option.splits sum.splits)

text \<open>Three servers: one named by a NodeClaim, one launched a second ago, one orphan.\<close>

definition gc_claim :: "string \<Rightarrow> int \<Rightarrow> rat nodeclaim" where
  "gc_claim p created = sample_claim\<lparr>claim_provider_id := p, claim_creation_timestamp := created\<rparr>"

definition sample_gc :: "(rat, unit) gc_env" where
  "sample_gc =
     \<lparr>gc_list = (\<lambda>s. Some (Inr [gc_claim ''a'' 1, gc_claim ''b'' (5 * Minute - Second), gc_claim ''c'' 1], s)),
      gc_delete = (\<lambda>nc s. (Some (NodeClaimNotFoundError (Errorf [] [])), s)),
      gc_list_managed = (\<lambda>s. Inr [gc_claim ''a'' 1, gc_claim [] 1]), gc_list_nodes = (\<lambda>s. Inr []),
      gc_delete_node = (\<lambda>n s. (None, s)), gc_clock = (\<lambda>_. 5 * Minute), gc_order = (\<lambda>n. rev [0..<n])\<rparr>"

lemma GC_exact_witness:
  "\<exists>r n' s' dels. gc_Reconcile (logged sample_gc) 0 ((), []) = Some (r, n', s', dels) \<and> mset dels = {#''c''#}"
proof -
  have ord: "orders_all (gc_order sample_gc)" by (simp add: orders_all_def sample_gc_def)
  obtain r n' s' dels where run: "gc_Reconcile (logged sample_gc) 0 ((), []) = Some (r, n', s', dels)"
    using gc_Reconcile_total [of "logged sample_gc" "((), [])" 0] that unfolding logged_sel by (auto simp: sample_gc_def)
  have list: "gc_list sample_gc () = Some (Inr [gc_claim ''a'' 1, gc_claim ''b'' (5 * Minute - Second), gc_claim ''c'' 1], ())"
      "gc_list_managed sample_gc () = Inr [gc_claim ''a'' 1, gc_claim [] 1]" "gc_list_nodes sample_gc () = Inr []"
    by (simp_all add: sample_gc_def)
  have live: "is_zero_time (claim_deletion_timestamp (gc_claim p t))" for p t
    by (simp add: gc_claim_def sample_claim_def is_zero_time_def)
  have ids: "claim_provider_id (gc_claim p t) = p" "claim_creation_timestamp (gc_claim p t) = t" for p t
    by (simp_all add: gc_claim_def)
  have "gc_clock sample_gc = (\<lambda>_. 5 * Minute)" by (simp add: sample_gc_def)
  with GC_exact [OF ord run] have "mset dels = {#''c''#}"
    by (simp add: list live ids orphan_def Minute_def Second_def Let_def upt_rec del: mset_upt)
  with run show ?thesis by blast
qed

section \<open>Composed with the cloud provider\<close>

context instance_contract
begin

lemma cp_Delete_reports: "cpe_instances CE = provider e \<Longrightarrow> fst (cp_Delete CE nc s) \<noteq> None"
  using delete_reports by (auto simp: cp_Delete_def split: sum.splits)

lemma garbageCollect_only_deletes:
  assumes "gc_delete E = cp_Delete CE" "cpe_instances CE = provider e"
  shows "garbageCollect E nc nodeList s =
     (let (e, s') = cp_Delete CE nc s in (case e of None \<Rightarrow> None | Some err \<Rightarrow> ignore_nodeclaim_not_found err, s'))"
  using cp_Delete_reports [OF assms(2), of nc s] assms(1)
  by (auto simp: garbageCollect_def split: prod.splits option.splits)

end

text \<open>
  C33 The Node of a collected server is never removed: with the default instance provider behind
  the cloud provider, collecting a server does the same whatever Nodes there are and whatever
  deleting one would do, because a deletion is never reported as done before the server is
  already gone, and the code then returns early. The code's comment says that removing the Node
  lets the scheduler forget about it immediately.
\<close>

theorem Node_never_deleted:
  assumes "gc_delete E = cp_Delete CE" "cpe_instances CE = lift_provider get put (default_provider IE)"
  shows "garbageCollect E nc nodeList s = garbageCollect (E\<lparr>gc_delete_node := f\<rparr>) nc nodeList' s"
proof -
  have P: "cpe_instances CE = (case (IE, get, put) of (E, get, put) \<Rightarrow> lift_provider get put (default_provider E))"
    by (simp add: assms(2))
  have "gc_delete (E\<lparr>gc_delete_node := f\<rparr>) = cp_Delete CE" by (simp add: assms(1))
  with lp.garbageCollect_only_deletes [OF assms(1) P] lp.garbageCollect_only_deletes [OF _ P]
  show ?thesis by metis
qed

theorem Node_never_deleted_witness:
  "let CE = sample_cp (\<lambda>_. sample_ready);
       E = \<lparr>gc_list = cp_List CE, gc_delete = cp_Delete CE, gc_list_managed = (\<lambda>s. Inr []), gc_list_nodes = (\<lambda>s. Inr []),
            gc_delete_node = (\<lambda>n s. (None, s)), gc_clock = (\<lambda>_. 0), gc_order = (\<lambda>n. [0..<n])\<rparr>;
       nc = gc_claim (ProviderID ''s-1'') 1
   in garbageCollect E nc [\<lparr>node_name = ''n'', node_provider_id = ProviderID ''s-1''\<rparr>] (sample_ip_state ())
      = garbageCollect (E\<lparr>gc_delete_node := (\<lambda>n s. (Some (Errorf [] []), s))\<rparr>) nc [] (sample_ip_state ())"
  unfolding Let_def
  by (rule Node_never_deleted [where get = id and put = "\<lambda>a s. a" and IE = "sample_ip_env creating_api"
        and CE = "sample_cp (\<lambda>_. sample_ready)"])
     (simp_all add: sample_cp_def)

end
