(* ===== verification/Labeling.thy ===== *)
theory Labeling
  imports CloudProvider
begin

text \<open>
  \<open>pkg/controllers/nodeclaim/labeling/controller.go\<close>: the labels of a running server are kept
  what the NodeClaim and its NodeClass say. The Kubernetes client is third-party code.
\<close>

section \<open>The controller\<close>

record ('q, 's) labeling_env =
  lab_get_nodeclass :: "string \<Rightarrow> 's \<Rightarrow> nodeclass result"
  lab_instances :: "('q, 's) instance_provider"
  lab_clusterName :: string

definition Labeling_Reconcile :: "('q, 's) labeling_env \<Rightarrow> 'q nodeclaim \<Rightarrow> 's \<Rightarrow> reconciled \<times> 's" where
  "Labeling_Reconcile E nodeClaim s =
     (if \<not> is_zero_time (claim_deletion_timestamp nodeClaim) \<or> claim_provider_id nodeClaim = [] then (Inr 0, s)
      else case ParseInstanceID (claim_provider_id nodeClaim) of
        Inl err \<Rightarrow> (Inr 0, s)
      | Inr sid \<Rightarrow>
          (case claim_nodeclass_ref nodeClaim of
             None \<Rightarrow> (Inr 0, s)
           | Some name \<Rightarrow>
               (case lab_get_nodeclass E name s of
                  Inl err \<Rightarrow> (case ignore_kube_not_found err of Some err' \<Rightarrow> (Inl err', s) | None \<Rightarrow> (Inr 0, s))
                | Inr nodeClass \<Rightarrow>
                    (case ipr_Get (lab_instances E) False sid s of
                       (Inl err, s1) \<Rightarrow>
                         (case ignore_nodeclaim_not_found err of Some err' \<Rightarrow> (Inl err', s1) | None \<Rightarrow> (Inr 0, s1))
                     | (Inr i, s1) \<Rightarrow>
                         let desired = ManagedLabels nodeClass nodeClaim (lab_clusterName E) in
                         if maps_equal desired (inst_labels i) then (Inr 0, s1)
                         else (case ipr_UpdateLabels (lab_instances E) sid (Some desired) s1 of
                             (Some err, s2) \<Rightarrow>
                               (Inl (wrapf ''updating labels on %q'' [sid] (ignore_nodeclaim_not_found err)), s2)
                           | (None, s2) \<Rightarrow> (Inr 0, s2))))))"

text \<open>The NodeClaims that are handed to the controller; for the others the reconcile does nothing.\<close>

definition Labeling_watches :: "'q nodeclaim \<Rightarrow> bool" where
  "Labeling_watches nodeClaim \<longleftrightarrow> claim_provider_id nodeClaim \<noteq> []"

lemma Labeling_unwatched: "\<not> Labeling_watches nodeClaim \<Longrightarrow> Labeling_Reconcile E nodeClaim s = (Inr 0, s)"
  by (simp add: Labeling_watches_def Labeling_Reconcile_def)

section \<open>Facts\<close>

text \<open>What the reconcile is about: a live NodeClaim with a server of this provider and a NodeClass.\<close>

definition labels_of :: "('q, 's) labeling_env \<Rightarrow> 'q nodeclaim \<Rightarrow> 's \<Rightarrow> (string \<times> string gomap) option" where
  "labels_of E nodeClaim s =
     (if is_zero_time (claim_deletion_timestamp nodeClaim)
      then (case (ParseInstanceID (claim_provider_id nodeClaim), claim_nodeclass_ref nodeClaim) of
              (Inr sid, Some name) \<Rightarrow>
                (case lab_get_nodeclass E name s of
                   Inl _ \<Rightarrow> None
                 | Inr nodeClass \<Rightarrow> Some (sid, ManagedLabels nodeClass nodeClaim (lab_clusterName E)))
            | _ \<Rightarrow> None)
      else None)"

lemma ParseInstanceID_empty: "\<exists>e. ParseInstanceID [] = Inl e"
  using pid.parse_iff [of "[]"] by (cases "ParseInstanceID []") (auto simp: ProviderID_def ProviderIDPrefix_def)

lemma Labeling_cases:
  assumes "labels_of E nodeClaim s = Some (sid, desired)"
  shows "Labeling_Reconcile E nodeClaim s =
     (case ipr_Get (lab_instances E) False sid s of
        (Inl err, s1) \<Rightarrow>
          (case ignore_nodeclaim_not_found err of Some err' \<Rightarrow> (Inl err', s1) | None \<Rightarrow> (Inr 0, s1))
      | (Inr i, s1) \<Rightarrow>
          if maps_equal desired (inst_labels i) then (Inr 0, s1)
          else (case ipr_UpdateLabels (lab_instances E) sid (Some desired) s1 of
              (Some err, s2) \<Rightarrow> (Inl (wrapf ''updating labels on %q'' [sid] (ignore_nodeclaim_not_found err)), s2)
            | (None, s2) \<Rightarrow> (Inr 0, s2)))"
  using assms ParseInstanceID_empty
  by (auto simp: Labeling_Reconcile_def labels_of_def Let_def split: if_splits sum.splits option.splits prod.splits)

lemma Labeling_nothing:
  "labels_of E nodeClaim s = None \<Longrightarrow> snd (Labeling_Reconcile E nodeClaim s) = s"
  by (auto simp: Labeling_Reconcile_def labels_of_def Let_def split: if_splits sum.splits option.splits prod.splits)

context instance_contract
begin

text \<open>One successful update is enough: the next lookup asks the API, and finds the labels.\<close>

lemma relabel_converges:
  assumes "lawful e" "lab_instances E = provider e"
    and "labels_of E nodeClaim s = Some (sid, desired)" "ipr_Get (provider e) False sid s = (Inr i, s1)"
    and "\<not> maps_equal desired (inst_labels i)" "ipr_UpdateLabels (provider e) sid (Some desired) s1 = (None, s2)"
    and "labels_of E nodeClaim s2 = Some (sid, desired)"
    and "ipr_Get (provider e) True sid s2 = (Inr i', s3)" "map_of (inst_labels i') = map_of desired"
  shows "Labeling_Reconcile E nodeClaim s = (Inr 0, s2) \<and> Labeling_Reconcile E nodeClaim s2 = (Inr 0, s3)"
proof -
  have "maps_equal desired (inst_labels i')" using assms(9) by (simp add: maps_equal_iff)
  with relabel_then_get [OF assms(1,6)] assms show ?thesis by (simp add: Labeling_cases)
qed

end

text \<open>The API documents that a PATCH of a server replaces its labels, and that a lookup shows them.\<close>

definition applies_labels :: "'w api \<Rightarrow> bool" where
  "applies_labels A \<longleftrightarrow>
     (\<forall>sid labels w w'. api_UpdateServerLabels A sid (Some labels) w = (None, w') \<longrightarrow>
        (\<exists>server w''. api_GetServer A sid w' = (Inr server, w'')
           \<and> map_of (LabelsFromAPI (get_or [] (srv_labels server))) = map_of labels))"

lemma applied_labels:
  assumes "applies_labels (ip_client E)" "ip_UpdateLabels E sid (Some labels) st = (None, st')"
  shows "\<exists>i st''. ip_Get E True sid st' = (Inr i, st'') \<and> map_of (inst_labels i) = map_of labels"
proof -
  obtain w' where w: "api_UpdateServerLabels (ip_client E) sid (Some labels) (ips_world st) = (None, w')"
      "st' = cache_drop E sid (st\<lparr>ips_world := w'\<rparr>)"
    using assms(2) by (auto simp: ip_UpdateLabels_def split: prod.splits option.splits if_splits)
  obtain server w'' where "api_GetServer (ip_client E) sid w' = (Inr server, w'')"
      "map_of (LabelsFromAPI (get_or [] (srv_labels server))) = map_of labels"
    using assms(1) w(1) unfolding applies_labels_def by blast
  with w(2) show ?thesis by (simp add: ip_Get_skip NewInstance_def)
qed

text \<open>
  C31 The labels of a server converge in one step: when the labels differ and the API accepts the
  replacement, the reconcile succeeds and the next one, for the same NodeClaim and NodeClass,
  looks the server up at the API, sees the desired labels, and changes nothing.
\<close>

theorem Labeling_converges:
  assumes "lab_instances E = lift_provider get put (default_provider IE)"
    and "cache_laws (ip_cache_ops IE)" "part_laws get put" "applies_labels (ip_client IE)"
    and "labels_of E nodeClaim s = Some (sid, desired)" "ipr_Get (lab_instances E) False sid s = (Inr i, s1)"
    and "\<not> maps_equal desired (inst_labels i)" "ipr_UpdateLabels (lab_instances E) sid (Some desired) s1 = (None, s2)"
    and "labels_of E nodeClaim s2 = Some (sid, desired)"
  shows "Labeling_Reconcile E nodeClaim s = (Inr 0, s2)
     \<and> (\<exists>i' s3. Labeling_Reconcile E nodeClaim s2 = (Inr 0, s3) \<and> ipr_Get (lab_instances E) True sid s2 = (Inr i', s3)
          \<and> map_of (inst_labels i') = map_of desired)"
proof -
  have P: "lab_instances E = (case (IE, get, put) of (E, get, put) \<Rightarrow> lift_provider get put (default_provider E))"
    and L: "case (IE, get, put) of (E, get, put) \<Rightarrow> cache_laws (ip_cache_ops E) \<and> part_laws get put"
    using assms(1-3) by simp_all
  obtain st where st: "ip_UpdateLabels IE sid (Some desired) (get s1) = (None, st)" "s2 = put st s1"
    using assms(8) by (auto simp: assms(1) lift_provider_def default_provider_def on_part_Inr)
  obtain i' st' where "ip_Get IE True sid st = (Inr i', st')" "map_of (inst_labels i') = map_of desired"
    using applied_labels [OF assms(4) st(1)] by blast
  moreover have "get s2 = st" using st(2) assms(3) by (simp add: part_laws_def)
  ultimately have g: "ipr_Get (lab_instances E) True sid s2 = (Inr i', put st' s2)" "map_of (inst_labels i') = map_of desired"
    by (simp_all add: assms(1) lift_provider_def default_provider_def on_part_def)
  from lp.relabel_converges [OF L P assms(5) assms(6) [unfolded P] assms(7) assms(8) [unfolded P] assms(9) g(1) [unfolded P] g(2)] g
  show ?thesis by blast
qed

text \<open>
  C32 What the reconcile leaves alone: a NodeClaim that is terminating, not launched, of another
  provider, or without a NodeClass changes nothing at all, and labels that are right already
  are not written again. A server that is gone when its labels are looked up is no error; one
  that disappears just before they are written is one, although the code means to ignore it:
  the error is a format around a nil error.
\<close>

theorem Labeling_errors:
  "(case labels_of E nodeClaim s of
      None \<Rightarrow> snd (Labeling_Reconcile E nodeClaim s) = s
    | Some (sid, desired) \<Rightarrow>
        (case ipr_Get (lab_instances E) False sid s of
           (Inl err, s1) \<Rightarrow>
             snd (Labeling_Reconcile E nodeClaim s) = s1
             \<and> is_ok (fst (Labeling_Reconcile E nodeClaim s)) = is_nodeclaim_not_found err
         | (Inr i, s1) \<Rightarrow>
             if map_of desired = map_of (inst_labels i) then Labeling_Reconcile E nodeClaim s = (Inr 0, s1)
             else (case ipr_UpdateLabels (lab_instances E) sid (Some desired) s1 of
                 (None, s2) \<Rightarrow> Labeling_Reconcile E nodeClaim s = (Inr 0, s2)
               | (Some err, s2) \<Rightarrow>
                   \<not> is_ok (fst (Labeling_Reconcile E nodeClaim s))
                   \<and> (is_nodeclaim_not_found err =
                        (fst (Labeling_Reconcile E nodeClaim s) = Inl (NilWrapf ''updating labels on %q'' [sid]))))))"
proof (cases "labels_of E nodeClaim s")
  case None
  then show ?thesis by (simp add: Labeling_nothing)
next
  case (Some p)
  then show ?thesis
    by (cases p)
       (auto simp: Labeling_cases ignore_nodeclaim_not_found_def maps_equal_iff wrapf_def
          split: prod.splits sum.splits option.splits)
qed

text \<open>An API with one server, whose labels are the world.\<close>

definition label_api :: "string gomap api" where
  "label_api = (failing_api (ApiError 404 [] []))
     \<lparr>api_GetServer := (\<lambda>sid w. (Inr ((listed_server sid ''prod'')\<lparr>srv_labels := LabelsToAPI (Some w)\<rparr>), w)),
      api_UpdateServerLabels := (\<lambda>sid labels w. (None, get_or [] labels))\<rparr>"

definition sample_labeling ::
  "(rat, (unit timed, server_instance timed, string gomap) ip_state) labeling_env" where
  "sample_labeling =
     \<lparr>lab_get_nodeclass = (\<lambda>name s. Inr sample_class),
      lab_instances = lift_provider id (\<lambda>a s. a) (default_provider (sample_ip_env label_api)),
      lab_clusterName = ''prod''\<rparr>"

definition launched_claim :: "rat nodeclaim" where
  "launched_claim = sample_claim\<lparr>claim_provider_id := ProviderID ''s-1''\<rparr>"

lemma label_api_applies: "applies_labels label_api"
  using LabelsFromAPI_ToAPI by (auto simp: applies_labels_def label_api_def get_or_def split: option.splits)

theorem Labeling_converges_witness:
  "\<exists>s2 s3. Labeling_Reconcile sample_labeling launched_claim (sample_ip_state []) = (Inr 0, s2)
     \<and> Labeling_Reconcile sample_labeling launched_claim s2 = (Inr 0, s3)"
proof -
  let ?E = sample_labeling and ?IE = "sample_ip_env label_api" and ?s = "sample_ip_state []"
  let ?desired = "ManagedLabels sample_class launched_claim ''prod''"
  have prov: "lab_instances ?E = lift_provider id (\<lambda>a s. a) (default_provider ?IE)" by (simp add: sample_labeling_def)
  have laws: "cache_laws (ip_cache_ops ?IE)" "applies_labels (ip_client ?IE)"
    by (simp_all add: sample_ip_env_def timed_cache_laws label_api_applies)
  have "ParseInstanceID (ProviderID ''s-1'') = Inr ''s-1''"
    using pid.parse_iff [of "ProviderID ''s-1''" "''s-1''"] by (simp add: instance_id_ok_def)
  then have sub: "labels_of ?E launched_claim s = Some (''s-1'', ?desired)" for s
    by (simp add: labels_of_def launched_claim_def sample_claim_def sample_labeling_def is_zero_time_def)
  obtain i where g: "ip_Get ?IE False ''s-1'' ?s = (Inr i, cache_put ?IE ''s-1'' i ?s)" "inst_labels i = []"
    by (simp add: ip_Get_def sample_ip_env_def sample_ip_state_def label_api_def timed_new timed_cache_laws Let_def
        NewInstance_def LabelsToAPI_def LabelsFromAPI_def get_or_def)
  obtain st where u: "ip_UpdateLabels ?IE ''s-1'' (Some ?desired) (cache_put ?IE ''s-1'' i ?s) = (None, st)"
    by (simp add: ip_UpdateLabels_def sample_ip_env_def label_api_def)
  have "map_of ?desired LabelKeyManagedBy = Some ''prod''"
    by (simp add: ManagedLabels_def Let_def gomap_simps sample_class_def sample_launch_class_def label_key_defs
        launched_claim_def sample_claim_def)
  then have diff: "\<not> maps_equal ?desired (inst_labels i)" using g(2) by (auto simp: maps_equal_iff)
  have get: "ipr_Get (lab_instances ?E) False ''s-1'' ?s = (Inr i, cache_put ?IE ''s-1'' i ?s)"
    using g(1) by (simp add: prov lift_provider_def default_provider_def on_part_def)
  have upd: "ipr_UpdateLabels (lab_instances ?E) ''s-1'' (Some ?desired) (cache_put ?IE ''s-1'' i ?s) = (None, st)"
    using u by (simp add: prov lift_provider_def default_provider_def on_part_def)
  from Labeling_converges [OF prov laws(1) sample_part laws(2) sub get diff upd sub] show ?thesis by blast
qed

end
