(* ===== verification/NodeClassStatus.thy ===== *)
theory NodeClassStatus
  imports Instance
begin

text \<open>
  \<open>pkg/controllers/nodeclass/controller.go\<close>: the availability zones of a NodeClass are resolved
  against the STACKIT API, its specification is validated, and both are reported as conditions.

  The Kubernetes client, the cache package and the condition library are third-party code.
  \<open>ncc_set t status reason message\<close> is the library's setter; it returns the NodeClass with its
  conditions changed. \<open>equality.Semantic.DeepEqual\<close> is equality of the records.
\<close>

section \<open>The controller\<close>

definition resyncPeriod :: int where
  "resyncPeriod = Minute * 5"

definition availabilityZonesCacheKey :: string where
  "availabilityZonesCacheKey = ''availability-zones''"

record ('cv, 'w, 'k) ncc_env =
  ncc_api :: "'w api"
  ncc_region :: string
  ncc_cache_ops :: "('cv, string list) cache_ops"
  ncc_set :: "string \<Rightarrow> condition_status \<Rightarrow> string \<Rightarrow> cond_message \<Rightarrow> nodeclass \<Rightarrow> nodeclass"
  ncc_patch_status :: "nodeclass \<Rightarrow> nodeclass \<Rightarrow> 'k \<Rightarrow> go_error option \<times> 'k"
  ncc_disableDryRun :: bool

record ('cv, 'w, 'k) ncc_state =
  ncs_cache :: 'cv
  ncs_world :: 'w
  ncs_kube :: 'k

text \<open>\<open>SetTrue\<close> uses the type as the reason and no message.\<close>

definition set_true :: "('cv, 'w, 'k) ncc_env \<Rightarrow> string \<Rightarrow> nodeclass \<Rightarrow> nodeclass" where
  "set_true E t = ncc_set E t CondTrue t (Message [] [] None)"

definition listAvailabilityZones ::
  "('cv, 'w, 'k) ncc_env \<Rightarrow> ('cv, 'w, 'k) ncc_state \<Rightarrow> string list result \<times> ('cv, 'w, 'k) ncc_state" where
  "listAvailabilityZones E st =
     (case c_get (ncc_cache_ops E) (ncs_cache st) availabilityZonesCacheKey of
        Some cached \<Rightarrow> (Inr cached, st)
      | None \<Rightarrow>
          (case api_ListAvailabilityZones (ncc_api E) (ncs_world st) of
             (Inl err, w) \<Rightarrow> (Inl err, st\<lparr>ncs_world := w\<rparr>)
           | (Inr zones, w) \<Rightarrow>
               (Inr zones, st\<lparr>ncs_world := w,
                  ncs_cache := c_set (ncc_cache_ops E) availabilityZonesCacheKey zones (ncs_cache st)\<rparr>)))"

fun resolve_loop :: "string list \<Rightarrow> string list \<Rightarrow> availability_zone list \<Rightarrow> string list \<Rightarrow> availability_zone list \<times> string list" where
  "resolve_loop known [] resolved unknown = (resolved, unknown)"
| "resolve_loop known (z # zs) resolved unknown =
     (if z \<notin> set known then resolve_loop known zs resolved (unknown @ [z])
      else resolve_loop known zs (resolved @ [\<lparr>az_id = z\<rparr>]) unknown)"

definition resolveAvailabilityZones ::
  "('cv, 'w, 'k) ncc_env \<Rightarrow> nodeclass \<Rightarrow> ('cv, 'w, 'k) ncc_state
   \<Rightarrow> go_error option \<times> nodeclass \<times> ('cv, 'w, 'k) ncc_state" where
  "resolveAvailabilityZones E nodeClass st =
     (case listAvailabilityZones E st of
        (Inl err, st1) \<Rightarrow>
          (Some (Wrapf ''listing availability zones'' [] err),
           ncc_set E ConditionTypeAvailabilityZonesReady CondUnknown ''AvailabilityZoneResolutionFailed''
             (Message ''Failed to list STACKIT availability zones, %s'' [] (Some err)) nodeClass, st1)
      | (Inr available, st1) \<Rightarrow>
          if available = [] then
            (Some (Errorf ''no availability zones in region %q'' [ncc_region E]),
             ncc_set E ConditionTypeAvailabilityZonesReady CondFalse ''AvailabilityZonesNotFound''
               (Message ''STACKIT reported no availability zones in region %q'' [ncc_region E] None)
               (nodeClass\<lparr>nc_availability_zones := []\<rparr>), st1)
          else
            let requested = spec_availability_zones (nc_spec nodeClass);
                requested = (if requested = [] then available else requested);
                (resolved, unknown) = resolve_loop available requested [] []
            in if unknown \<noteq> [] then
                 (Some (Errorf ''unknown availability zones %v in region %q''
                    [''['' @ join_with '' '' unknown @ '']'', ncc_region E]),
                  ncc_set E ConditionTypeAvailabilityZonesReady CondFalse ''AvailabilityZonesNotFound''
                    (Message ''Availability zones not present in region %q: %s'' [ncc_region E, PrettySlice unknown 5] None)
                    (nodeClass\<lparr>nc_availability_zones := []\<rparr>), st1)
               else (None, set_true E ConditionTypeAvailabilityZonesReady (nodeClass\<lparr>nc_availability_zones := resolved\<rparr>), st1))"

definition validateNetworking :: "nodeclass \<Rightarrow> go_error option" where
  "validateNetworking nodeClass =
     (let spec = spec_networking (nc_spec nodeClass);
          hasNetwork = (case net_network_id spec of None \<Rightarrow> False | Some n \<Rightarrow> n \<noteq> []);
          hasNICs = length (net_nic_ids spec) > 0
      in if hasNetwork \<and> hasNICs
         then Some (Errorf ''networking: set exactly one of networkID or nicIDs, not both'' [])
         else if \<not> hasNetwork \<and> \<not> hasNICs
         then Some (Errorf ''networking: one of networkID or nicIDs is required'' [])
         else if hasNICs \<and> length (net_nic_ids spec) > 1
         then Some (Errorf ''networking.nicIDs: only one NIC may be given, since a NIC cannot be shared between servers'' [])
         else None)"

definition validate :: "('cv, 'w, 'k) ncc_env \<Rightarrow> nodeclass \<Rightarrow> go_error option \<times> nodeclass" where
  "validate E nodeClass =
     (case ValidateLabels (spec_labels (nc_spec nodeClass)) of
        Some err \<Rightarrow>
          (Some err, ncc_set E ConditionTypeValidationSucceeded CondFalse ''LabelValidationFailed''
             (Message ''%s'' [] (Some err)) nodeClass)
      | None \<Rightarrow>
          (case validateNetworking nodeClass of
             Some err \<Rightarrow>
               (Some err, ncc_set E ConditionTypeValidationSucceeded CondFalse ''NetworkValidationFailed''
                  (Message ''%s'' [] (Some err)) nodeClass)
           | None \<Rightarrow> (None, set_true E ConditionTypeValidationSucceeded nodeClass)))"

text \<open>The loop at the end of \<open>Reconcile\<close>: the first error worth a retry.\<close>

fun first_retryable :: "go_error option list \<Rightarrow> go_error option" where
  "first_retryable [] = None"
| "first_retryable (e # es) =
     (case e of None \<Rightarrow> first_retryable es
      | Some err \<Rightarrow> if IsRetryable err then Some err else first_retryable es)"

definition NodeClass_Reconcile ::
  "('cv, 'w, 'k) ncc_env \<Rightarrow> nodeclass \<Rightarrow> ('cv, 'w, 'k) ncc_state
   \<Rightarrow> reconciled \<times> nodeclass \<times> ('cv, 'w, 'k) ncc_state" where
  "NodeClass_Reconcile E nodeClass st =
     (if \<not> is_zero_time (nc_deletion_timestamp nodeClass) then (Inr 0, nodeClass, st)
      else
        let stored = nodeClass;
            (zoneErr, nodeClass, st) = resolveAvailabilityZones E nodeClass st;
            (validationErr, nodeClass) = validate E nodeClass;
            finish = (\<lambda>st. case first_retryable [zoneErr, validationErr] of
                Some err \<Rightarrow> (Inl err, nodeClass, st) | None \<Rightarrow> (Inr resyncPeriod, nodeClass, st))
        in if stored \<noteq> nodeClass then
             (case ncc_patch_status E stored nodeClass (ncs_kube st) of
                (Some err, k) \<Rightarrow>
                  (case ignore_kube_not_found err of
                     Some err' \<Rightarrow> (Inl err', nodeClass, st\<lparr>ncs_kube := k\<rparr>)
                   | None \<Rightarrow> (Inr 0, nodeClass, st\<lparr>ncs_kube := k\<rparr>))
              | (None, k) \<Rightarrow> finish (st\<lparr>ncs_kube := k\<rparr>))
           else finish st)"

section \<open>The condition library\<close>

text \<open>
  What the controller relies on: a setter writes the condition of its type, observed at the
  NodeClass's generation, and keeps every other condition but \<open>Ready\<close> that was observed at this
  generation; a condition that is missing or was observed earlier it keeps or makes Unknown, as
  the accessor \<open>StatusConditions()\<close> does with the dependents of \<open>Ready\<close> when it initialises them. It
  touches nothing but the conditions, depends on nothing else, and writing the same conditions
  again changes nothing.
\<close>

definition cond_of :: "string \<Rightarrow> nodeclass \<Rightarrow> condition option" where
  "cond_of t nc = find (\<lambda>c. cond_type c = t) (nc_conditions nc)"

definition claw_set :: "(string \<Rightarrow> condition_status \<Rightarrow> string \<Rightarrow> cond_message \<Rightarrow> nodeclass \<Rightarrow> nodeclass) \<Rightarrow> bool" where
  "claw_set S \<longleftrightarrow>
     (\<forall>t st r m nc. cond_of t (S t st r m nc) = Some
        \<lparr>cond_type = t, cond_status = st, cond_reason = r, cond_message = m, cond_observed_generation = nc_generation nc\<rparr>)
     \<and> (\<forall>t t' st r m nc. t' \<noteq> t \<and> t' \<noteq> ''Ready'' \<longrightarrow>
          cond_of t' (S t st r m nc) = cond_of t' nc
          \<or> map_option cond_observed_generation (cond_of t' nc) \<noteq> Some (nc_generation nc)
            \<and> map_option cond_status (cond_of t' (S t st r m nc)) = Some CondUnknown)"

definition claw_frame :: "(string \<Rightarrow> condition_status \<Rightarrow> string \<Rightarrow> cond_message \<Rightarrow> nodeclass \<Rightarrow> nodeclass) \<Rightarrow> bool" where
  "claw_frame S \<longleftrightarrow>
     (\<forall>t st r m nc. S t st r m nc = nc\<lparr>nc_conditions := nc_conditions (S t st r m nc)\<rparr>)
     \<and> (\<forall>t st r m nc z. S t st r m (nc\<lparr>nc_availability_zones := z\<rparr>) = (S t st r m nc)\<lparr>nc_availability_zones := z\<rparr>)"

definition claw_again :: "(string \<Rightarrow> condition_status \<Rightarrow> string \<Rightarrow> cond_message \<Rightarrow> nodeclass \<Rightarrow> nodeclass) \<Rightarrow> bool" where
  "claw_again S \<longleftrightarrow>
     (\<forall>t t' st st' r r' m m' nc. t \<noteq> t' \<longrightarrow>
        (let nc' = S t' st' r' m' (S t st r m nc) in S t st r m nc' = nc' \<and> S t' st' r' m' nc' = nc'))"

definition cond_laws :: "(string \<Rightarrow> condition_status \<Rightarrow> string \<Rightarrow> cond_message \<Rightarrow> nodeclass \<Rightarrow> nodeclass) \<Rightarrow> bool" where
  "cond_laws S \<longleftrightarrow> claw_set S \<and> claw_frame S \<and> claw_again S"

lemma set_keeps:
  assumes "cond_laws S"
  shows "nc_spec (S t st r m nc) = nc_spec nc" "nc_availability_zones (S t st r m nc) = nc_availability_zones nc"
    "nc_generation (S t st r m nc) = nc_generation nc" "nc_deletion_timestamp (S t st r m nc) = nc_deletion_timestamp nc"
    "nc_name (S t st r m nc) = nc_name nc"
proof -
  have "S t st r m nc = nc\<lparr>nc_conditions := nc_conditions (S t st r m nc)\<rparr>"
    using assms unfolding cond_laws_def claw_frame_def by blast
  then obtain cs where "S t st r m nc = nc\<lparr>nc_conditions := cs\<rparr>" by blast
  then show "nc_spec (S t st r m nc) = nc_spec nc" "nc_availability_zones (S t st r m nc) = nc_availability_zones nc"
    "nc_generation (S t st r m nc) = nc_generation nc" "nc_deletion_timestamp (S t st r m nc) = nc_deletion_timestamp nc"
    "nc_name (S t st r m nc) = nc_name nc"
    by simp_all
qed

lemma set_cond:
  assumes "cond_laws S"
  shows "cond_of t (S t st r m nc) = Some
      \<lparr>cond_type = t, cond_status = st, cond_reason = r, cond_message = m, cond_observed_generation = nc_generation nc\<rparr>"
    "t' \<noteq> t \<Longrightarrow> t' \<noteq> ''Ready'' \<Longrightarrow> map_option cond_observed_generation (cond_of t' nc) = Some (nc_generation nc) \<Longrightarrow>
       cond_of t' (S t st r m nc) = cond_of t' nc"
  using assms unfolding cond_laws_def claw_set_def by blast+

lemma set_zones: "cond_laws S \<Longrightarrow> S t st r m (nc\<lparr>nc_availability_zones := z\<rparr>) = (S t st r m nc)\<lparr>nc_availability_zones := z\<rparr>"
  unfolding cond_laws_def claw_frame_def by blast

lemma set_again:
  assumes "cond_laws S" "t \<noteq> t'"
  shows "S t st r m (S t' st' r' m' (S t st r m nc)) = S t' st' r' m' (S t st r m nc)"
    "S t' st' r' m' (S t' st' r' m' (S t st r m nc)) = S t' st' r' m' (S t st r m nc)"
  using assms unfolding cond_laws_def claw_again_def by (auto simp: Let_def)

section \<open>Facts about resolving and validating\<close>

lemmas cond_type_defs = ConditionTypeAvailabilityZonesReady_def ConditionTypeValidationSucceeded_def

lemma resolve_loop_spec:
  "resolve_loop known zs resolved unknown =
     (resolved @ map (\<lambda>z. \<lparr>az_id = z\<rparr>) (filter (\<lambda>z. z \<in> set known) zs), unknown @ filter (\<lambda>z. z \<notin> set known) zs)"
  by (induction zs arbitrary: resolved unknown) simp_all

text \<open>
  Resolving sets the zones of an answered NodeClass and one condition, and both depend on the
  specification, the region and the answer alone.
\<close>

fun zones_verdict ::
  "string \<Rightarrow> string list result \<Rightarrow> nodeclass_spec \<Rightarrow> go_error option \<times> availability_zone list option \<times> condition_status \<times> string \<times> cond_message" where
  "zones_verdict region (Inl err) spec =
     (Some (Wrapf ''listing availability zones'' [] err), None, CondUnknown, ''AvailabilityZoneResolutionFailed'',
      Message ''Failed to list STACKIT availability zones, %s'' [] (Some err))"
| "zones_verdict region (Inr available) spec =
     (let requested = (if spec_availability_zones spec = [] then available else spec_availability_zones spec);
          unknown = filter (\<lambda>z. z \<notin> set available) requested
      in if available = []
         then (Some (Errorf ''no availability zones in region %q'' [region]), Some [], CondFalse, ''AvailabilityZonesNotFound'',
               Message ''STACKIT reported no availability zones in region %q'' [region] None)
         else if unknown \<noteq> []
         then (Some (Errorf ''unknown availability zones %v in region %q'' [''['' @ join_with '' '' unknown @ '']'', region]), Some [],
               CondFalse, ''AvailabilityZonesNotFound'',
               Message ''Availability zones not present in region %q: %s'' [region, PrettySlice unknown 5] None)
         else (None, Some (map (\<lambda>z. \<lparr>az_id = z\<rparr>) requested), CondTrue, ConditionTypeAvailabilityZonesReady, Message [] [] None))"

definition put_zones :: "availability_zone list option \<Rightarrow> nodeclass \<Rightarrow> nodeclass" where
  "put_zones zs nc = (case zs of None \<Rightarrow> nc | Some z \<Rightarrow> nc\<lparr>nc_availability_zones := z\<rparr>)"

lemma resolve_verdict:
  "resolveAvailabilityZones E nc st =
     (let (listed, st1) = listAvailabilityZones E st;
          (err, zs, status, reason, msg) = zones_verdict (ncc_region E) listed (nc_spec nc)
      in (err, ncc_set E ConditionTypeAvailabilityZonesReady status reason msg (put_zones zs nc), st1))"
proof -
  obtain listed st1 where l: "listAvailabilityZones E st = (listed, st1)" by force
  show ?thesis
  proof (cases listed)
    case (Inl err)
    with l show ?thesis by (simp add: resolveAvailabilityZones_def put_zones_def)
  next
    case (Inr available)
    let ?requested = "if spec_availability_zones (nc_spec nc) = [] then available else spec_availability_zones (nc_spec nc)"
    let ?unknown = "filter (\<lambda>z. z \<notin> set available) ?requested"
    have "resolve_loop available ?requested [] [] =
        (map (\<lambda>z. \<lparr>az_id = z\<rparr>) (filter (\<lambda>z. z \<in> set available) ?requested), ?unknown)"
      by (simp add: resolve_loop_spec)
    moreover have "?unknown = [] \<Longrightarrow> filter (\<lambda>z. z \<in> set available) ?requested = ?requested"
      by (simp add: filter_empty_conv)
    ultimately show ?thesis
      using l Inr by (simp only: resolveAvailabilityZones_def Let_def prod.case sum.case zones_verdict.simps put_zones_def set_true_def option.case
          split: if_split) auto
  qed
qed

fun validation_verdict :: "nodeclass \<Rightarrow> go_error option \<times> condition_status \<times> string \<times> cond_message" where
  "validation_verdict nc =
     (case ValidateLabels (spec_labels (nc_spec nc)) of
        Some err \<Rightarrow> (Some err, CondFalse, ''LabelValidationFailed'', Message ''%s'' [] (Some err))
      | None \<Rightarrow>
          (case validateNetworking nc of
             Some err \<Rightarrow> (Some err, CondFalse, ''NetworkValidationFailed'', Message ''%s'' [] (Some err))
           | None \<Rightarrow> (None, CondTrue, ConditionTypeValidationSucceeded, Message [] [] None)))"

lemma validate_verdict:
  "validate E nc =
     (let (err, status, reason, msg) = validation_verdict nc
      in (err, ncc_set E ConditionTypeValidationSucceeded status reason msg nc))"
  by (simp add: validate_def set_true_def split: option.splits)

lemma validation_verdict_keeps:
  assumes "nc_spec nc' = nc_spec nc"
  shows "validation_verdict nc' = validation_verdict nc"
proof -
  have "validateNetworking nc' = validateNetworking nc" using assms by (simp add: validateNetworking_def)
  with assms show ?thesis by (simp cong del: option.case_cong_weak)
qed

declare zones_verdict.simps [simp del] validation_verdict.simps [simp del]

text \<open>Both steps together: what a reconcile makes of a live NodeClass, and what it answers.\<close>

definition reconciled_class :: "('cv, 'w, 'k) ncc_env \<Rightarrow> string list result \<Rightarrow> nodeclass \<Rightarrow> nodeclass" where
  "reconciled_class E listed nc =
     (let (_, zs, status, reason, msg) = zones_verdict (ncc_region E) listed (nc_spec nc);
          (_, status', reason', msg') = validation_verdict nc
      in ncc_set E ConditionTypeValidationSucceeded status' reason' msg'
           (ncc_set E ConditionTypeAvailabilityZonesReady status reason msg (put_zones zs nc)))"

lemma put_zones_keeps [simp]:
  "nc_spec (put_zones zs nc) = nc_spec nc" "nc_generation (put_zones zs nc) = nc_generation nc"
  "nc_name (put_zones zs nc) = nc_name nc" "nc_deletion_timestamp (put_zones zs nc) = nc_deletion_timestamp nc"
  by (simp_all add: put_zones_def split: option.splits)

lemma Reconcile_class:
  assumes "cond_laws (ncc_set E)" "is_zero_time (nc_deletion_timestamp nc)"
    and "listAvailabilityZones E st = (listed, st1)"
  shows "NodeClass_Reconcile E nc st =
     (let nc' = reconciled_class E listed nc;
          finish = (\<lambda>st. case first_retryable [fst (zones_verdict (ncc_region E) listed (nc_spec nc)), fst (validation_verdict nc)] of
                Some err \<Rightarrow> (Inl err, nc', st) | None \<Rightarrow> (Inr resyncPeriod, nc', st))
      in if nc \<noteq> nc' then
           (case ncc_patch_status E nc nc' (ncs_kube st1) of
              (Some err, k) \<Rightarrow>
                (case ignore_kube_not_found err of
                   Some err' \<Rightarrow> (Inl err', nc', st1\<lparr>ncs_kube := k\<rparr>) | None \<Rightarrow> (Inr 0, nc', st1\<lparr>ncs_kube := k\<rparr>))
            | (None, k) \<Rightarrow> finish (st1\<lparr>ncs_kube := k\<rparr>))
         else finish st1)"
proof -
  obtain err zs status reason msg where z: "zones_verdict (ncc_region E) listed (nc_spec nc) = (err, zs, status, reason, msg)"
    by (rule prod_cases5)
  obtain err' status' reason' msg' where v: "validation_verdict nc = (err', status', reason', msg')"
    by (rule prod_cases4)
  let ?nc1 = "ncc_set E ConditionTypeAvailabilityZonesReady status reason msg (put_zones zs nc)"
  have "validation_verdict ?nc1 = (err', status', reason', msg')"
    using v validation_verdict_keeps [of ?nc1 nc] by (simp add: set_keeps [OF assms(1)])
  then show ?thesis
    using assms(2,3) z v
    by (simp only: NodeClass_Reconcile_def resolve_verdict validate_verdict reconciled_class_def Let_def prod.case fst_conv
        not_False_eq_True if_False simp_thms)
qed

lemma two_types: "ConditionTypeAvailabilityZonesReady \<noteq> ConditionTypeValidationSucceeded"
  "ConditionTypeAvailabilityZonesReady \<noteq> ''Ready''" "ConditionTypeValidationSucceeded \<noteq> ''Ready''"
  by (simp_all add: cond_type_defs)

lemma reconciled_again:
  assumes "cond_laws (ncc_set E)"
  shows "reconciled_class E listed (reconciled_class E listed nc) = reconciled_class E listed nc"
proof -
  let ?S = "ncc_set E"
  obtain err zs status reason msg where z: "zones_verdict (ncc_region E) listed (nc_spec nc) = (err, zs, status, reason, msg)"
    by (rule prod_cases5)
  obtain err' status' reason' msg' where v: "validation_verdict nc = (err', status', reason', msg')"
    by (rule prod_cases4)
  let ?nc1 = "?S ConditionTypeAvailabilityZonesReady status reason msg (put_zones zs nc)"
  let ?nc2 = "?S ConditionTypeValidationSucceeded status' reason' msg' ?nc1"
  have spec: "nc_spec ?nc2 = nc_spec nc" by (simp add: set_keeps [OF assms])
  have "put_zones zs ?nc2 = ?nc2"
    by (cases zs) (simp_all add: put_zones_def set_zones [OF assms])
  then have "?S ConditionTypeValidationSucceeded status' reason' msg'
      (?S ConditionTypeAvailabilityZonesReady status reason msg (put_zones zs ?nc2)) = ?nc2"
    using set_again [OF assms] two_types(1) by metis
  then show ?thesis
    using z v spec validation_verdict_keeps [OF spec] by (simp add: reconciled_class_def)
qed

text \<open>What the verdicts say, and where a reconciled NodeClass shows them.\<close>

lemma zones_status:
  assumes "zones_verdict region listed spec = (err, zs, status, reason, msg)"
  shows "case listed of
        Inl _ \<Rightarrow> status = CondUnknown \<and> zs = None
      | Inr available \<Rightarrow>
          if available \<noteq> [] \<and> set (spec_availability_zones spec) \<subseteq> set available
          then status = CondTrue \<and> zs = Some (map (\<lambda>z. \<lparr>az_id = z\<rparr>)
                (if spec_availability_zones spec = [] then available else spec_availability_zones spec))
          else status = CondFalse \<and> zs = Some []"
  using assms by (cases listed) (auto simp: zones_verdict.simps Let_def filter_empty_conv split: if_splits)

lemma validation_status:
  "fst (snd (validation_verdict nc)) =
     (if ValidateLabels (spec_labels (nc_spec nc)) = None \<and> validateNetworking nc = None then CondTrue else CondFalse)"
  by (simp add: validation_verdict.simps split: option.split)

lemma networking_count:
  "validateNetworking nc = None \<longleftrightarrow> length (net_nic_ids (spec_networking (nc_spec nc))) =
     (if get_or [] (net_network_id (spec_networking (nc_spec nc))) = [] then 1 else 0)"
  by (cases "net_nic_ids (spec_networking (nc_spec nc))")
     (auto simp: validateNetworking_def get_or_def Let_def split: option.splits)

lemma reconciled_conditions:
  fixes E :: "('cv, 'w, 'k) ncc_env"
  assumes "cond_laws (ncc_set E)"
  shows "map_option cond_status (cond_of ConditionTypeAvailabilityZonesReady (reconciled_class E listed nc)) =
      Some (fst (snd (snd (zones_verdict (ncc_region E) listed (nc_spec nc)))))"
    "map_option cond_status (cond_of ConditionTypeValidationSucceeded (reconciled_class E listed nc)) =
      Some (fst (snd (validation_verdict nc)))"
    "nc_spec (reconciled_class E listed nc) = nc_spec nc"
    "nc_availability_zones (reconciled_class E listed nc) =
      nc_availability_zones (put_zones (fst (snd (zones_verdict (ncc_region E) listed (nc_spec nc)))) nc)"
  using two_types by (simp_all add: reconciled_class_def split_beta Let_def set_cond [OF assms] set_keeps [OF assms])

lemma reconciled_zones:
  fixes E :: "('cv, 'w, 'k) ncc_env"
  assumes "cond_laws (ncc_set E)"
  shows "case listed of
        Inl _ \<Rightarrow> map_option cond_status (cond_of ConditionTypeAvailabilityZonesReady (reconciled_class E listed nc)) = Some CondUnknown
                 \<and> nc_availability_zones (reconciled_class E listed nc) = nc_availability_zones nc
      | Inr available \<Rightarrow>
          if available \<noteq> [] \<and> set (spec_availability_zones (nc_spec nc)) \<subseteq> set available
          then map_option cond_status (cond_of ConditionTypeAvailabilityZonesReady (reconciled_class E listed nc)) = Some CondTrue
            \<and> availability_zone_ids (reconciled_class E listed nc) =
                (if spec_availability_zones (nc_spec nc) = [] then available else spec_availability_zones (nc_spec nc))
          else map_option cond_status (cond_of ConditionTypeAvailabilityZonesReady (reconciled_class E listed nc)) = Some CondFalse
            \<and> availability_zone_ids (reconciled_class E listed nc) = []"
proof -
  obtain err zs status reason msg where z: "zones_verdict (ncc_region E) listed (nc_spec nc) = (err, zs, status, reason, msg)"
    by (rule prod_cases5)
  note c = reconciled_conditions(1,4) [OF assms, where listed = listed and nc = nc, unfolded z, simplified]
  show ?thesis
  proof (cases listed)
    case (Inl err)
    with zones_status [OF z] c show ?thesis by (simp add: put_zones_def)
  next
    case (Inr available)
    show ?thesis
    proof (cases "available \<noteq> [] \<and> set (spec_availability_zones (nc_spec nc)) \<subseteq> set available")
      case True
      with zones_status [OF z] c Inr show ?thesis by (simp add: put_zones_def availability_zone_ids_def comp_def)
    next
      case False
      then have "(available \<noteq> [] \<and> set (spec_availability_zones (nc_spec nc)) \<subseteq> set available) = False" by simp
      with zones_status [OF z] c Inr show ?thesis by (simp only: sum.case if_False) (simp add: put_zones_def availability_zone_ids_def)
    qed
  qed
qed

section \<open>Properties\<close>

text \<open>
  C18 What a NodeClass reports about its zones: the condition is Unknown and the zones are kept
  when STACKIT could not be asked; it is True exactly when STACKIT has zones and every zone the
  specification names is one of them, and then the zones are those named, in that order, or
  all of them when it names none; otherwise it is False and there are no zones. Validation is
  True exactly for labels that may be stamped and one network or one NIC, whatever the zones
  are, and the specification is not touched.
\<close>

theorem NodeClass_conditions:
  assumes "cond_laws (ncc_set E)" "is_zero_time (nc_deletion_timestamp nc)"
    and "NodeClass_Reconcile E nc st = (r, nc', st')"
  shows "(case fst (listAvailabilityZones E st) of
        Inl _ \<Rightarrow> map_option cond_status (cond_of ConditionTypeAvailabilityZonesReady nc') = Some CondUnknown
                 \<and> nc_availability_zones nc' = nc_availability_zones nc
      | Inr available \<Rightarrow>
          if available \<noteq> [] \<and> set (spec_availability_zones (nc_spec nc)) \<subseteq> set available
          then map_option cond_status (cond_of ConditionTypeAvailabilityZonesReady nc') = Some CondTrue
            \<and> availability_zone_ids nc' =
                (if spec_availability_zones (nc_spec nc) = [] then available else spec_availability_zones (nc_spec nc))
          else map_option cond_status (cond_of ConditionTypeAvailabilityZonesReady nc') = Some CondFalse
            \<and> availability_zone_ids nc' = [])
     \<and> map_option cond_status (cond_of ConditionTypeValidationSucceeded nc') =
         Some (if ValidateLabels (spec_labels (nc_spec nc)) = None
                  \<and> (length (net_nic_ids (spec_networking (nc_spec nc))) =
                      (if get_or [] (net_network_id (spec_networking (nc_spec nc))) = [] then 1 else 0))
               then CondTrue else CondFalse)
     \<and> nc_spec nc' = nc_spec nc"
proof -
  obtain listed st1 where l: "listAvailabilityZones E st = (listed, st1)" by (rule prod.exhaust)
  have "nc' = reconciled_class E listed nc"
    using assms(3) unfolding Reconcile_class [OF assms(1,2) l]
    by (auto simp: Let_def split: if_splits prod.splits option.splits)
  then show ?thesis
    using reconciled_zones [OF assms(1), of listed nc]
    by (simp only: l fst_conv reconciled_conditions(2,3) [OF assms(1)] validation_status networking_count)
qed

text \<open>
  The controller comes to rest: when STACKIT answered, the next reconcile of the NodeClass it
  produced answers the same from the cache, calls neither STACKIT nor Kubernetes, and leaves the
  NodeClass as it is.
\<close>

lemma NodeClass_steady:
  assumes "cond_laws (ncc_set E)" "cache_laws (ncc_cache_ops E)" "is_zero_time (nc_deletion_timestamp nc)"
    and "is_ok (fst (listAvailabilityZones E st))" "NodeClass_Reconcile E nc st = (Inr resyncPeriod, nc1, st1)"
  shows "NodeClass_Reconcile E nc1 st1 = (Inr resyncPeriod, nc1, st1)"
proof -
  obtain listed st0 where l: "listAvailabilityZones E st = (listed, st0)" by force
  obtain zones where zones: "listed = Inr zones" using assms(4) l by (cases listed) auto
  have "c_get (ncc_cache_ops E) (ncs_cache st0) availabilityZonesCacheKey = Some zones"
    using l zones assms(2) by (auto simp: listAvailabilityZones_def split: option.splits prod.splits sum.splits)
  moreover have st1: "ncs_cache st1 = ncs_cache st0" "nc1 = reconciled_class E listed nc"
    and quiet: "first_retryable [fst (zones_verdict (ncc_region E) listed (nc_spec nc)), fst (validation_verdict nc)] = None"
    using assms(5) unfolding Reconcile_class [OF assms(1,3) l]
    by (auto simp: Let_def resyncPeriod_def Minute_def Second_def simp del: first_retryable.simps
        split: if_splits prod.splits option.splits)
  ultimately have l1: "listAvailabilityZones E st1 = (listed, st1)"
    using zones by (simp add: listAvailabilityZones_def)
  have spec: "nc_spec nc1 = nc_spec nc" "nc_deletion_timestamp nc1 = nc_deletion_timestamp nc"
    by (simp_all add: st1(2) reconciled_class_def split_beta set_keeps [OF assms(1)])
  then have live: "is_zero_time (nc_deletion_timestamp nc1)" using assms(3) by simp
  have "reconciled_class E listed nc1 = nc1" using reconciled_again [OF assms(1)] st1(2) by simp
  then show ?thesis
    unfolding Reconcile_class [OF assms(1) live l1]
    using quiet by (simp add: Let_def spec(1) validation_verdict_keeps [OF spec(1)] del: first_retryable.simps)
qed

text \<open>
  C19 What the controller validates is what a launch needs: for a NodeClass that passes
  validation, building the request for a server fails only when the server's name would be too
  long, and the labels it stamps keep the controller's own.
\<close>

theorem validated_launches:
  assumes "fst (validate E nodeClass) = None"
  shows "is_ok (createPayload nodeClass nodeClaim it zone labels) = is_ok (serverName nodeClass nodeClaim)
     \<and> list_all (\<lambda>k. map_of (spec_labels (nc_spec nodeClass)) k = None) ManagedLabelKeys"
proof -
  have v: "ValidateLabels (spec_labels (nc_spec nodeClass)) = None" "validateNetworking nodeClass = None"
    using assms by (auto simp: validate_def split: option.splits)
  have "is_ok (networking nodeClass)"
    using v(2) by (auto simp: validateNetworking_def networking_def Let_def split: if_splits option.splits)
  then have "is_ok (createPayload nodeClass nodeClaim it zone labels) = is_ok (serverName nodeClass nodeClaim)"
    by (auto simp: createPayload_def Let_def is_ok_iff split: sum.splits)
  moreover have "map_of (spec_labels (nc_spec nodeClass)) k = None" if "k \<in> set ManagedLabelKeys" for k
    using ValidateLabels_entry [OF v(1), of k] that
    by (cases "map_of (spec_labels (nc_spec nodeClass)) k") (auto simp: label_ok_def)
  ultimately show ?thesis by (auto simp: list_all_iff)
qed

section \<open>An instance of the condition library\<close>

text \<open>Conditions replaced in place or appended, without \<open>Ready\<close>; for the concrete inputs.\<close>

fun upsert :: "condition \<Rightarrow> condition list \<Rightarrow> condition list" where
  "upsert c [] = [c]"
| "upsert c (d # ds) = (if cond_type d = cond_type c then c # ds else d # upsert c ds)"

definition simple_set :: "string \<Rightarrow> condition_status \<Rightarrow> string \<Rightarrow> cond_message \<Rightarrow> nodeclass \<Rightarrow> nodeclass" where
  "simple_set t st r m nc = nc\<lparr>nc_conditions := upsert
     \<lparr>cond_type = t, cond_status = st, cond_reason = r, cond_message = m, cond_observed_generation = nc_generation nc\<rparr>
     (nc_conditions nc)\<rparr>"

lemma find_upsert: "find (\<lambda>c. cond_type c = t) (upsert d cs) = (if cond_type d = t then Some d else find (\<lambda>c. cond_type c = t) cs)"
  by (induction cs) auto

lemma upsert_same: "find (\<lambda>c. cond_type c = cond_type d) cs = Some d \<Longrightarrow> upsert d cs = cs"
  by (induction cs) (auto split: if_splits)

lemma upsert_again:
  "cond_type d \<noteq> cond_type e \<Longrightarrow> upsert d (upsert e (upsert d cs)) = upsert e (upsert d cs)"
  "upsert e (upsert e cs) = upsert e cs"
  by (rule upsert_same, simp add: find_upsert)+

lemma simple_set_laws: "cond_laws simple_set"
  unfolding cond_laws_def
proof (intro conjI)
  show "claw_set simple_set" by (simp add: claw_set_def simple_set_def cond_of_def find_upsert)
  show "claw_frame simple_set" by (simp add: claw_frame_def simple_set_def)
  show "claw_again simple_set"
    by (simp add: claw_again_def Let_def simple_set_def upsert_again)
qed

text \<open>
  The laws also hold for a setter that first initialises the dependents of \<open>Ready\<close>: those that are
  missing or were observed at another generation become Unknown.
\<close>

definition current :: "string \<Rightarrow> nodeclass \<Rightarrow> bool" where
  "current t nc \<longleftrightarrow> map_option cond_observed_generation (cond_of t nc) = Some (nc_generation nc)"

definition init_one :: "string \<Rightarrow> nodeclass \<Rightarrow> nodeclass" where
  "init_one t nc =
     (if current t nc then nc else simple_set t CondUnknown ''AwaitingReconciliation'' (Message ''object is awaiting reconciliation'' [] None) nc)"

definition init_set :: "string \<Rightarrow> condition_status \<Rightarrow> string \<Rightarrow> cond_message \<Rightarrow> nodeclass \<Rightarrow> nodeclass" where
  "init_set t st r m nc =
     simple_set t st r m (init_one ConditionTypeValidationSucceeded (init_one ConditionTypeAvailabilityZonesReady nc))"

lemma simple_set_current:
  "nc_generation (simple_set t st r m nc) = nc_generation nc"
  "cond_of t' (simple_set t st r m nc) = (if t' = t then Some
      \<lparr>cond_type = t, cond_status = st, cond_reason = r, cond_message = m, cond_observed_generation = nc_generation nc\<rparr>
      else cond_of t' nc)"
  "current t' (simple_set t st r m nc) \<longleftrightarrow> t' = t \<or> current t' nc"
  by (auto simp: current_def simple_set_def cond_of_def find_upsert)

lemma init_one_current:
  "nc_generation (init_one t nc) = nc_generation nc" "current t' (init_one t nc) \<longleftrightarrow> t' = t \<or> current t' nc"
  "current t nc \<Longrightarrow> init_one t nc = nc"
  by (auto simp: init_one_def simple_set_current)

lemma init_one_rest:
  "\<exists>cs. init_one t nc = nc\<lparr>nc_conditions := cs\<rparr>"
  "init_one t (nc\<lparr>nc_availability_zones := z\<rparr>) = (init_one t nc)\<lparr>nc_availability_zones := z\<rparr>"
proof -
  have "nc = nc\<lparr>nc_conditions := nc_conditions nc\<rparr>" by simp
  then show "\<exists>cs. init_one t nc = nc\<lparr>nc_conditions := cs\<rparr>" unfolding init_one_def simple_set_def by metis
  have "current t (nc\<lparr>nc_availability_zones := z\<rparr>) = current t nc" by (simp add: current_def cond_of_def)
  then show "init_one t (nc\<lparr>nc_availability_zones := z\<rparr>) = (init_one t nc)\<lparr>nc_availability_zones := z\<rparr>"
    by (simp add: init_one_def simple_set_def)
qed

lemma init_one_cond:
  "cond_of t' (init_one t nc) = cond_of t' nc
   \<or> \<not> current t' nc \<and> map_option cond_status (cond_of t' (init_one t nc)) = Some CondUnknown"
  by (auto simp: init_one_def simple_set_current)

lemma simple_set_again:
  "t \<noteq> t' \<Longrightarrow> simple_set t st r m (simple_set t' st' r' m' (simple_set t st r m nc)) = simple_set t' st' r' m' (simple_set t st r m nc)"
  "simple_set t' st' r' m' (simple_set t' st' r' m' nc) = simple_set t' st' r' m' nc"
  using upsert_again [where cs = "nc_conditions nc"] by (simp_all add: simple_set_def)

lemma init_set_current:
  "current ConditionTypeAvailabilityZonesReady nc \<Longrightarrow> current ConditionTypeValidationSucceeded nc \<Longrightarrow>
     init_set t st r m nc = simple_set t st r m nc"
  "current ConditionTypeAvailabilityZonesReady (init_set t st r m nc) \<and> current ConditionTypeValidationSucceeded (init_set t st r m nc)"
  by (simp_all add: init_set_def init_one_current simple_set_current)

lemma init_set_laws: "cond_laws init_set"
  unfolding cond_laws_def
proof (intro conjI)
  let ?Z = ConditionTypeAvailabilityZonesReady and ?V = ConditionTypeValidationSucceeded
  have other: "cond_of t' (init_one ?V (init_one ?Z nc)) = cond_of t' nc
      \<or> \<not> current t' nc \<and> map_option cond_status (cond_of t' (init_one ?V (init_one ?Z nc))) = Some CondUnknown" for t' nc
    using init_one_cond [of t' ?V "init_one ?Z nc"] init_one_cond [of t' ?Z nc] init_one_current(2) [of t' ?Z nc]
    by auto
  show "claw_set init_set"
    unfolding claw_set_def init_set_def
    using other by (auto simp: simple_set_current init_one_current(1) current_def)
  show "claw_frame init_set"
    unfolding claw_frame_def
  proof (intro conjI allI)
    fix t st r m nc
    obtain cs where "init_one ?Z nc = nc\<lparr>nc_conditions := cs\<rparr>" using init_one_rest(1) by blast
    moreover obtain cs' where "init_one ?V (nc\<lparr>nc_conditions := cs\<rparr>) = nc\<lparr>nc_conditions := cs, nc_conditions := cs'\<rparr>"
      using init_one_rest(1) by blast
    ultimately show "init_set t st r m nc = nc\<lparr>nc_conditions := nc_conditions (init_set t st r m nc)\<rparr>"
      by (simp add: init_set_def simple_set_def)
  next
    fix t st r m nc z
    show "init_set t st r m (nc\<lparr>nc_availability_zones := z\<rparr>) = (init_set t st r m nc)\<lparr>nc_availability_zones := z\<rparr>"
      by (simp add: init_set_def init_one_rest(2)) (simp add: simple_set_def)
  qed
  show "claw_again init_set"
    unfolding claw_again_def Let_def
  proof (intro allI impI)
    fix t t' :: string and st st' r r' m m' nc
    assume "t \<noteq> t'"
    let ?n = "init_one ?V (init_one ?Z nc)"
    have first: "init_set t st r m nc = simple_set t st r m ?n" by (simp add: init_set_def)
    have "current ?Z ?n" "current ?V ?n" by (simp_all add: init_one_current)
    then show "init_set t st r m (init_set t' st' r' m' (init_set t st r m nc)) = init_set t' st' r' m' (init_set t st r m nc) \<and>
        init_set t' st' r' m' (init_set t' st' r' m' (init_set t st r m nc)) = init_set t' st' r' m' (init_set t st r m nc)"
      unfolding first
      by (simp add: init_set_current(1) simple_set_current simple_set_again(1) [OF \<open>t \<noteq> t'\<close>] simple_set_again(2))
  qed
qed

definition sample_ncc :: "(string list timed, unit, nat) ncc_env" where
  "sample_ncc =
     \<lparr>ncc_api = (failing_api (ApiError 503 [] []))\<lparr>api_ListAvailabilityZones := (\<lambda>w. (Inr [''eu01-1'', ''eu01-2''], w))\<rparr>,
      ncc_region = ''eu01'', ncc_cache_ops = timed_cache, ncc_set = simple_set,
      ncc_patch_status = (\<lambda>old new k. (None, k + 1)), ncc_disableDryRun = False\<rparr>"

definition sample_ncs :: "(string list timed, unit, nat) ncc_state" where
  "sample_ncs = \<lparr>ncs_cache = c_new timed_cache ValidationTTL DefaultCleanupInterval, ncs_world = (), ncs_kube = 0\<rparr>"

lemma sample_zones: "\<exists>st1. listAvailabilityZones sample_ncc sample_ncs = (Inr [''eu01-1'', ''eu01-2''], st1)"
  by (simp add: listAvailabilityZones_def sample_ncc_def sample_ncs_def timed_new)

lemma sample_ncc_sel:
  "cond_laws (ncc_set sample_ncc)" "cache_laws (ncc_cache_ops sample_ncc)"
  "ncc_patch_status sample_ncc old new k = (None, k + 1)"
  by (simp_all add: sample_ncc_def simple_set_laws timed_cache_laws)

lemma sample_live: "is_zero_time (nc_deletion_timestamp sample_launch_class)"
  by (simp add: sample_launch_class_def is_zero_time_def)

lemma sample_labels: "spec_labels (nc_spec sample_launch_class) = []" "ValidateLabels [] = None"
  by (simp_all add: sample_launch_class_def ValidateLabels_None_iff)

lemma sample_networking: "validateNetworking sample_launch_class = None"
  by (simp add: validateNetworking_def sample_launch_class_def)

lemma sample_wanted_zones: "spec_availability_zones (nc_spec sample_launch_class) = []"
  by (simp add: sample_launch_class_def)

lemma sample_reconcile: "\<exists>nc1 st1. NodeClass_Reconcile sample_ncc sample_launch_class sample_ncs = (Inr resyncPeriod, nc1, st1)"
proof -
  obtain st1 where l: "listAvailabilityZones sample_ncc sample_ncs = (Inr [''eu01-1'', ''eu01-2''], st1)"
    using sample_zones by blast
  have "fst (zones_verdict (ncc_region sample_ncc) (Inr [''eu01-1'', ''eu01-2'']) (nc_spec sample_launch_class)) = None"
      "fst (validation_verdict sample_launch_class) = None"
    by (simp_all add: zones_verdict.simps validation_verdict.simps sample_networking sample_labels sample_wanted_zones)
  then show ?thesis
    unfolding Reconcile_class [OF sample_ncc_sel(1) sample_live l] by (simp add: Let_def sample_ncc_sel(3))
qed

theorem NodeClass_conditions_witness:
  "\<exists>r nc' st'. NodeClass_Reconcile sample_ncc sample_launch_class sample_ncs = (r, nc', st')
     \<and> availability_zone_ids nc' = [''eu01-1'', ''eu01-2'']"
proof -
  obtain r nc' st' where run: "NodeClass_Reconcile sample_ncc sample_launch_class sample_ncs = (r, nc', st')"
    by (rule prod_cases3)
  obtain st1 where "listAvailabilityZones sample_ncc sample_ncs = (Inr [''eu01-1'', ''eu01-2''], st1)"
    using sample_zones by blast
  with NodeClass_conditions [OF sample_ncc_sel(1) sample_live run]
  have "availability_zone_ids nc' = [''eu01-1'', ''eu01-2'']" by (simp add: sample_launch_class_def)
  with run show ?thesis by blast
qed

lemma NodeClass_steady_witness:
  "\<exists>nc1 st1. NodeClass_Reconcile sample_ncc sample_launch_class sample_ncs = (Inr resyncPeriod, nc1, st1)
     \<and> NodeClass_Reconcile sample_ncc nc1 st1 = (Inr resyncPeriod, nc1, st1)"
proof -
  obtain nc1 st1 where run: "NodeClass_Reconcile sample_ncc sample_launch_class sample_ncs = (Inr resyncPeriod, nc1, st1)"
    using sample_reconcile by blast
  have "is_ok (fst (listAvailabilityZones sample_ncc sample_ncs))" using sample_zones by auto
  from NodeClass_steady [OF sample_ncc_sel(1,2) sample_live this run] run show ?thesis by blast
qed

theorem validated_launches_witness:
  "\<forall>it zone labels. is_ok (createPayload sample_launch_class sample_claim it zone labels)
     = is_ok (serverName sample_launch_class sample_claim)"
proof -
  have "fst (validate sample_ncc sample_launch_class) = None"
    by (simp add: validate_def sample_networking sample_labels)
  from validated_launches [OF this] show ?thesis by blast
qed

end
