(* ===== verification/NodeClassHash.thy ===== *)
theory NodeClassHash
  imports CloudProvider
begin

text \<open>
  \<open>pkg/controllers/nodeclass/hash/controller.go\<close>: a NodeClass carries the hash of its
  specification, and when the hashing changes version the NodeClaims launched from it are
  stamped again. The Kubernetes client is third-party code; \<open>'k\<close> is the state of the cluster.
\<close>

section \<open>The controller\<close>

record ('q, 'k) hash_env =
  hash_list :: "nodeclass \<Rightarrow> 'k \<Rightarrow> 'q nodeclaim list result \<times> 'k"
  hash_patch_claim :: "'q nodeclaim \<Rightarrow> 'q nodeclaim \<Rightarrow> 'k \<Rightarrow> go_error option \<times> 'k"
  hash_patch_class :: "nodeclass \<Rightarrow> nodeclass \<Rightarrow> 'k \<Rightarrow> go_error option \<times> 'k"
  hash_spec :: "nodeclass_spec \<Rightarrow> string"

text \<open>The body of the loop over the NodeClaims: the object it patches, and the patch.\<close>

definition restamp :: "(nodeclass_spec \<Rightarrow> string) \<Rightarrow> nodeclass \<Rightarrow> 'q nodeclaim \<Rightarrow> 'q nodeclaim" where
  "restamp hs nodeClass nc =
     (let nc = nc\<lparr>claim_annotations := assign (claim_annotations nc)
            [(AnnotationStackitNodeClassHashVersion, StackitNodeClassHashVersion)]\<rparr>
      in if \<not> claim_drifted nc
         then nc\<lparr>claim_annotations := assign (claim_annotations nc)
            [(AnnotationStackitNodeClassHash, nodeclass_hash hs nodeClass)]\<rparr>
         else nc)"

definition hash_item :: "('q, 'k) hash_env \<Rightarrow> nodeclass \<Rightarrow> 'q nodeclaim \<Rightarrow> 'k \<Rightarrow> go_error option \<times> 'k" where
  "hash_item E nodeClass nc k =
     (if map_get (claim_annotations nc) AnnotationStackitNodeClassHashVersion = StackitNodeClassHashVersion then (None, k)
      else
        let stored = nc; nc = restamp (hash_spec E) nodeClass nc
        in if stored \<noteq> nc
           then (case hash_patch_claim E stored nc k of
                   (Some err, k) \<Rightarrow> (ignore_kube_not_found err, k) | (None, k) \<Rightarrow> (None, k))
           else (None, k))"

fun hash_items ::
  "('q, 'k) hash_env \<Rightarrow> nodeclass \<Rightarrow> 'q nodeclaim list \<Rightarrow> 'k \<Rightarrow> go_error option list \<times> 'k" where
  "hash_items E nodeClass [] k = ([], k)"
| "hash_items E nodeClass (nc # ncs) k =
     (let (e, k) = hash_item E nodeClass nc k; (es, k) = hash_items E nodeClass ncs k in (e # es, k))"

definition updateNodeClaimHash :: "('q, 'k) hash_env \<Rightarrow> nodeclass \<Rightarrow> 'k \<Rightarrow> go_error option \<times> 'k" where
  "updateNodeClaimHash E nodeClass k =
     (case hash_list E nodeClass k of
        (Inl err, k) \<Rightarrow> (Some err, k)
      | (Inr nodeClaims, k) \<Rightarrow> (let (errs, k) = hash_items E nodeClass nodeClaims k in (combine_errors errs, k)))"

definition Hash_Reconcile :: "('q, 'k) hash_env \<Rightarrow> nodeclass \<Rightarrow> 'k \<Rightarrow> reconciled \<times> nodeclass \<times> 'k" where
  "Hash_Reconcile E nodeClass k =
     (let stored = nodeClass;
          (err, k) =
            (if map_get (nc_annotations nodeClass) AnnotationStackitNodeClassHashVersion \<noteq> StackitNodeClassHashVersion
             then updateNodeClaimHash E nodeClass k else (None, k))
      in case err of
           Some err \<Rightarrow> (Inl err, nodeClass, k)
         | None \<Rightarrow>
             let nodeClass = nodeClass\<lparr>nc_annotations := assign (nc_annotations nodeClass)
                   [(AnnotationStackitNodeClassHash, nodeclass_hash (hash_spec E) nodeClass),
                    (AnnotationStackitNodeClassHashVersion, StackitNodeClassHashVersion)]\<rparr>
             in if stored \<noteq> nodeClass
                then (case hash_patch_class E stored nodeClass k of
                        (Some err, k) \<Rightarrow>
                          (case ignore_kube_not_found err of
                             Some err' \<Rightarrow> (Inl err', nodeClass, k) | None \<Rightarrow> (Inr 0, nodeClass, k))
                      | (None, k) \<Rightarrow> (Inr 0, nodeClass, k))
                else (Inr 0, nodeClass, k))"

section \<open>The Kubernetes API\<close>

text \<open>
  What the API documents, for a cluster where nobody else writes these objects meanwhile:
  \<open>stored_claims\<close> reads a NodeClaim by its name. A list shows the stored objects and each once;
  a patch from the stored object to another stores that one, or changes nothing when it fails,
  and is not answered with \<open>NotFound\<close> for an object that is there; a patch of a NodeClass
  touches no NodeClaim.
\<close>

definition hash_list_law :: "('q, 'k) hash_env \<Rightarrow> ('k \<Rightarrow> string \<Rightarrow> 'q nodeclaim option) \<Rightarrow> bool" where
  "hash_list_law E stored_claims \<longleftrightarrow>
     (\<forall>nc k r k'. hash_list E nc k = (r, k') \<longrightarrow> stored_claims k' = stored_claims k
        \<and> (case r of Inl _ \<Rightarrow> True
           | Inr cs \<Rightarrow> distinct (map claim_name cs) \<and> list_all (\<lambda>c. stored_claims k (claim_name c) = Some c) cs))"

definition hash_patch_law :: "('q, 'k) hash_env \<Rightarrow> ('k \<Rightarrow> string \<Rightarrow> 'q nodeclaim option) \<Rightarrow> bool" where
  "hash_patch_law E stored_claims \<longleftrightarrow>
     (\<forall>old new k. stored_claims k (claim_name old) = Some old \<and> claim_name new = claim_name old \<longrightarrow>
        (case hash_patch_claim E old new k of
           (None, k') \<Rightarrow> stored_claims k' = (stored_claims k)(claim_name old \<mapsto> new)
         | (Some e, k') \<Rightarrow> stored_claims k' = stored_claims k \<and> \<not> is_kube_not_found e))"

definition hash_class_law :: "('q, 'k) hash_env \<Rightarrow> ('k \<Rightarrow> string \<Rightarrow> 'q nodeclaim option) \<Rightarrow> bool" where
  "hash_class_law E stored_claims \<longleftrightarrow>
     (\<forall>old new k. stored_claims (snd (hash_patch_class E old new k)) = stored_claims k)"

definition hash_laws :: "('q, 'k) hash_env \<Rightarrow> ('k \<Rightarrow> string \<Rightarrow> 'q nodeclaim option) \<Rightarrow> bool" where
  "hash_laws E stored_claims \<longleftrightarrow>
     hash_list_law E stored_claims \<and> hash_patch_law E stored_claims \<and> hash_class_law E stored_claims"

section \<open>Facts\<close>

definition current_version :: "string gomap \<Rightarrow> bool" where
  "current_version m \<longleftrightarrow> map_of m AnnotationStackitNodeClassHashVersion = Some StackitNodeClassHashVersion"

lemma version_check: "map_get m AnnotationStackitNodeClassHashVersion = StackitNodeClassHashVersion \<longleftrightarrow> current_version m"
  by (cases "map_of m AnnotationStackitNodeClassHashVersion")
     (simp_all add: current_version_def map_get_def StackitNodeClassHashVersion_def)

text \<open>What a stamped NodeClaim looks like.\<close>

lemma restamp_keeps [simp]:
  "claim_name (restamp hs nodeClass nc) = claim_name nc"
  "claim_drifted (restamp hs nodeClass nc) = claim_drifted nc"
  by (simp_all add: restamp_def Let_def)

lemma restamp_only_annotations: "restamp hs nodeClass nc = nc\<lparr>claim_annotations := claim_annotations (restamp hs nodeClass nc)\<rparr>"
  by (simp add: restamp_def Let_def)

lemma restamp_lookup:
  "map_of (claim_annotations (restamp hs nodeClass nc)) key =
     (if key = AnnotationStackitNodeClassHashVersion then Some StackitNodeClassHashVersion
      else if key = AnnotationStackitNodeClassHash \<and> \<not> claim_drifted nc then Some (nodeclass_hash hs nodeClass)
      else map_of (claim_annotations nc) key)"
  using hash_keys_neq by (auto simp: restamp_def Let_def gomap_simps)

lemma restamp_differs: "\<not> current_version (claim_annotations nc) \<Longrightarrow> restamp hs nodeClass nc \<noteq> nc"
  using restamp_lookup [of hs nodeClass nc AnnotationStackitNodeClassHashVersion]
  by (auto simp: current_version_def)

text \<open>What the loop leaves in the cluster, when it reports no error.\<close>

definition stamped :: "(nodeclass_spec \<Rightarrow> string) \<Rightarrow> nodeclass \<Rightarrow> 'q nodeclaim \<Rightarrow> 'q nodeclaim" where
  "stamped hs nodeClass nc = (if current_version (claim_annotations nc) then nc else restamp hs nodeClass nc)"

lemma hash_item_effect:
  assumes "hash_patch_law E L" "L k (claim_name nc) = Some nc" "hash_item E nodeClass nc k = (e, k')"
  shows "L k' = (if e = None then (L k)(claim_name nc \<mapsto> stamped (hash_spec E) nodeClass nc) else L k)"
proof (cases "current_version (claim_annotations nc)")
  case True
  with assms show ?thesis by (auto simp: hash_item_def version_check stamped_def)
next
  case False
  let ?nc = "restamp (hash_spec E) nodeClass nc"
  have "case hash_patch_claim E nc ?nc k of
           (None, k') \<Rightarrow> L k' = (L k)(claim_name nc \<mapsto> ?nc)
         | (Some e, k') \<Rightarrow> L k' = L k \<and> \<not> is_kube_not_found e"
    using assms(1,2) unfolding hash_patch_law_def by simp
  moreover have "nc \<noteq> ?nc" using restamp_differs [OF False] by metis
  ultimately show ?thesis using False assms(3)
    by (auto simp: hash_item_def version_check stamped_def Let_def ignore_kube_not_found_def
        split: prod.splits option.splits if_splits)
qed

lemma hash_items_effect:
  assumes "hash_patch_law E L" "hash_items E nodeClass ncs k = (es, k')"
    and "distinct (map claim_name ncs)" "list_all (\<lambda>c. L k (claim_name c) = Some c) ncs"
    and "list_all (\<lambda>e. e = None) es"
  shows "L k' = (\<lambda>name. case find (\<lambda>c. claim_name c = name) ncs of
      Some c \<Rightarrow> Some (stamped (hash_spec E) nodeClass c) | None \<Rightarrow> L k name)"
  using assms(2-)
proof (induction ncs arbitrary: k es)
  case Nil
  then show ?case by simp
next
  case (Cons nc ncs)
  obtain e k1 where i: "hash_item E nodeClass nc k = (e, k1)" by force
  obtain es1 where r: "hash_items E nodeClass ncs k1 = (es1, k')" and es: "e # es1 = es"
    using Cons.prems(1) i by (auto split: prod.splits)
  then have es: "e = None" "list_all (\<lambda>e. e = None) es1" using Cons.prems(4) by auto
  have "L k (claim_name nc) = Some nc" using Cons.prems(3) by simp
  from hash_item_effect [OF assms(1) this i] es(1)
  have L1: "L k1 = (L k)(claim_name nc \<mapsto> stamped (hash_spec E) nodeClass nc)" by simp
  have "list_all (\<lambda>c. L k1 (claim_name c) = Some c) ncs"
    unfolding list_all_iff
  proof
    fix c assume c: "c \<in> set ncs"
    then have "claim_name c \<noteq> claim_name nc" using distinct_map_neq [OF Cons.prems(2)] by blast
    moreover have "L k (claim_name c) = Some c" using Cons.prems(3) c by (simp add: list_all_iff)
    ultimately show "L k1 (claim_name c) = Some c" by (simp add: L1)
  qed
  from Cons.IH [OF r _ this es(2)] Cons.prems(2)
  have "L k' = (\<lambda>name. case find (\<lambda>c. claim_name c = name) ncs of
      Some c \<Rightarrow> Some (stamped (hash_spec E) nodeClass c) | None \<Rightarrow> L k1 name)" by simp
  moreover have "find (\<lambda>c. claim_name c = claim_name nc) ncs = None"
    unfolding find_None_iff using distinct_map_neq [OF Cons.prems(2)] by blast
  ultimately show ?case by (simp only: L1 find.simps fun_upd_apply, intro ext) (simp split: option.split)
qed

text \<open>A successful reconcile stamps the NodeClass, after the NodeClaims when they need it.\<close>

definition stamped_class :: "(nodeclass_spec \<Rightarrow> string) \<Rightarrow> nodeclass \<Rightarrow> nodeclass" where
  "stamped_class hs nc = nc\<lparr>nc_annotations := assign (nc_annotations nc)
     [(AnnotationStackitNodeClassHash, nodeclass_hash hs nc), (AnnotationStackitNodeClassHashVersion, StackitNodeClassHashVersion)]\<rparr>"

lemma stamped_class_hash [simp]: "nodeclass_hash hs (stamped_class hs nc) = nodeclass_hash hs nc"
  by (simp add: stamped_class_def nodeclass_hash_def)

lemma stamped_class_current:
  "current_version (nc_annotations (stamped_class hs nc))"
  "map_of (nc_annotations (stamped_class hs nc)) AnnotationStackitNodeClassHash = Some (nodeclass_hash hs nc)"
proof -
  have "nc_annotations (stamped_class hs nc) = assign (nc_annotations nc)
     [(AnnotationStackitNodeClassHash, nodeclass_hash hs nc), (AnnotationStackitNodeClassHashVersion, StackitNodeClassHashVersion)]"
    by (simp add: stamped_class_def)
  then show "current_version (nc_annotations (stamped_class hs nc))"
    "map_of (nc_annotations (stamped_class hs nc)) AnnotationStackitNodeClassHash = Some (nodeclass_hash hs nc)"
    unfolding current_version_def by (simp_all only: stamped_lookup hash_keys_neq [symmetric] if_True if_False simp_thms)
qed

lemma Hash_Reconcile_alt:
  "Hash_Reconcile E nc k =
     (let (err, k) = (if current_version (nc_annotations nc) then (None, k) else updateNodeClaimHash E nc k)
      in case err of
           Some err \<Rightarrow> (Inl err, nc, k)
         | None \<Rightarrow>
             let nc' = stamped_class (hash_spec E) nc
             in if nc \<noteq> nc'
                then (case hash_patch_class E nc nc' k of
                        (Some err, k) \<Rightarrow>
                          (case ignore_kube_not_found err of Some err' \<Rightarrow> (Inl err', nc', k) | None \<Rightarrow> (Inr 0, nc', k))
                      | (None, k) \<Rightarrow> (Inr 0, nc', k))
                else (Inr 0, nc', k))"
  by (cases "current_version (nc_annotations nc)")
     (simp_all only: Hash_Reconcile_def stamped_class_def version_check Let_def if_True if_False simp_thms)

lemma hash_success:
  assumes "Hash_Reconcile E nc k = (Inr r, nc', k')"
  shows "nc' = stamped_class (hash_spec E) nc"
    "\<not> current_version (nc_annotations nc) \<Longrightarrow> \<exists>k1. updateNodeClaimHash E nc k = (None, k1)
       \<and> (k' = k1 \<or> k' = snd (hash_patch_class E nc nc' k1))"
  using assms
  by (auto simp: Hash_Reconcile_alt Let_def
      split: if_splits prod.splits option.splits)

lemma update_idem: "map_of m k = Some v \<Longrightarrow> AList.update k v m = m"
  by (induction m) auto

lemma stamped_class_again: "stamped_class hs (stamped_class hs nc) = stamped_class hs nc"
proof -
  have "map_of (nc_annotations (stamped_class hs nc)) AnnotationStackitNodeClassHash = Some (nodeclass_hash hs nc)"
      "map_of (nc_annotations (stamped_class hs nc)) AnnotationStackitNodeClassHashVersion = Some StackitNodeClassHashVersion"
    using stamped_class_current [of hs nc] by (simp_all add: current_version_def)
  then have "assign (nc_annotations (stamped_class hs nc))
      [(AnnotationStackitNodeClassHash, nodeclass_hash hs nc), (AnnotationStackitNodeClassHashVersion, StackitNodeClassHashVersion)]
      = nc_annotations (stamped_class hs nc)"
    by (simp add: update_idem)
  then show ?thesis by (simp add: stamped_class_def [of hs "stamped_class hs nc"])
qed

section \<open>Properties\<close>

text \<open>A claim stamped for a NodeClass whose hash is current is in one of three cases.\<close>

lemma stamped_effect:
  assumes "hash_current h nc'" "nodeclass_hash h nc' = nodeclass_hash h nc"
  shows "stamped h nc c = c\<lparr>claim_annotations := claim_annotations (stamped h nc c)\<rparr>
     \<and> current_version (claim_annotations (stamped h nc c))
     \<and> (if current_version (claim_annotations c) then stamped h nc c = c
        else if claim_drifted c
          then map_of (claim_annotations (stamped h nc c)) AnnotationStackitNodeClassHash =
               map_of (claim_annotations c) AnnotationStackitNodeClassHash
          else areStaticFieldsDrifted (stamped h nc c) nc' = [])"
proof -
  have "areStaticFieldsDrifted (stamped h nc c) nc' = []"
    if "\<not> current_version (claim_annotations c)" "\<not> claim_drifted c"
  proof (rule stamped_not_static_drifted [OF assms(1)])
    show "map_of (claim_annotations (stamped h nc c)) AnnotationStackitNodeClassHash = Some (nodeclass_hash h nc')"
      "map_of (claim_annotations (stamped h nc c)) AnnotationStackitNodeClassHashVersion = Some StackitNodeClassHashVersion"
      using that hash_keys_neq by (simp_all add: stamped_def restamp_lookup assms(2))
  qed
  moreover have "map_of (claim_annotations (stamped h nc c)) AnnotationStackitNodeClassHash =
      map_of (claim_annotations c) AnnotationStackitNodeClassHash" if "claim_drifted c"
    using that hash_keys_neq by (simp add: stamped_def restamp_lookup)
  moreover have "current_version (claim_annotations (stamped h nc c))"
    by (simp add: stamped_def current_version_def restamp_lookup)
  moreover have "stamped h nc c = c\<lparr>claim_annotations := claim_annotations (stamped h nc c)\<rparr>"
    using restamp_only_annotations [of h nc c] by (simp add: stamped_def)
  moreover have "stamped h nc c = c" if "current_version (claim_annotations c)"
    using that by (simp add: stamped_def)
  ultimately show ?thesis by presburger
qed

text \<open>
  C14 An upgrade of the hashing replaces no node: after a reconcile that succeeds on a NodeClass
  with an old version, every NodeClaim of it carries the new version and differs in its
  annotations only; one that had the old version and was not flagged as drifted is not
  drifted by its fields, and one that was flagged keeps the hash it was flagged for. NodeClaims
  of the new version, and those of other NodeClasses, are as before.
\<close>

theorem Hash_upgrade:
  assumes "hash_laws E stored_claims" "\<not> current_version (nc_annotations nc)"
    and "hash_list E nc k = (Inr cs, k1)" "Hash_Reconcile E nc k = (Inr r, nc', k')"
  shows "case find (\<lambda>c. claim_name c = name) cs of
      None \<Rightarrow> stored_claims k' name = stored_claims k name
    | Some c \<Rightarrow> (\<exists>c'. stored_claims k' name = Some c'
        \<and> c' = c\<lparr>claim_annotations := claim_annotations c'\<rparr>
        \<and> current_version (claim_annotations c')
        \<and> (if current_version (claim_annotations c) then c' = c
           else if claim_drifted c
             then map_of (claim_annotations c') AnnotationStackitNodeClassHash =
                  map_of (claim_annotations c) AnnotationStackitNodeClassHash
             else areStaticFieldsDrifted c' nc' = []))"
proof -
  have laws: "hash_list_law E stored_claims" "hash_patch_law E stored_claims" "hash_class_law E stored_claims"
    using assms(1) by (simp_all add: hash_laws_def)
  obtain es k2 where items: "hash_items E nc cs k1 = (es, k2)" by force
  obtain k3 where "updateNodeClaimHash E nc k = (None, k3)" "k' = k3 \<or> k' = snd (hash_patch_class E nc nc' k3)"
    using hash_success(2) [OF assms(4,2)] by blast
  then have es: "combine_errors es = None" and "stored_claims k' = stored_claims k2"
    using assms(3) items laws(3) by (auto simp: updateNodeClaimHash_def hash_class_law_def)
  moreover have l: "stored_claims k1 = stored_claims k" "distinct (map claim_name cs)"
      "list_all (\<lambda>c. stored_claims k1 (claim_name c) = Some c) cs"
    using laws(1) assms(3) unfolding hash_list_law_def by fastforce+
  have "list_all (\<lambda>e. e = None) es" using es by (simp add: combine_errors_None list_all_iff)
  from hash_items_effect [OF laws(2) items l(2,3) this]
  have "stored_claims k2 name = (case find (\<lambda>c. claim_name c = name) cs of
      Some c \<Rightarrow> Some (stamped (hash_spec E) nc c) | None \<Rightarrow> stored_claims k name)" unfolding l(1) by simp
  ultimately have final: "stored_claims k' name = (case find (\<lambda>c. claim_name c = name) cs of
      Some c \<Rightarrow> Some (stamped (hash_spec E) nc c) | None \<Rightarrow> stored_claims k name)" by simp
  show ?thesis
  proof (cases "find (\<lambda>c. claim_name c = name) cs")
    case (Some c)
    have "hash_current (hash_spec E) nc'" "nodeclass_hash (hash_spec E) nc' = nodeclass_hash (hash_spec E) nc"
      using stamped_class_current(2) [of "hash_spec E" nc]
      by (simp_all add: hash_success(1) [OF assms(4)] hash_current_def)
    from stamped_effect [OF this] final Some show ?thesis by auto
  qed (use final in simp)
qed

text \<open>
  The hash a NodeClass carries is the hash of its own specification once a reconcile
  succeeded, and then the controller is at rest: the next reconcile makes no call and changes
  nothing.
\<close>

lemma Hash_steady:
  assumes "Hash_Reconcile E nc k = (Inr r, nc', k')"
  shows "map_of (nc_annotations nc') AnnotationStackitNodeClassHash = Some (nodeclass_hash (hash_spec E) nc')
    \<and> nc_spec nc' = nc_spec nc \<and> Hash_Reconcile E nc' k2 = (Inr 0, nc', k2)"
proof -
  have nc': "nc' = stamped_class (hash_spec E) nc" by (rule hash_success(1) [OF assms])
  have "current_version (nc_annotations nc')" unfolding nc' by (rule stamped_class_current)
  moreover have "stamped_class (hash_spec E) nc' = nc'" unfolding nc' by (rule stamped_class_again)
  ultimately have "Hash_Reconcile E nc' k2 = (Inr 0, nc', k2)"
    by (simp add: Hash_Reconcile_alt)
  moreover have "nc_spec nc' = nc_spec nc" by (simp add: nc' stamped_class_def)
  ultimately show ?thesis
    using stamped_class_current(2) [of "hash_spec E" nc] by (simp add: nc')
qed

text \<open>A cluster whose state is its NodeClaims.\<close>

definition sample_hash_env :: "(rat, rat nodeclaim list) hash_env" where
  "sample_hash_env =
     \<lparr>hash_list = (\<lambda>nc k. (if distinct (map claim_name k) then Inr k else Inl (TransportError []), k)),
      hash_patch_claim = (\<lambda>old new k. (None, map (\<lambda>c. if claim_name c = claim_name new then new else c) k)),
      hash_patch_class = (\<lambda>old new k. (None, k)), hash_spec = (\<lambda>spec. ''17'')\<rparr>"

definition claim_named :: "rat nodeclaim list \<Rightarrow> string \<Rightarrow> rat nodeclaim option" where
  "claim_named k name = find (\<lambda>c. claim_name c = name) k"

lemma find_replaced:
  assumes "find (\<lambda>c. claim_name c = claim_name new) k \<noteq> None"
  shows "find (\<lambda>c. claim_name c = name) (map (\<lambda>c. if claim_name c = claim_name new then new else c) k) =
     (if name = claim_name new then Some new else find (\<lambda>c. claim_name c = name) k)"
proof (cases "name = claim_name new")
  case True
  with assms show ?thesis by (induction k) auto
next
  case False
  then show ?thesis by (induction k) auto
qed

lemma claim_named_patch:
  "claim_named k (claim_name new) \<noteq> None \<Longrightarrow>
     claim_named (map (\<lambda>c. if claim_name c = claim_name new then new else c) k) = (claim_named k)(claim_name new \<mapsto> new)"
  by (rule ext) (simp add: claim_named_def find_replaced)

lemma claim_named_self: "distinct (map claim_name k) \<Longrightarrow> c \<in> set k \<Longrightarrow> claim_named k (claim_name c) = Some c"
  unfolding claim_named_def by (induction k) (auto simp: image_iff)

lemma sample_hash_sel [simp]:
  "hash_list sample_hash_env nc k = (if distinct (map claim_name k) then Inr k else Inl (TransportError []), k)"
  "hash_patch_claim sample_hash_env old new k = (None, map (\<lambda>c. if claim_name c = claim_name new then new else c) k)"
  "hash_patch_class sample_hash_env nc nc' k = (None, k)"
  by (simp_all add: sample_hash_env_def)

lemma sample_hash_laws: "hash_laws sample_hash_env claim_named"
  unfolding hash_laws_def
proof (intro conjI)
  show "hash_list_law sample_hash_env claim_named"
    using claim_named_self by (auto simp: hash_list_law_def list_all_iff)
  show "hash_patch_law sample_hash_env claim_named"
    unfolding hash_patch_law_def
  proof (intro allI impI)
    fix old new :: "rat nodeclaim" and k
    assume a: "claim_named k (claim_name old) = Some old \<and> claim_name new = claim_name old"
    with claim_named_patch [of k new] show "case hash_patch_claim sample_hash_env old new k of
        (None, k') \<Rightarrow> claim_named k' = (claim_named k)(claim_name old \<mapsto> new)
      | (Some e, k') \<Rightarrow> claim_named k' = claim_named k \<and> \<not> is_kube_not_found e" by simp
  qed
  show "hash_class_law sample_hash_env claim_named" by (simp add: hash_class_law_def)
qed

lemma sample_hash_run: "\<exists>nc' k'. Hash_Reconcile sample_hash_env sample_launch_class [sample_claim] = (Inr 0, nc', k')"
proof -
  have old: "\<not> current_version (nc_annotations sample_launch_class)"
    by (simp add: current_version_def sample_launch_class_def)
  have "fst (hash_item sample_hash_env sample_launch_class sample_claim [sample_claim]) = None"
    by (simp add: hash_item_def Let_def)
  then have "fst (updateNodeClaimHash sample_hash_env sample_launch_class [sample_claim]) = None"
    by (simp add: updateNodeClaimHash_def split_beta combine_errors_def List.map_filter_def)
  with old show ?thesis by (simp add: Hash_Reconcile_alt split_beta Let_def)
qed

theorem Hash_upgrade_witness:
  "\<exists>nc' k' c'. Hash_Reconcile sample_hash_env sample_launch_class [sample_claim] = (Inr 0, nc', k')
     \<and> claim_named k' (claim_name sample_claim) = Some c' \<and> areStaticFieldsDrifted c' nc' = []"
proof -
  have old: "\<not> current_version (nc_annotations sample_launch_class)" "\<not> current_version (claim_annotations sample_claim)"
      "\<not> claim_drifted sample_claim"
    by (simp_all add: current_version_def sample_launch_class_def sample_claim_def)
  have list: "hash_list sample_hash_env sample_launch_class [sample_claim] = (Inr [sample_claim], [sample_claim])"
    by simp
  obtain nc' k' where run: "Hash_Reconcile sample_hash_env sample_launch_class [sample_claim] = (Inr 0, nc', k')"
    using sample_hash_run by blast
  from Hash_upgrade [OF sample_hash_laws old(1) list run, of "claim_name sample_claim"] old run show ?thesis
    by auto
qed

lemma Hash_steady_witness:
  "\<exists>nc' k'. Hash_Reconcile sample_hash_env sample_launch_class [sample_claim] = (Inr 0, nc', k')
     \<and> Hash_Reconcile sample_hash_env nc' k' = (Inr 0, nc', k')"
proof -
  obtain nc' k' where run: "Hash_Reconcile sample_hash_env sample_launch_class [sample_claim] = (Inr 0, nc', k')"
    using sample_hash_run by blast
  from Hash_steady [OF run, of k'] run show ?thesis by blast
qed

end
