(* ===== verification/NodeClassTermination.thy ===== *)
theory NodeClassTermination
  imports CloudProvider
begin

text \<open>
  \<open>pkg/controllers/nodeclass/termination/controller.go\<close>: a finalizer holds a StackitNodeClass
  until the NodeClaims launched from it are gone. The reconcile is split where it calls the
  Kubernetes API a second time, so that what the rest of the cluster does in between can be
  stated: the second half of the theory is a step relation of one NodeClass, its NodeClaims,
  the launches of the cloud provider and this controller.
\<close>

section \<open>The controller\<close>

definition requeueWhileInUse :: int where
  "requeueWhileInUse = 10 * Second"

record ('q, 'k) termination_env =
  te_list :: "nodeclass \<Rightarrow> 'k \<Rightarrow> 'q nodeclaim list result \<times> 'k"
  te_patch :: "nodeclass \<Rightarrow> nodeclass \<Rightarrow> 'k \<Rightarrow> go_error option \<times> 'k"
  te_event :: "nodeclass \<Rightarrow> string \<Rightarrow> string \<Rightarrow> nat \<Rightarrow> 'k \<Rightarrow> 'k"

text \<open>\<open>controllerutil.AddFinalizer\<close> and \<open>RemoveFinalizer\<close>.\<close>

definition add_finalizer :: "string \<Rightarrow> nodeclass \<Rightarrow> nodeclass" where
  "add_finalizer f nc = (if f \<in> set (nc_finalizers nc) then nc else nc\<lparr>nc_finalizers := nc_finalizers nc @ [f]\<rparr>)"

definition remove_finalizer :: "string \<Rightarrow> nodeclass \<Rightarrow> nodeclass" where
  "remove_finalizer f nc = nc\<lparr>nc_finalizers := filter (\<lambda>g. g \<noteq> f) (nc_finalizers nc)\<rparr>"

text \<open>The reconcile up to its patch: an answer, or the object to patch to.\<close>

definition Termination_check ::
  "('q, 'k) termination_env \<Rightarrow> nodeclass \<Rightarrow> 'k \<Rightarrow> (reconciled + nodeclass) \<times> 'k" where
  "Termination_check E nodeClass k =
     (if is_zero_time (nc_deletion_timestamp nodeClass) then
        (if TerminationFinalizer \<notin> set (nc_finalizers nodeClass)
         then (Inr (add_finalizer TerminationFinalizer nodeClass), k)
         else (Inl (Inr 0), k))
      else
        (case te_list E nodeClass k of
           (Inl err, k) \<Rightarrow> (Inl (Inl (Wrapf ''listing nodeclaims for nodeclass'' [] err)), k)
         | (Inr nodeClaims, k) \<Rightarrow>
             if length nodeClaims > 0
             then (Inl (Inr requeueWhileInUse),
                   te_event E nodeClass ''WaitingOnNodeClaims''
                     ''Waiting on %d NodeClaim(s) to terminate before deleting the StackitNodeClass''
                     (length nodeClaims) k)
             else (Inr (remove_finalizer TerminationFinalizer nodeClass), k)))"

definition Termination_patch ::
  "('q, 'k) termination_env \<Rightarrow> nodeclass \<Rightarrow> nodeclass \<Rightarrow> 'k \<Rightarrow> reconciled \<times> 'k" where
  "Termination_patch E stored nodeClass k =
     (case te_patch E stored nodeClass k of
        (Some err, k) \<Rightarrow> (case ignore_kube_not_found err of Some err' \<Rightarrow> (Inl err', k) | None \<Rightarrow> (Inr 0, k))
      | (None, k) \<Rightarrow> (Inr 0, k))"

definition Termination_Reconcile :: "('q, 'k) termination_env \<Rightarrow> nodeclass \<Rightarrow> 'k \<Rightarrow> reconciled \<times> 'k" where
  "Termination_Reconcile E nodeClass k =
     (case Termination_check E nodeClass k of
        (Inl r, k) \<Rightarrow> (r, k)
      | (Inr patched, k) \<Rightarrow> Termination_patch E nodeClass patched k)"

section \<open>The cluster\<close>

text \<open>
  One NodeClass object and the NodeClaims that refer to it. A NodeClaim waits, is being launched
  by a \<open>Create\<close> that has resolved the NodeClass, or has its server. The controller reads the
  NodeClass, checks, and patches, and the cluster moves on between these.
\<close>

datatype launch_phase = Waiting | Launching | Running

datatype progress = Idle | Seen nodeclass | Patching nodeclass nodeclass

record 'q cluster =
  cl_class :: "nodeclass option"
  cl_claims :: "('q nodeclaim \<times> launch_phase) list"
  cl_progress :: progress

text \<open>
  The API server: an object that is marked for deletion disappears with its last finalizer, and
  a merge patch writes the list of finalizers when the patch changes it.
\<close>

definition settle :: "'q cluster \<Rightarrow> 'q cluster" where
  "settle w = (case cl_class w of
      Some nc \<Rightarrow> if \<not> is_zero_time (nc_deletion_timestamp nc) \<and> nc_finalizers nc = [] then w\<lparr>cl_class := None\<rparr> else w
    | None \<Rightarrow> w)"

definition merge_finalizers :: "nodeclass \<Rightarrow> nodeclass \<Rightarrow> nodeclass \<Rightarrow> nodeclass" where
  "merge_finalizers old new nc =
     (if nc_finalizers old = nc_finalizers new then nc else nc\<lparr>nc_finalizers := nc_finalizers new\<rparr>)"

definition cluster_env :: "('q, 'q cluster) termination_env" where
  "cluster_env =
     \<lparr>te_list = (\<lambda>nc w. (Inr (map fst (cl_claims w)), w)),
      te_patch = (\<lambda>old new w.
        (case cl_class w of
           None \<Rightarrow> (Some (newNotFound nodeclassResource (nc_name old)), w)
         | Some nc \<Rightarrow> (None, settle (w\<lparr>cl_class := Some (merge_finalizers old new nc)\<rparr>)))),
      te_event = (\<lambda>nc reason message n w. w)\<rparr>"

text \<open>
  The steps, for a cloud provider \<open>E\<close> that reads NodeClasses from this cluster: the NodeClass is
  edited, except for this controller's finalizer, or marked for deletion; a NodeClaim is created,
  resolved by \<open>Create\<close>, launched, or removed; the controller reads the NodeClass, runs its check,
  and runs its patch. Resolving asks for \<open>launchable\<close>, the guard of \<open>cp_Create\<close>; what \<open>Create\<close> does
  after it may still fail, so the steps have every launch of the code and more, which is what an
  invariant needs. Where a launch is claimed to happen, \<open>cp_Create\<close> itself is shown to succeed.
\<close>

inductive cluster_step :: "('q, 'q cluster) cp_env \<Rightarrow> 'q cluster \<Rightarrow> 'q cluster \<Rightarrow> bool" for E where
  edit: "cl_class w = Some nc \<Longrightarrow> nc_deletion_timestamp nc' = nc_deletion_timestamp nc \<Longrightarrow>
      TerminationFinalizer \<in> set (nc_finalizers nc') \<longleftrightarrow> TerminationFinalizer \<in> set (nc_finalizers nc) \<Longrightarrow>
      cluster_step E w (settle (w\<lparr>cl_class := Some nc'\<rparr>))"
| delete: "cl_class w = Some nc \<Longrightarrow> is_zero_time (nc_deletion_timestamp nc) \<Longrightarrow> t \<noteq> 0 \<Longrightarrow>
      cluster_step E w (settle (w\<lparr>cl_class := Some (nc\<lparr>nc_deletion_timestamp := Some t\<rparr>)\<rparr>))"
| claim: "cluster_step E w (w\<lparr>cl_claims := (c, Waiting) # cl_claims w\<rparr>)"
| resolve: "cl_claims w = xs @ (c, Waiting) # ys \<Longrightarrow> launchable E c w nc \<Longrightarrow>
      cluster_step E w (w\<lparr>cl_claims := xs @ (c, Launching) # ys\<rparr>)"
| launch: "cl_claims w = xs @ (c, Launching) # ys \<Longrightarrow>
      cluster_step E w (w\<lparr>cl_claims := xs @ (c, Running) # ys\<rparr>)"
| remove: "cl_claims w = xs @ (c, p) # ys \<Longrightarrow> cluster_step E w (w\<lparr>cl_claims := xs @ ys\<rparr>)"
| see: "cl_class w = Some nc \<Longrightarrow> cl_progress w = Idle \<Longrightarrow> cluster_step E w (w\<lparr>cl_progress := Seen nc\<rparr>)"
| answer: "cl_progress w = Seen nc \<Longrightarrow> Termination_check cluster_env nc w = (Inl r, w1) \<Longrightarrow>
      cluster_step E w (w1\<lparr>cl_progress := Idle\<rparr>)"
| check: "cl_progress w = Seen nc \<Longrightarrow> Termination_check cluster_env nc w = (Inr nc', w1) \<Longrightarrow>
      cluster_step E w (w1\<lparr>cl_progress := Patching nc nc'\<rparr>)"
| patch: "cl_progress w = Patching nc nc' \<Longrightarrow> Termination_patch cluster_env nc nc' w = (r, w1) \<Longrightarrow>
      cluster_step E w (w1\<lparr>cl_progress := Idle\<rparr>)"

definition reads_cluster :: "('q, 'q cluster) cp_env \<Rightarrow> bool" where
  "reads_cluster E \<longleftrightarrow>
     (\<forall>name w. cpe_get_nodeclass E name w =
        (case cl_class w of Some nc \<Rightarrow> Inr nc | None \<Rightarrow> Inl (newNotFound nodeclassResource name)))"

section \<open>The invariant\<close>

text \<open>No launch begins on a NodeClass that is gone or terminating.\<close>

definition ended :: "'q cluster \<Rightarrow> bool" where
  "ended w \<longleftrightarrow> (case cl_class w of None \<Rightarrow> True | Some nc \<Rightarrow> \<not> is_zero_time (nc_deletion_timestamp nc))"

definition unlaunched :: "'q cluster \<Rightarrow> bool" where
  "unlaunched w \<longleftrightarrow> list_all (\<lambda>(c, p). p = Waiting) (cl_claims w)"

definition held :: "nodeclass \<Rightarrow> bool" where
  "held nc \<longleftrightarrow> TerminationFinalizer \<in> set (nc_finalizers nc)"

definition progress_ok :: "'q cluster \<Rightarrow> bool" where
  "progress_ok w \<longleftrightarrow> (case cl_progress w of
      Idle \<Rightarrow> True
    | Seen nc \<Rightarrow> is_zero_time (nc_deletion_timestamp nc) \<or> ended w
    | Patching nc nc' \<Rightarrow> held nc' \<or> ended w \<and> unlaunched w)"

definition class_ok :: "'q cluster \<Rightarrow> bool" where
  "class_ok w \<longleftrightarrow> (case cl_class w of
      None \<Rightarrow> unlaunched w
    | Some nc \<Rightarrow> held nc \<or> \<not> is_zero_time (nc_deletion_timestamp nc) \<and> unlaunched w)"

definition termination_inv :: "'q cluster \<Rightarrow> bool" where
  "termination_inv w \<longleftrightarrow> progress_ok w \<and> class_ok w"

lemma settle_keeps [simp]:
  "cl_claims (settle w) = cl_claims w" "cl_progress (settle w) = cl_progress w"
  by (simp_all add: settle_def split: option.split)

lemma settle_ended [simp]: "ended (settle w) = ended w"
  by (simp add: settle_def ended_def split: option.split)

lemma settle_unlaunched [simp]: "unlaunched (settle w) = unlaunched w"
  by (simp add: unlaunched_def)

lemma settle_class:
  "cl_class (settle (w\<lparr>cl_class := Some nc\<rparr>)) =
     (if \<not> is_zero_time (nc_deletion_timestamp nc) \<and> nc_finalizers nc = [] then None else Some nc)"
  by (simp add: settle_def)

text \<open>Writing the NodeClass keeps the invariant, unless it loses the finalizer too early.\<close>

lemma write_class_inv:
  assumes "termination_inv w" "cl_class w = Some nc"
    and "held nc' \<or> ended w \<and> unlaunched w"
    and "is_zero_time (nc_deletion_timestamp nc') \<Longrightarrow> is_zero_time (nc_deletion_timestamp nc)"
  shows "termination_inv (settle (w\<lparr>cl_class := Some nc'\<rparr>))"
proof -
  have "ended w \<Longrightarrow> ended (w\<lparr>cl_class := Some nc'\<rparr>)" using assms(2,4) by (auto simp: ended_def)
  then have "progress_ok (settle (w\<lparr>cl_class := Some nc'\<rparr>))"
    using assms(1) by (auto simp: termination_inv_def progress_ok_def unlaunched_def split: progress.splits)
  moreover have "class_ok (settle (w\<lparr>cl_class := Some nc'\<rparr>))"
    using assms(2-4) by (auto simp: class_ok_def settle_class held_def ended_def unlaunched_def)
  ultimately show ?thesis by (simp add: termination_inv_def)
qed

text \<open>So does writing the NodeClaims, when nothing is launched from a NodeClass that has ended.\<close>

lemma write_claims_inv:
  assumes "termination_inv w" "ended w \<and> unlaunched w \<Longrightarrow> unlaunched (w\<lparr>cl_claims := cs\<rparr>)"
  shows "termination_inv (w\<lparr>cl_claims := cs\<rparr>)"
proof -
  have "ended (w\<lparr>cl_claims := cs\<rparr>) = ended w" by (simp add: ended_def)
  with assms show ?thesis
    by (auto simp: termination_inv_def progress_ok_def class_ok_def ended_def split: progress.splits option.splits)
qed

lemma check_cluster:
  assumes "Termination_check cluster_env nc w = (x, w1)"
  shows "w1 = w" "x = Inr nc' \<Longrightarrow> held nc' \<or> \<not> is_zero_time (nc_deletion_timestamp nc) \<and> cl_claims w = []"
  using assms
  by (auto simp: Termination_check_def cluster_env_def add_finalizer_def held_def split: if_splits)

lemma patch_cluster:
  assumes "Termination_patch cluster_env old new w = (r, w1)"
  shows "w1 = (case cl_class w of None \<Rightarrow> w | Some nc \<Rightarrow> settle (w\<lparr>cl_class := Some (merge_finalizers old new nc)\<rparr>))"
  using assms by (auto simp: Termination_patch_def cluster_env_def newNotFound_def ignore_kube_not_found_def split: option.splits)

lemma idle_inv: "termination_inv w \<Longrightarrow> termination_inv (w\<lparr>cl_progress := Idle\<rparr>)"
  by (simp add: termination_inv_def progress_ok_def class_ok_def unlaunched_def split: option.splits)

lemma cluster_step_inv:
  assumes "reads_cluster E" "cluster_step E w w'" "termination_inv w"
  shows "termination_inv w'"
  using assms(2)
proof cases
  case (edit nc nc')
  have "class_ok w" using assms(3) by (simp add: termination_inv_def)
  with edit show ?thesis
    by (auto intro!: write_class_inv [OF assms(3)] simp: class_ok_def held_def ended_def)
next
  case (delete nc t)
  have "class_ok w" using assms(3) by (simp add: termination_inv_def)
  with delete show ?thesis
    by (auto intro!: write_class_inv [OF assms(3)] simp: class_ok_def held_def ended_def)
next
  case (claim c)
  then show ?thesis by (auto intro!: write_claims_inv [OF assms(3)] simp: unlaunched_def)
next
  case (resolve xs c ys nc)
  then have "\<not> ended w"
    using assms(1) by (auto simp: launchable_def resolveNodeClassFromNodeClaim_def reads_cluster_def ended_def
        split: option.splits if_splits)
  with resolve show ?thesis by (auto intro!: write_claims_inv [OF assms(3)])
next
  case (launch xs c ys)
  then show ?thesis by (auto intro!: write_claims_inv [OF assms(3)] simp: unlaunched_def)
next
  case (remove xs c p ys)
  then show ?thesis by (auto intro!: write_claims_inv [OF assms(3)] simp: unlaunched_def)
next
  case (see nc)
  then show ?thesis
    using assms(3) by (auto simp: termination_inv_def progress_ok_def class_ok_def ended_def unlaunched_def)
next
  case (answer nc r w1)
  then show ?thesis using check_cluster(1) idle_inv [OF assms(3)] by auto
next
  case (check nc nc' w1)
  have "held nc' \<or> \<not> is_zero_time (nc_deletion_timestamp nc) \<and> cl_claims w = []" and w1: "w1 = w"
    using check_cluster [OF check(3)] by auto
  then have "held nc' \<or> ended w \<and> unlaunched w"
    using check(2) assms(3) by (auto simp: termination_inv_def progress_ok_def unlaunched_def)
  then show ?thesis
    using assms(3) check(1) w1 by (auto simp: termination_inv_def progress_ok_def class_ok_def ended_def unlaunched_def split: option.splits)
next
  case (patch nc nc' r w1)
  have p: "held nc' \<or> ended w \<and> unlaunched w"
    using assms(3) patch(2) by (simp add: termination_inv_def progress_ok_def)
  have "termination_inv w1"
  proof (cases "cl_class w")
    case None
    then show ?thesis using patch_cluster [OF patch(3)] assms(3) by simp
  next
    case (Some c)
    have "held (merge_finalizers nc nc' c) \<or> ended w \<and> unlaunched w"
      using p assms(3) Some by (auto simp: merge_finalizers_def held_def termination_inv_def class_ok_def ended_def)
    from write_class_inv [OF assms(3) Some this] show ?thesis
      using patch_cluster [OF patch(3)] Some by (simp add: merge_finalizers_def split: if_splits)
  qed
  then show ?thesis using patch(1) idle_inv by simp
qed

lemma cluster_steps_inv: "reads_cluster E \<Longrightarrow> (cluster_step E)\<^sup>*\<^sup>* w w' \<Longrightarrow> termination_inv w \<Longrightarrow> termination_inv w'"
  by (rotate_tac 1, induction rule: rtranclp_induct) (auto intro: cluster_step_inv)

section \<open>Draining\<close>

lemma remove_claims: "(cluster_step E)\<^sup>*\<^sup>* w (w\<lparr>cl_claims := []\<rparr>)"
proof (induction "cl_claims w" arbitrary: w)
  case Nil
  then have "w\<lparr>cl_claims := []\<rparr> = w" by simp
  then show ?case by simp
next
  case (Cons cp cs)
  obtain c p where "cp = (c, p)" by force
  with Cons.hyps(2) have "cluster_step E w (w\<lparr>cl_claims := [] @ cs\<rparr>)"
    by (intro remove [of w "[]" c p cs E]) simp
  moreover have "(cluster_step E)\<^sup>*\<^sup>* (w\<lparr>cl_claims := [] @ cs\<rparr>) (w\<lparr>cl_claims := []\<rparr>)"
    using Cons.hyps(1) [of "w\<lparr>cl_claims := [] @ cs\<rparr>"] by simp
  ultimately show ?case by (rule converse_rtranclp_into_rtranclp)
qed

lemma Termination_reconcile_steps:
  assumes "cl_class w = Some nc" "cl_progress w = Idle"
  shows "(cluster_step E)\<^sup>*\<^sup>* w ((snd (Termination_Reconcile cluster_env nc w))\<lparr>cl_progress := Idle\<rparr>)"
proof -
  let ?w = "w\<lparr>cl_progress := Seen nc\<rparr>"
  have s: "cluster_step E w ?w" using assms by (rule see)
  have same: "Termination_check cluster_env nc ?w = (fst (Termination_check cluster_env nc w), ?w)"
    by (simp add: Termination_check_def cluster_env_def)
  have w: "snd (Termination_check cluster_env nc w) = w"
    using check_cluster(1) [of nc w] by (cases "Termination_check cluster_env nc w") auto
  show ?thesis
  proof (cases "fst (Termination_check cluster_env nc w)")
    case (Inl r)
    then have "Termination_Reconcile cluster_env nc w = (r, w)"
      using w by (cases "Termination_check cluster_env nc w") (simp add: Termination_Reconcile_def)
    moreover have "cluster_step E ?w (w\<lparr>cl_progress := Idle\<rparr>)"
      using answer [of ?w nc r ?w E] same Inl by simp
    ultimately show ?thesis using s by (simp add: converse_rtranclp_into_rtranclp)
  next
    case (Inr nc')
    let ?p = "w\<lparr>cl_progress := Patching nc nc'\<rparr>"
    have c: "cluster_step E ?w ?p"
      using check [of ?w nc nc' ?w E] same Inr by simp
    have "Termination_Reconcile cluster_env nc w = Termination_patch cluster_env nc nc' w"
      using w Inr by (cases "Termination_check cluster_env nc w") (simp add: Termination_Reconcile_def)
    moreover have "(snd (Termination_patch cluster_env nc nc' ?p))\<lparr>cl_progress := Idle\<rparr>
        = (snd (Termination_patch cluster_env nc nc' w))\<lparr>cl_progress := Idle\<rparr>"
      using assms(1) by (simp add: Termination_patch_def cluster_env_def settle_def)
    moreover have "cluster_step E ?p ((snd (Termination_patch cluster_env nc nc' ?p))\<lparr>cl_progress := Idle\<rparr>)"
      using patch [of ?p nc nc' _ _ E] by (metis cluster.select_convs(3) cluster.surjective cluster.update_convs(3) prod.collapse)
    ultimately show ?thesis using s c by (simp add: converse_rtranclp_into_rtranclp)
  qed
qed

section \<open>Properties\<close>

text \<open>
  C11 A NodeClass that the controller holds is released only when nothing is left of it: whatever
  the interleaving of edits, deletion, launches, removals and reconciles, a NodeClass that is
  gone, or has lost the finalizer, has no NodeClaim with a server or with a launch on its way,
  and while it still exists it is terminating, so that no launch can begin.
\<close>

theorem Termination_safe:
  assumes "reads_cluster E" "(cluster_step E)\<^sup>*\<^sup>* w w'"
    and "cl_class w = Some nc" "TerminationFinalizer \<in> set (nc_finalizers nc)" "cl_progress w = Idle"
  shows "case cl_class w' of
      None \<Rightarrow> list_all (\<lambda>(c, p). p = Waiting) (cl_claims w')
    | Some nc' \<Rightarrow> TerminationFinalizer \<in> set (nc_finalizers nc')
        \<or> \<not> is_zero_time (nc_deletion_timestamp nc') \<and> list_all (\<lambda>(c, p). p = Waiting) (cl_claims w')"
proof -
  have "termination_inv w" using assms(3-5) by (simp add: termination_inv_def progress_ok_def class_ok_def held_def)
  from cluster_steps_inv [OF assms(1,2) this] show ?thesis
    by (simp add: termination_inv_def class_ok_def held_def unlaunched_def cong del: option.case_cong_weak)
qed

text \<open>
  C12 The comment in the controller says that there is no window in which a NodeClass can be
  deleted under running nodes. There is one: a NodeClass that is ready, of which the instance types
  can be listed and a server be created, can be launched from while this controller has yet to take
  the finalizer, because \<open>Create\<close> does not ask for it. \<open>Create\<close> then returns a NodeClaim; when the
  NodeClass is deleted before the controller's patch it is gone at once, with the server
  running; and the reconcile that still has the old object finds nothing to do. Had the controller
  reconciled first, the finalizer would be there.
\<close>

theorem Termination_window:
  assumes "reads_cluster E" "cl_class w = Some nc" "claim_nodeclass_ref c = Some name" "nc_finalizers nc = []"
    and "is_zero_time (nc_deletion_timestamp nc)" "cl_claims w = [(c, Waiting)]"
    and "cond_status (cpe_ready E nc) = CondTrue" "cond_observed_generation (cpe_ready E nc) = nc_generation nc"
    and "tpr_List (cpe_types E) nc w = Some (Inr its, w)"
    and "ipr_Create (cpe_instances E) nc c (Some (ManagedLabels nc c (cpe_clusterName E))) its w = (Inr i, w)"
  shows "Termination_check cluster_env nc w = (Inr (add_finalizer TerminationFinalizer nc), w)
     \<and> (\<exists>created. cp_Create E c w = Some (Inr created, w) \<and> claim_provider_id created = ProviderID (inst_id i))
     \<and> (\<exists>w'. (cluster_step E)\<^sup>*\<^sup>* w w' \<and> cl_class w' = None \<and> cl_claims w' = [(c, Running)]
          \<and> Termination_Reconcile cluster_env nc w' = (Inr 0, w'))
     \<and> cl_class (snd (Termination_Reconcile cluster_env nc w)) = Some (nc\<lparr>nc_finalizers := [TerminationFinalizer]\<rparr>)"
proof -
  have resolved: "resolveNodeClassFromNodeClaim E c w = Inr nc"
    using assms(1-3,5) by (simp add: resolveNodeClassFromNodeClaim_def reads_cluster_def)
  then have launchable: "launchable E c w nc" using assms(7,8) by (simp add: launchable_def)
  have check: "Termination_check cluster_env nc w = (Inr (add_finalizer TerminationFinalizer nc), w)"
    using assms(4,5) by (simp add: Termination_check_def)
  have created: "\<exists>created. cp_Create E c w = Some (Inr created, w) \<and> claim_provider_id created = ProviderID (inst_id i)"
    using assms(7-10) resolved by (simp add: cp_Create_def Let_def)
  let ?w1 = "w\<lparr>cl_claims := [] @ (c, Launching) # []\<rparr>"
  let ?w2 = "?w1\<lparr>cl_claims := [] @ (c, Running) # []\<rparr>"
  let ?w3 = "settle (?w2\<lparr>cl_class := Some (nc\<lparr>nc_deletion_timestamp := Some 1\<rparr>)\<rparr>)"
  have "cluster_step E w ?w1" using assms(6) by (intro resolve [OF _ launchable]) simp
  moreover have "cluster_step E ?w1 ?w2" by (rule launch) simp
  moreover have "cluster_step E ?w2 ?w3" using assms(2,5) by (intro delete) simp_all
  ultimately have steps: "(cluster_step E)\<^sup>*\<^sup>* w ?w3"
    by (meson converse_rtranclp_into_rtranclp rtranclp.rtrancl_refl)
  have gone: "cl_class ?w3 = None" "cl_claims ?w3 = [(c, Running)]"
    using assms(4) by (simp_all add: settle_class is_zero_time_def)
  then have stale: "Termination_Reconcile cluster_env nc ?w3 = (Inr 0, ?w3)"
    using assms(4,5) by (simp add: Termination_Reconcile_def Termination_check_def Termination_patch_def cluster_env_def
        newNotFound_def ignore_kube_not_found_def)
  have "cl_class (snd (Termination_Reconcile cluster_env nc w)) = Some (nc\<lparr>nc_finalizers := [TerminationFinalizer]\<rparr>)"
    using assms(2,4,5) by (simp add: Termination_Reconcile_def Termination_check_def Termination_patch_def cluster_env_def
        add_finalizer_def merge_finalizers_def settle_def)
  with check created steps gone stale show ?thesis by blast
qed

text \<open>
  C13 The wait ends: for a NodeClass that is terminating and held by this controller alone, with
  nothing half done, the first reconcile after the NodeClaims have been removed succeeds and
  the NodeClass is gone, which is a run of the cluster; and as long as one NodeClaim is left the
  reconcile changes nothing and asks to come back after ten seconds.
\<close>

theorem Termination_drains:
  assumes "cl_class w = Some nc" "nc_finalizers nc = [TerminationFinalizer]"
    and "\<not> is_zero_time (nc_deletion_timestamp nc)" "cl_progress w = Idle"
  shows "Termination_Reconcile cluster_env nc (w\<lparr>cl_claims := []\<rparr>) = (Inr 0, w\<lparr>cl_claims := [], cl_class := None\<rparr>)
     \<and> (cluster_step E)\<^sup>*\<^sup>* w (w\<lparr>cl_claims := [], cl_class := None\<rparr>)
     \<and> (cl_claims w \<noteq> [] \<longrightarrow> Termination_Reconcile cluster_env nc w = (Inr (10 * Second), w))"
proof (intro conjI)
  let ?w = "w\<lparr>cl_claims := []\<rparr>"
  let ?v = "(snd (Termination_Reconcile cluster_env nc ?w))\<lparr>cl_progress := Idle\<rparr>"
  show last: "Termination_Reconcile cluster_env nc ?w = (Inr 0, w\<lparr>cl_claims := [], cl_class := None\<rparr>)"
    using assms(1-3) by (simp add: Termination_Reconcile_def Termination_check_def Termination_patch_def cluster_env_def
        remove_finalizer_def merge_finalizers_def settle_def)
  have "(cluster_step E)\<^sup>*\<^sup>* w ?w" by (rule remove_claims)
  moreover have "(cluster_step E)\<^sup>*\<^sup>* ?w ?v" using assms(1,4) by (intro Termination_reconcile_steps) simp_all
  moreover have "?v = w\<lparr>cl_claims := [], cl_class := None\<rparr>" using assms(4) by (simp add: last)
  ultimately show "(cluster_step E)\<^sup>*\<^sup>* w (w\<lparr>cl_claims := [], cl_class := None\<rparr>)" by (metis rtranclp_trans)
  show "cl_claims w \<noteq> [] \<longrightarrow> Termination_Reconcile cluster_env nc w = (Inr (10 * Second), w)"
    using assms(3) by (simp add: Termination_Reconcile_def Termination_check_def cluster_env_def requeueWhileInUse_def)
qed

text \<open>A cloud provider that reads its NodeClass from the cluster.\<close>

definition cluster_cp :: "(rat, rat cluster) cp_env" where
  "cluster_cp =
     \<lparr>cpe_get_nodeclass = (\<lambda>name w. case cl_class w of Some nc \<Rightarrow> Inr nc | None \<Rightarrow> Inl (newNotFound nodeclassResource name)),
      cpe_get_nodepool = (\<lambda>name w. Inr \<lparr>pool_name = name, pool_uid = ''p-1'', pool_nodeclass_ref = Some ''default''\<rparr>),
      cpe_publish = (\<lambda>ev w. w), cpe_region = ''eu01'', cpe_types = \<lparr>tpr_List = (\<lambda>nc w. Some (Inr sample_its, w))\<rparr>,
      cpe_instances = lift_provider (\<lambda>w. sample_ip_state ()) (\<lambda>a w. w) (default_provider (sample_ip_env creating_api)),
      cpe_clusterName = ''prod'', cpe_ready = (\<lambda>nc. sample_ready), cpe_text = (\<lambda>_. []), cpe_hash = (\<lambda>_. ''42''),
      cpe_quantity = rat_quantity, cpe_allocatable = it_capacity\<rparr>"

definition sample_cluster :: "string list \<Rightarrow> (rat nodeclaim \<times> launch_phase) list \<Rightarrow> int option \<Rightarrow> rat cluster" where
  "sample_cluster finalizers claims deleted =
     \<lparr>cl_class = Some (sample_class\<lparr>nc_finalizers := finalizers, nc_deletion_timestamp := deleted\<rparr>),
      cl_claims = claims, cl_progress = Idle\<rparr>"

lemma cluster_cp_reads: "reads_cluster cluster_cp"
  by (simp add: reads_cluster_def cluster_cp_def)

lemma sample_cluster_launchable:
  "launchable cluster_cp sample_claim (sample_cluster fs cs None) (sample_class\<lparr>nc_finalizers := fs, nc_deletion_timestamp := None\<rparr>)"
  by (simp add: launchable_def resolveNodeClassFromNodeClaim_def cluster_cp_def sample_cluster_def sample_claim_def
      sample_ready_def sample_class_def sample_launch_class_def is_zero_time_def)

lemma sample_cluster_creates:
  fixes w :: "rat cluster"
  defines "nc \<equiv> sample_class\<lparr>nc_finalizers := [], nc_deletion_timestamp := None\<rparr>"
  shows "\<exists>i. ipr_Create (cpe_instances cluster_cp) nc sample_claim (Some (ManagedLabels nc sample_claim ''prod'')) sample_its w = (Inr i, w)"
proof -
  let ?IE = "sample_ip_env (creating_api :: unit api)"
  let ?it = "sample_it ''g1.2'' [sample_offering ''eu01-1'' 1 True]"
  let ?labels = "Some (ManagedLabels nc sample_claim ''prod'')"
  have "is_ok (createPayload nc sample_claim ?it ''eu01-1'' ?labels)"
    by (simp add: nc_def createPayload_def networking_def serverName_def sample_class_def sample_launch_class_def sample_claim_def
        get_or_def maxServerNameLength_def Let_def)
  then obtain p where p: "createPayload nc sample_claim ?it ''eu01-1'' ?labels = Inr p" unfolding is_ok_iff by blast
  have "cheapestOffering (ip_quantity ?IE) (ip_sched ?IE) sample_its sample_claim = Inr (?it, ''eu01-1'')"
    by (simp add: sample_ip_env_def sample_choice)
  then have "is_ok (fst (ip_Create ?IE nc sample_claim ?labels sample_its (sample_ip_state ())))"
    using p by (simp add: ip_Create_def Let_def sample_ip_env_def creating_api_def)
  then obtain i where "fst (ip_Create ?IE nc sample_claim ?labels sample_its (sample_ip_state ())) = Inr i" unfolding is_ok_iff by blast
  then show ?thesis by (simp add: cluster_cp_def lift_provider_def default_provider_def on_part_def split_beta)
qed

theorem Termination_window_witness:
  "\<exists>w'. (cluster_step cluster_cp)\<^sup>*\<^sup>* (sample_cluster [] [(sample_claim, Waiting)] None) w'
     \<and> cl_class w' = None \<and> cl_claims w' = [(sample_claim, Running)]"
proof -
  let ?nc = "sample_class\<lparr>nc_finalizers := [], nc_deletion_timestamp := None\<rparr>"
  let ?w = "sample_cluster [] [(sample_claim, Waiting)] None"
  obtain i where i: "ipr_Create (cpe_instances cluster_cp) ?nc sample_claim (Some (ManagedLabels ?nc sample_claim (cpe_clusterName cluster_cp)))
      sample_its ?w = (Inr i, ?w)"
    using sample_cluster_creates [of ?w] by (auto simp: cluster_cp_def)
  have "claim_nodeclass_ref sample_claim = Some ''default''" "cl_class ?w = Some ?nc" "cl_claims ?w = [(sample_claim, Waiting)]"
    by (simp_all add: sample_claim_def sample_cluster_def)
  moreover have "cond_status (cpe_ready cluster_cp ?nc) = CondTrue" "tpr_List (cpe_types cluster_cp) ?nc ?w = Some (Inr sample_its, ?w)"
      "cond_observed_generation (cpe_ready cluster_cp ?nc) = nc_generation ?nc"
    by (simp_all add: cluster_cp_def sample_ready_def sample_class_def sample_launch_class_def)
  ultimately show ?thesis
    using Termination_window [where E = cluster_cp and w = ?w and nc = ?nc, OF cluster_cp_reads _ _ _ _ _ _ _ _ i]
    by (simp add: is_zero_time_def) blast
qed

theorem Termination_drains_witness:
  "(cluster_step cluster_cp)\<^sup>*\<^sup>* (sample_cluster [TerminationFinalizer] [(sample_claim, Running)] (Some 1))
      ((sample_cluster [TerminationFinalizer] [] (Some 1))\<lparr>cl_class := None\<rparr>)
   \<and> fst (Termination_Reconcile cluster_env (sample_class\<lparr>nc_finalizers := [TerminationFinalizer], nc_deletion_timestamp := Some 1\<rparr>)
        (sample_cluster [TerminationFinalizer] [(sample_claim, Running)] (Some 1))) = Inr (10 * Second)"
proof -
  let ?nc = "sample_class\<lparr>nc_finalizers := [TerminationFinalizer], nc_deletion_timestamp := Some 1\<rparr>"
  let ?w = "sample_cluster [TerminationFinalizer] [(sample_claim, Running)] (Some 1)"
  have "cl_class ?w = Some ?nc" "cl_progress ?w = Idle" "cl_claims ?w \<noteq> []"
      "?w\<lparr>cl_claims := [], cl_class := None\<rparr> = (sample_cluster [TerminationFinalizer] [] (Some 1))\<lparr>cl_class := None\<rparr>"
    by (simp_all add: sample_cluster_def)
  with Termination_drains [of ?w ?nc cluster_cp] show ?thesis by (auto simp: is_zero_time_def)
qed

theorem Termination_safe_witness:
  "\<exists>w'. (cluster_step cluster_cp)\<^sup>*\<^sup>* (sample_cluster [TerminationFinalizer] [(sample_claim, Waiting)] None) w'
     \<and> cl_claims w' = [(sample_claim, Running)] \<and> cl_class w' \<noteq> None"
proof -
  let ?w = "sample_cluster [TerminationFinalizer] [(sample_claim, Waiting)] None"
  let ?w1 = "?w\<lparr>cl_claims := [] @ (sample_claim, Launching) # []\<rparr>"
  let ?w2 = "?w1\<lparr>cl_claims := [] @ (sample_claim, Running) # []\<rparr>"
  have "cluster_step cluster_cp ?w ?w1"
    by (rule resolve [OF _ sample_cluster_launchable]) (simp add: sample_cluster_def)
  moreover have "cluster_step cluster_cp ?w1 ?w2" by (rule launch) simp
  ultimately have steps: "(cluster_step cluster_cp)\<^sup>*\<^sup>* ?w ?w2" by (meson converse_rtranclp_into_rtranclp rtranclp.rtrancl_refl)
  have "cl_class ?w = Some (sample_class\<lparr>nc_finalizers := [TerminationFinalizer], nc_deletion_timestamp := None\<rparr>)"
      "cl_progress ?w = Idle" by (simp_all add: sample_cluster_def)
  from Termination_safe [OF cluster_cp_reads steps this(1) _ this(2)] steps show ?thesis
    by (intro exI [of _ ?w2]) (auto split: option.splits)
qed

end
