(* ===== verification/Options.thy ===== *)
theory Options
  imports Pricing Utils
begin

text \<open>
  \<open>pkg/operator/options/options.go\<close>: the options of the operator, their defaults from the
  environment, and what is accepted at startup. The flag set belongs to karpenter, which
  registers flags of its own on it: parsing the arguments is a parameter.
\<close>

section \<open>The options\<close>

record options =
  opt_ClusterName :: string
  opt_ProjectID :: string
  opt_Region :: string
  opt_VMMemoryOverheadPercent :: f64
  opt_PricingOverrides :: "f64 gomap"
  opt_DisableDryRun :: bool
  opt_rawPricingOverrides :: string

text \<open>
  The values the flags start from: \<open>env\<close> is a variable of the environment, \<open>env_string\<close> and
  \<open>env_bool\<close> are \<open>env.WithDefaultString\<close> and the default of \<open>BoolVarWithEnv\<close> of karpenter.
\<close>

definition AddFlags ::
  "(string \<Rightarrow> string option) \<Rightarrow> (string \<Rightarrow> string \<Rightarrow> string) \<Rightarrow> (string \<Rightarrow> bool \<Rightarrow> bool) \<Rightarrow> options" where
  "AddFlags env env_string env_bool =
     \<lparr>opt_ClusterName = env_string ''CLUSTER_NAME'' [],
      opt_ProjectID = env_string ''STACKIT_PROJECT_ID'' [],
      opt_Region = env_string ''STACKIT_REGION'' [],
      opt_VMMemoryOverheadPercent = WithDefaultFloat64 env ''VM_MEMORY_OVERHEAD_PERCENT'' (rnd (75 / 1000)),
      opt_PricingOverrides = [],
      opt_DisableDryRun = env_bool ''DISABLE_DRY_RUN'' False,
      opt_rawPricingOverrides = env_string ''PRICING_OVERRIDES'' []\<rparr>"

text \<open>\<open>show_float\<close> prints a \<open>float64\<close> with \<open>%v\<close>.\<close>

definition Validate :: "(f64 \<Rightarrow> string) \<Rightarrow> options \<Rightarrow> go_error option" where
  "Validate show_float opts =
     (let errs = [];
          errs = (if opt_ClusterName opts = []
                  then errs @ [Errorf ''missing required --cluster-name (or CLUSTER_NAME)'' []] else errs);
          errs = (if opt_ProjectID opts = []
                  then errs @ [Errorf ''missing required --project-id (or STACKIT_PROJECT_ID)'' []] else errs);
          errs = (if opt_Region opts = []
                  then errs @ [Errorf ''missing required --region (or STACKIT_REGION)'' []] else errs);
          errs = (if opt_VMMemoryOverheadPercent opts < Fin 0 \<or> Fin 1 \<le> opt_VMMemoryOverheadPercent opts
                  then errs @ [Errorf ''--vm-memory-overhead-percent must be in [0, 1), got %v''
                                 [show_float (opt_VMMemoryOverheadPercent opts)]] else errs)
      in combine_errors (map Some errs))"

text \<open>A request for help ends the process.\<close>

datatype flag_error = ErrHelp | FlagError go_error

datatype parse_outcome = Exit int | Failed go_error | Parsed

definition Parse ::
  "(f64 \<Rightarrow> string) \<Rightarrow> (string list \<Rightarrow> options \<Rightarrow> flag_error option \<times> options) \<Rightarrow> string list \<Rightarrow> options
   \<Rightarrow> parse_outcome \<times> options" where
  "Parse show_float fs_parse args opts =
     (case fs_parse args opts of
        (Some ErrHelp, opts) \<Rightarrow> (Exit 0, opts)
      | (Some (FlagError err), opts) \<Rightarrow> (Failed (Wrapf ''parsing flags'' [] err), opts)
      | (None, opts) \<Rightarrow>
          (case ParseOverrides (opt_rawPricingOverrides opts) of
             Inl err \<Rightarrow> (Failed (Wrapf ''parsing --pricing-overrides'' [] err), opts)
           | Inr overrides \<Rightarrow>
               let opts = opts\<lparr>opt_PricingOverrides := overrides\<rparr> in
               (case Validate show_float opts of
                  Some err \<Rightarrow> (Failed (Wrapf ''validating options'' [] err), opts)
                | None \<Rightarrow> (Parsed, opts))))"

section \<open>The options in the context\<close>

text \<open>
  A \<open>context.Context\<close> as far as it carries values: \<open>context.WithValue\<close> puts one in front, and a
  lookup finds the innermost. Other packages put values under keys of their own.
\<close>

datatype ctx_key = OptionsKey | OtherKey string

datatype ctx_value = OptionsValue "options option" | OtherValue

datatype go_context = Background | WithValue go_context ctx_key ctx_value

fun ctx_Value :: "go_context \<Rightarrow> ctx_key \<Rightarrow> ctx_value option" where
  "ctx_Value Background key = None"
| "ctx_Value (WithValue ctx k v) key = (if k = key then Some v else ctx_Value ctx key)"

definition ToContext :: "go_context \<Rightarrow> options option \<Rightarrow> go_context" where
  "ToContext ctx opts = WithValue ctx OptionsKey (OptionsValue opts)"

text \<open>The method \<open>(*Options).ToContext\<close>, whose receiver may be nil.\<close>

definition Options_ToContext :: "options option \<Rightarrow> go_context \<Rightarrow> go_context" where
  "Options_ToContext opts ctx = ToContext ctx opts"

text \<open>The outer option is the panic of the type assertion.\<close>

definition FromContext :: "go_context \<Rightarrow> options option option" where
  "FromContext ctx =
     (case ctx_Value ctx OptionsKey of
        None \<Rightarrow> Some None
      | Some (OptionsValue opts) \<Rightarrow> Some opts
      | Some OtherValue \<Rightarrow> None)"

text \<open>What was put is found, also under values of other packages.\<close>

lemma FromContext_ToContext [simp]: "FromContext (ToContext ctx opts) = Some opts"
  by (simp add: FromContext_def ToContext_def)

lemma FromContext_other [simp]: "FromContext (WithValue ctx (OtherKey k) v) = FromContext ctx"
  by (simp add: FromContext_def)

section \<open>Facts\<close>

lemma combine_some: "combine_errors (map Some es) = (if es = [] then None else Some (Combined es))"
proof -
  have "List.map_filter id (map Some es) = es" by (induction es) auto
  then show ?thesis by (simp add: combine_errors_def)
qed

text \<open>What the documentation of the flags asks for.\<close>

definition overhead_ok :: "f64 \<Rightarrow> bool" where
  "overhead_ok pct \<longleftrightarrow> (case pct of Fin q \<Rightarrow> 0 \<le> q \<and> q < 1 | NaN \<Rightarrow> True | _ \<Rightarrow> False)"

lemma overhead_check: "(pct < Fin 0 \<or> Fin 1 \<le> pct) \<longleftrightarrow> \<not> overhead_ok pct"
  by (cases pct) (auto simp: overhead_ok_def less_f64_def)

lemma Validate_None_iff:
  "Validate show_float opts = None \<longleftrightarrow>
     opt_ClusterName opts \<noteq> [] \<and> opt_ProjectID opts \<noteq> [] \<and> opt_Region opts \<noteq> []
     \<and> overhead_ok (opt_VMMemoryOverheadPercent opts)"
  by (simp add: Validate_def Let_def combine_some overhead_check)

section \<open>Properties\<close>

text \<open>
  C34 What the operator starts with: the arguments are accepted exactly when they parse, name a
  cluster, a project and a region, give well formed price overrides, and give a memory overhead
  in the half open interval from 0 to 1, or NaN, which the check lets through although it is
  documented to be a fraction. Then the overrides are the parsed ones, none of them zero or
  negative, and nothing else has changed.
\<close>

theorem Options_accepted:
  "(fst (Parse show_float fs_parse args opts) = Parsed) =
     (case fs_parse args opts of
        (Some _, _) \<Rightarrow> False
      | (None, o1) \<Rightarrow>
          opt_ClusterName o1 \<noteq> [] \<and> opt_ProjectID o1 \<noteq> [] \<and> opt_Region o1 \<noteq> []
          \<and> (opt_VMMemoryOverheadPercent o1 = NaN
             \<or> (\<exists>q. opt_VMMemoryOverheadPercent o1 = Fin q \<and> 0 \<le> q \<and> q < 1))
          \<and> (\<exists>m. ParseOverrides (opt_rawPricingOverrides o1) = Inr m \<and> no_free_price m
               \<and> snd (Parse show_float fs_parse args opts) = o1\<lparr>opt_PricingOverrides := m\<rparr>))"
proof -
  obtain e o1 where p: "fs_parse args opts = (e, o1)" by force
  have ok: "overhead_ok pct \<longleftrightarrow> pct = NaN \<or> (\<exists>q. pct = Fin q \<and> 0 \<le> q \<and> q < 1)" for pct
    by (cases pct) (auto simp: overhead_ok_def)
  show ?thesis
  proof (cases e)
    case (Some err)
    with p show ?thesis by (cases err) (simp_all add: Parse_def)
  next
    case None
    show ?thesis
    proof (cases "ParseOverrides (opt_rawPricingOverrides o1)")
      case (Inl err)
      with p None show ?thesis by (simp add: Parse_def)
    next
      case (Inr m)
      let ?o = "o1\<lparr>opt_PricingOverrides := m\<rparr>"
      have "Parse show_float fs_parse args opts = (case Validate show_float ?o of
          Some err \<Rightarrow> (Failed (Wrapf ''validating options'' [] err), ?o) | None \<Rightarrow> (Parsed, ?o))"
        by (simp add: Parse_def p None Inr Let_def)
      then have "(fst (Parse show_float fs_parse args opts) = Parsed) = (Validate show_float ?o = None)"
          "snd (Parse show_float fs_parse args opts) = ?o"
        by (simp_all split: option.split)
      moreover have "(Validate show_float ?o = None) = (opt_ClusterName o1 \<noteq> [] \<and> opt_ProjectID o1 \<noteq> [] \<and> opt_Region o1 \<noteq> []
          \<and> (opt_VMMemoryOverheadPercent o1 = NaN
             \<or> (\<exists>q. opt_VMMemoryOverheadPercent o1 = Fin q \<and> 0 \<le> q \<and> q < 1)))"
        by (simp add: Validate_None_iff ok)
      ultimately show ?thesis using p None Inr ParseOverrides_no_free [OF Inr] by simp
    qed
  qed
qed

lemma no_overrides: "ParseOverrides [] = Inr []"
  by code_simp

lemma sample_options_NaN:
  "fst (Parse (\<lambda>_. []) (\<lambda>args o1. (None, o1\<lparr>opt_ClusterName := ''prod'', opt_ProjectID := ''p'', opt_Region := ''eu01'',
      opt_VMMemoryOverheadPercent := NaN\<rparr>)) [] (AddFlags (\<lambda>_. None) (\<lambda>_ d. d) (\<lambda>_ d. d))) = Parsed"
  by (simp add: Parse_def AddFlags_def no_overrides Validate_def Let_def combine_some less_f64_def)

end
