(* ===== verification/Operator.thy ===== *)
theory Operator
  imports Options InstanceTypeProvider Instance
begin

text \<open>
  \<open>pkg/operator/operator.go\<close>: the operator builds the providers from the options and loads the
  machine types and their prices before any controller starts;
  \<open>pkg/controllers/providers/instancetype\<close> and \<open>pricing\<close> load them again later.
\<close>

section \<open>Building the operator\<close>

text \<open>The packages the providers are built from, as each provider's theory describes them.\<close>

record ('c, 'ct, 'co, 'cd, 'ci, 'v, 'q, 'm, 'w) packages =
  pk_client :: "string \<Rightarrow> 'w sdk result"
  pk_quantity :: "'q quantity_ops"
  pk_sched :: "'q sched_ops"
  pk_lower :: "string \<Rightarrow> string"
  pk_oor :: "f64 \<Rightarrow> int"
  pk_key_hash :: "string \<times> string list \<times> int \<times> kubelet_configuration option \<Rightarrow> int"
  pk_zone_hash :: "string list \<Rightarrow> int"
  pk_uo_cache :: "('c, unit) cache_ops"
  pk_type_cache :: "('ct, 'q instance_type list) cache_ops"
  pk_offer_cache :: "('co, offering list) cache_ops"
  pk_discovered :: "('cd, 'q) cache_ops"
  pk_instance_cache :: "('ci, server_instance) cache_ops"
  pk_validation :: "('v, string list) cache_ops"
  pk_changed :: "string \<Rightarrow> machine_type list \<Rightarrow> 'm \<Rightarrow> bool \<times> 'm"
  pk_monitor :: 'm

record ('c, 'ct, 'co, 'cd, 'ci, 'v, 'q, 'm, 'w) operator =
  op_StackitClient :: "'w api"
  op_UnavailableOfferingsCache :: "'c unavailable_offerings"
  op_ValidationCache :: 'v
  op_types_env :: "('c, 'ct, 'co, 'cd, 'q, 'm, 'w) itp_env"
  op_types_state :: "('ct, 'co, 'cd, 'm) itp_state"
  op_overrides :: "f64 gomap"
  op_prices :: prices
  op_instances_env :: "('c, 'ci, 'q, 'w) ip_env"
  op_instances_cache :: 'ci

definition types_env ::
  "('c, 'ct, 'co, 'cd, 'ci, 'v, 'q, 'm, 'w) packages \<Rightarrow> options \<Rightarrow> 'w api \<Rightarrow> ('c, 'ct, 'co, 'cd, 'q, 'm, 'w) itp_env" where
  "types_env P opts client =
     \<lparr>env_api = client, env_quantity = pk_quantity P, env_lower = pk_lower P, env_oor = pk_oor P,
      env_share = opt_VMMemoryOverheadPercent opts, env_region = opt_Region opts,
      env_key_hash = pk_key_hash P, env_zone_hash = pk_zone_hash P, env_uo_cache = pk_uo_cache P,
      env_type_cache = pk_type_cache P, env_offer_cache = pk_offer_cache P, env_discovered = pk_discovered P,
      env_changed = pk_changed P\<rparr>"

definition types_state ::
  "('c, 'ct, 'co, 'cd, 'ci, 'v, 'q, 'm, 'w) packages \<Rightarrow> ('ct, 'co, 'cd, 'm) itp_state" where
  "types_state P =
     SetPricingProvider (itp_NewDefaultProvider
       (c_new (pk_type_cache P) InstanceTypesAndOfferingsTTL DefaultCleanupInterval)
       (c_new (pk_offer_cache P) InstanceTypesAndOfferingsTTL DefaultCleanupInterval)
       (c_new (pk_discovered P) DiscoveredCapacityCacheTTL DefaultCleanupInterval) (pk_monitor P))"

definition instances_env ::
  "('c, 'ct, 'co, 'cd, 'ci, 'v, 'q, 'm, 'w) packages \<Rightarrow> options \<Rightarrow> 'w api \<Rightarrow> ('c, 'ci, 'q, 'w) ip_env" where
  "instances_env P opts client =
     \<lparr>ip_clusterName = opt_ClusterName opts, ip_client = client, ip_quantity = pk_quantity P, ip_sched = pk_sched P,
      ip_lower = pk_lower P, ip_uo_ops = pk_uo_cache P, ip_cache_ops = pk_instance_cache P\<rparr>"

definition operator_client ::
  "('c, 'ct, 'co, 'cd, 'ci, 'v, 'q, 'm, 'w) packages \<Rightarrow> options \<Rightarrow> 'w api option \<Rightarrow> 'w api result" where
  "operator_client P opts stackitClient =
     (case stackitClient of
        Some client \<Rightarrow> Inr client
      | None \<Rightarrow>
          (case NewClient (pk_client P) (opt_ProjectID opts) (opt_Region opts) of
             Inl err \<Rightarrow> Inl (Wrapf ''creating stackit client'' [] err)
           | Inr client \<Rightarrow> Inr (client_as_api client)))"

definition NewOperator ::
  "('c, 'ct, 'co, 'cd, 'ci, 'v, 'q, 'm, 'w) packages \<Rightarrow> options \<Rightarrow> 'w api option \<Rightarrow> 'w
   \<Rightarrow> ('c, 'ct, 'co, 'cd, 'ci, 'v, 'q, 'm, 'w) operator result \<times> 'w" where
  "NewOperator P opts stackitClient w =
     (case operator_client P opts stackitClient of
        Inl err \<Rightarrow> (Inl err, w)
      | Inr client \<Rightarrow>
          let unavailableOfferings = NewUnavailableOfferings (pk_uo_cache P);
              validationCache = c_new (pk_validation P) ValidationTTL DefaultCleanupInterval;
              E = types_env P opts client
          in (case UpdateMachineTypes E (types_state P, w) of
                (Some err, _, w) \<Rightarrow> (Inl (Wrapf ''hydrating stackit machine types'' [] err), w)
              | (None, st, w) \<Rightarrow>
                  (case UpdatePrices (opt_PricingOverrides opts) (MachineTypeSpecs E) (Pricing_NewDefaultProvider, st, w) of
                     (Some err, _, _, w) \<Rightarrow> (Inl (Wrapf ''hydrating stackit prices'' [] err), w)
                   | (None, prices, st, w) \<Rightarrow>
                       (Inr \<lparr>op_StackitClient = client, op_UnavailableOfferingsCache = unavailableOfferings,
                             op_ValidationCache = validationCache, op_types_env = E, op_types_state = st,
                             op_overrides = opt_PricingOverrides opts, op_prices = prices,
                             op_instances_env = instances_env P opts client,
                             op_instances_cache = c_new (pk_instance_cache P) DefaultTTL DefaultCleanupInterval\<rparr>, w))))"

section \<open>The refresh controllers\<close>

definition refreshPeriod :: int where
  "refreshPeriod = 12 * Hour"

definition InstanceType_Reconcile ::
  "('c, 'ct, 'co, 'cd, 'q, 'm, 'w) itp_env \<Rightarrow> ('ct, 'co, 'cd, 'm) itp_state \<times> 'w
   \<Rightarrow> reconciled \<times> ('ct, 'co, 'cd, 'm) itp_state \<times> 'w" where
  "InstanceType_Reconcile E sw =
     (case UpdateMachineTypes E sw of
        (Some err, sw) \<Rightarrow> (Inl (Wrapf ''updating instance types'' [] err), sw)
      | (None, sw) \<Rightarrow> (Inr refreshPeriod, sw))"

definition pricing_refreshPeriod :: int where
  "pricing_refreshPeriod = 12 * Hour"

definition Pricing_Reconcile ::
  "f64 gomap \<Rightarrow> 's lister \<Rightarrow> prices \<times> 's \<Rightarrow> reconciled \<times> prices \<times> 's" where
  "Pricing_Reconcile overrides lister ps =
     (case UpdatePrices overrides lister ps of
        (Some err, ps) \<Rightarrow> (Inl (Wrapf ''updating prices'' [] err), ps)
      | (None, ps) \<Rightarrow> (Inr pricing_refreshPeriod, ps))"

section \<open>Facts\<close>

lemma specs_of_loaded:
  "itp_machine_types st \<noteq> [] \<Longrightarrow> MachineTypeSpecs E (st, w) = (Inr (map (spec_of \<circ> snd) (itp_machine_types st)), st, w)"
  by (simp add: MachineTypeSpecs_def)

lemma types_env_sel [simp]:
  "env_api (types_env P opts client) = client" "env_type_cache (types_env P opts client) = pk_type_cache P"
  "env_offer_cache (types_env P opts client) = pk_offer_cache P" "env_uo_cache (types_env P opts client) = pk_uo_cache P"
  "env_zone_hash (types_env P opts client) = pk_zone_hash P" "env_region (types_env P opts client) = opt_Region opts"
  by (simp_all add: types_env_def)

text \<open>What loading the machine types makes of the fresh state.\<close>

lemma hydrate:
  assumes "UpdateMachineTypes (types_env P opts client) (types_state P, w) = (None, st, w1)" "cache_laws (pk_type_cache P)"
  shows "\<exists>mts. fst (api_ListMachineTypes client w) = Inr mts \<and> mts \<noteq> [] \<and> itp_machine_types st = machine_type_map mts"
    "itp_discovered st = itp_discovered (types_state P)" "itp_offers st = itp_offers (types_state P)" "c_get (pk_type_cache P) (itp_types st) key = None"
  using assms by (auto simp: UpdateMachineTypes_def Let_def types_state_def split: sum.splits prod.splits if_splits)

lemma NewOperator_loaded:
  assumes "NewOperator P opts stackitClient w = (Inr op, w')"
  shows "\<exists>client w1. operator_client P opts stackitClient = Inr client \<and> op_types_env op = types_env P opts client
     \<and> UpdateMachineTypes (types_env P opts client) (types_state P, w) = (None, op_types_state op, w1)
     \<and> op_prices op = price_all (opt_PricingOverrides opts) (map (spec_of \<circ> snd) (itp_machine_types (op_types_state op))) []
     \<and> op_UnavailableOfferingsCache op = NewUnavailableOfferings (pk_uo_cache P)"
proof -
  obtain client where c: "operator_client P opts stackitClient = Inr client"
    using assms by (auto simp: NewOperator_def split: sum.splits)
  let ?E = "types_env P opts client"
  obtain st w1 where u: "UpdateMachineTypes ?E (types_state P, w) = (None, st, w1)"
    using assms c by (auto simp: NewOperator_def Let_def split: prod.splits option.splits)
  have ne: "itp_machine_types st \<noteq> []" by (rule UpdateMachineTypes_nonempty [OF u])
  then have p: "UpdatePrices (opt_PricingOverrides opts) (MachineTypeSpecs ?E) ([], st, w1) =
      (None, price_all (opt_PricingOverrides opts) (map (spec_of \<circ> snd) (itp_machine_types st)) [], st, w1)"
    by (simp add: UpdatePrices_def specs_of_loaded)
  show ?thesis using assms c u p by (auto simp: NewOperator_def Let_def)
qed

lemma NewOperator_ok_iff:
  "is_ok (fst (NewOperator P opts stackitClient w)) =
     (case operator_client P opts stackitClient of
        Inl _ \<Rightarrow> False
      | Inr client \<Rightarrow> (case fst (api_ListMachineTypes client w) of Inl _ \<Rightarrow> False | Inr mts \<Rightarrow> mts \<noteq> []))"
proof (cases "operator_client P opts stackitClient")
  case (Inl err)
  then show ?thesis by (simp add: NewOperator_def)
next
  case (Inr client)
  let ?E = "types_env P opts client"
  obtain e st w1 where u: "UpdateMachineTypes ?E (types_state P, w) = (e, st, w1)" by (rule prod_cases3)
  have e: "e = None \<longleftrightarrow> (case fst (api_ListMachineTypes client w) of Inl _ \<Rightarrow> False | Inr mts \<Rightarrow> mts \<noteq> [])"
    using u by (auto simp: UpdateMachineTypes_def Let_def split: sum.splits prod.splits if_splits)
  show ?thesis
  proof (cases e)
    case (Some err)
    with Inr u e show ?thesis by (simp add: NewOperator_def)
  next
    case None
    then have "itp_machine_types st \<noteq> []" using UpdateMachineTypes_nonempty u by simp
    then have "fst (UpdatePrices (opt_PricingOverrides opts) (MachineTypeSpecs ?E) ([], st, w1)) = None"
      by (simp add: UpdatePrices_def specs_of_loaded)
    with Inr u e None show ?thesis by (auto simp: NewOperator_def Let_def split: prod.splits option.splits)
  qed
qed

text \<open>The first offerings of every instance type are computed, since no entry is in the cache.\<close>

lemma createOfferings_fresh:
  assumes "cache_laws OC" "c_get OC (off_cache st) (Offering_cacheKey zh name region zones) = None"
  shows "fst (createOfferings C OC zh price u name region zones st) = compute_offerings C price u name region zones"
    "name' \<noteq> name \<Longrightarrow>
       c_get OC (off_cache (snd (createOfferings C OC zh price u name region zones st))) (Offering_cacheKey zh name' region zones) =
       c_get OC (off_cache st) (Offering_cacheKey zh name' region zones)"
  using assms by (simp_all add: createOfferings_def Let_def cacheKey_inj)

lemma inject_fresh:
  assumes "cache_laws OC"
  shows "distinct (map it_name its) \<Longrightarrow>
     list_all (\<lambda>it. c_get OC (off_cache st) (Offering_cacheKey zh (it_name it) region zones) = None) its \<Longrightarrow>
     fst (InjectOfferings C OC zh price u its region zones st) =
     map (\<lambda>it. it\<lparr>it_offerings := compute_offerings C price u (it_name it) region zones\<rparr>) its"
proof (induction its arbitrary: st)
  case Nil
  then show ?case by simp
next
  case (Cons it its)
  let ?c = "createOfferings C OC zh price u (it_name it) region zones st"
  have c: "fst ?c = compute_offerings C price u (it_name it) region zones"
    by (rule createOfferings_fresh(1) [OF assms]) (use Cons.prems(2) in simp)
  have "list_all (\<lambda>i. c_get OC (off_cache (snd ?c)) (Offering_cacheKey zh (it_name i) region zones) = None) its"
    unfolding list_all_iff
  proof
    fix i assume i: "i \<in> set its"
    then have "it_name i \<noteq> it_name it" using distinct_map_neq [OF Cons.prems(1)] by blast
    then have "c_get OC (off_cache (snd ?c)) (Offering_cacheKey zh (it_name i) region zones) =
        c_get OC (off_cache st) (Offering_cacheKey zh (it_name i) region zones)"
      by (intro createOfferings_fresh(2) [OF assms]) (use Cons.prems(2) in simp_all)
    then show "c_get OC (off_cache (snd ?c)) (Offering_cacheKey zh (it_name i) region zones) = None"
      using Cons.prems(2) i by (simp add: list_all_iff)
  qed
  with Cons c show ?case by (simp add: Let_def split_beta)
qed

lemma new_available: "cache_laws C \<Longrightarrow> \<not> IsUnavailable C (NewUnavailableOfferings C) name zone"
  by (simp add: IsUnavailable_def NewUnavailableOfferings_def)

text \<open>The catalogue's prices: the override or the model's price of the machine type of the name.\<close>

lemma find_spec:
  assumes "catalogue_ok m" "map_of m name = Some mt"
  shows "find (\<lambda>spec. ms_name spec = name) (rev (map (spec_of \<circ> snd) m)) = Some (spec_of mt)"
proof -
  have "distinct (map ms_name (rev (map (spec_of \<circ> snd) m)))" using catalogue_specs [OF assms(1)] by (simp only: rev_map [symmetric] distinct_rev)
  moreover have "(name, mt) \<in> set m" using assms(2) by (rule map_of_SomeD)
  then have "spec_of mt \<in> set (rev (map (spec_of \<circ> snd) m))" "ms_name (spec_of mt) = name"
    using assms(1) by (auto simp: catalogue_ok_def list_all_iff spec_of_def image_iff intro!: bexI [of _ "(name, mt)"])
  moreover have "find (\<lambda>spec. ms_name spec = ms_name x) xs = Some x"
    if "distinct (map ms_name xs)" "x \<in> set xs" for x and xs :: "machine_type_spec list"
    using that by (induction xs) (auto simp: image_iff)
  ultimately show ?thesis by blast
qed

lemma catalogue_price:
  assumes "catalogue_ok m" "map_of m name = Some mt"
  shows "Price (price_all overrides (map (spec_of \<circ> snd) m) []) name =
     Some (case map_of overrides name of Some p \<Rightarrow> p | None \<Rightarrow> ModelPrice (spec_of mt))"
  by (simp add: Price_def price_all_lookup book_price_def find_spec [OF assms] del: map_map)

section \<open>Properties\<close>

text \<open>
  What makes a start fail: for options that were accepted, and without an injected client,
  the operator is built exactly when the SDK gives a client for the region and the first listing
  of machine types succeeds and is not empty; prices cannot fail after that.
\<close>

lemma Operator_startup:
  assumes "Parse show_float fs_parse args opts0 = (Parsed, opts)"
  shows "is_ok (fst (NewOperator P opts None w)) =
     (case pk_client P (opt_Region opts) of
        Inl _ \<Rightarrow> False
      | Inr sdk \<Rightarrow>
          (case fst (ListMachineTypes \<lparr>client_api = sdk, client_projectID = opt_ProjectID opts, client_region = opt_Region opts\<rparr> w) of
             Inl _ \<Rightarrow> False | Inr mts \<Rightarrow> mts \<noteq> []))"
proof -
  obtain o1 m where o: "opts = o1\<lparr>opt_PricingOverrides := m\<rparr>" "Validate show_float opts = None"
    using assms by (auto simp: Parse_def Let_def split: prod.splits option.splits flag_error.splits sum.splits)
  then have "opt_ProjectID opts \<noteq> [] \<and> opt_Region opts \<noteq> []" unfolding Validate_None_iff by blast
  then show ?thesis
    by (simp add: NewOperator_ok_iff operator_client_def NewClient_def client_as_api_def split: sum.split)
qed

text \<open>
  C20 The first scheduling pass sees everything: right after the operator has been built, listing
  the instance types of any NodeClass with resolved zones, when the listing returns and does not
  panic on a quantity of the kubelet configuration that does not parse, gives every machine type of
  the catalogue once, with one available offering in each of the zones, at the price of its
  override or else of the model.
\<close>

theorem Operator_hydrated:
  assumes "NewOperator P opts stackitClient w = (Inr op, w')" "availability_zone_ids nodeClass \<noteq> []"
    and "cache_laws (pk_type_cache P)" "cache_laws (pk_offer_cache P)" "cache_laws (pk_uo_cache P)"
    and "itp_List (op_types_env op) (Some (Price (op_prices op))) (op_UnavailableOfferingsCache op) nodeClass (op_types_state op)
           = Some (r, st')"
  shows "\<exists>its. r = Inr its \<and> its \<noteq> [] \<and> map it_name its = keys (itp_machine_types (op_types_state op))
     \<and> list_all (\<lambda>it. \<exists>mt. map_of (itp_machine_types (op_types_state op)) (it_name it) = Some mt
          \<and> map (\<lambda>x. (map_of (of_requirements x) LabelTopologyZone, of_price x, of_available x)) (it_offerings it)
          = map (\<lambda>zone. (Some [SanitizeZone zone],
                         case map_of (opt_PricingOverrides opts) (it_name it) of
                           Some p \<Rightarrow> p | None \<Rightarrow> ModelPrice (spec_of mt), True))
                (availability_zone_ids nodeClass)) its"
proof -
  let ?st = "op_types_state op" and ?prices = "op_prices op"
  let ?zones = "availability_zone_ids nodeClass" and ?u = "op_UnavailableOfferingsCache op"
  obtain client w1 where op: "op_types_env op = types_env P opts client"
      "UpdateMachineTypes (types_env P opts client) (types_state P, w) = (None, ?st, w1)"
      "?prices = price_all (opt_PricingOverrides opts) (map (spec_of \<circ> snd) (itp_machine_types ?st)) []"
      "?u = NewUnavailableOfferings (pk_uo_cache P)"
    using NewOperator_loaded [OF assms(1)] by blast
  note h = hydrate [OF op(2) assms(3)]
  have ne: "itp_machine_types ?st \<noteq> []" by (rule UpdateMachineTypes_nonempty [OF op(2)])
  have cat: "catalogue_ok (itp_machine_types ?st)" using h(1) machine_type_map_ok by auto
  obtain its where all: "itp_all (op_types_env op) nodeClass ?st (keys (itp_machine_types ?st)) = Some its"
    and r: "r = Inr (fst (InjectOfferings (pk_uo_cache P) (pk_offer_cache P) (pk_zone_hash P) (Price ?prices) ?u its
          (opt_Region opts) ?zones (itp_offers ?st)))"
    using assms(2,6) ne by (auto simp: itp_List_def Let_def op(1) h(4) split_beta split: bind_splits)
  have names: "map it_name its = keys (itp_machine_types ?st)" by (rule itp_all_names [OF cat _ all]) simp
  have "list_all (\<lambda>it. c_get (pk_offer_cache P) (off_cache (itp_offers ?st))
          (Offering_cacheKey (pk_zone_hash P) (it_name it) (opt_Region opts) ?zones) = None) its"
    using assms(4) by (simp add: h(3) types_state_def list_all_iff)
  moreover have "distinct (map it_name its)" using names cat by (simp only: catalogue_ok_def)
  ultimately have "r = Inr (map (\<lambda>it. it\<lparr>it_offerings := compute_offerings (pk_uo_cache P) (Price ?prices) ?u (it_name it)
      (opt_Region opts) ?zones\<rparr>) its)"
    by (simp add: r inject_fresh [OF assms(4)])
  moreover have "\<exists>mt. map_of (itp_machine_types ?st) (it_name it) = Some mt
      \<and> Price ?prices (it_name it) = Some (case map_of (opt_PricingOverrides opts) (it_name it) of
            Some p \<Rightarrow> p | None \<Rightarrow> ModelPrice (spec_of mt))" if "it \<in> set its" for it
  proof -
    have "it_name it \<in> set (keys (itp_machine_types ?st))" using that names by (metis image_eqI set_map)
    then obtain mt where "map_of (itp_machine_types ?st) (it_name it) = Some mt" by (metis map_of_eq_None_iff not_None_eq set_map)
    with catalogue_price [OF cat this] show ?thesis by (simp add: op(3))
  qed
  moreover have "its \<noteq> []" using names ne by auto
  ultimately show ?thesis
    using names new_available [OF assms(5)]
    by (fastforce simp: list_all_iff op(4) compute_offerings_def zone_offering_def Let_def comp_def)
qed

text \<open>Refreshes in any order, whatever the API answers: \<open>w\<close> carries its answers.\<close>

datatype refresh = RefreshTypes | RefreshPrices

fun refresh_run ::
  "('c, 'ct, 'co, 'cd, 'q, 'm, 'w) itp_env \<Rightarrow> f64 gomap \<Rightarrow> refresh list
   \<Rightarrow> prices \<times> ('ct, 'co, 'cd, 'm) itp_state \<times> 'w \<Rightarrow> prices \<times> ('ct, 'co, 'cd, 'm) itp_state \<times> 'w" where
  "refresh_run E overrides [] s = s"
| "refresh_run E overrides (r # rs) s =
     refresh_run E overrides rs
       (case r of
          RefreshTypes \<Rightarrow> (let (prices, sw) = s in (prices, snd (InstanceType_Reconcile E sw)))
        | RefreshPrices \<Rightarrow> snd (Pricing_Reconcile overrides (MachineTypeSpecs E) s))"

definition loaded :: "prices \<times> ('ct, 'co, 'cd, 'm) itp_state \<times> 'w \<Rightarrow> bool" where
  "loaded s \<longleftrightarrow> catalogue_ok (itp_machine_types (fst (snd s))) \<and> itp_machine_types (fst (snd s)) \<noteq> []"

lemma types_refresh_loaded:
  assumes "loaded (prices, sw)"
  shows "loaded (prices, snd (InstanceType_Reconcile E sw))"
proof -
  obtain st w where sw: "sw = (st, w)" by force
  obtain e st' w' where u: "UpdateMachineTypes E (st, w) = (e, st', w')" by (rule prod_cases3)
  have "itp_inv (st, w)" using assms sw by (simp add: loaded_def itp_inv_def)
  from UpdateMachineTypes_inv [OF this, of E] u have "catalogue_ok (itp_machine_types st')" by (simp add: itp_inv_def)
  moreover have "itp_machine_types st' \<noteq> []"
  proof (cases e)
    case None
    with u UpdateMachineTypes_nonempty show ?thesis by metis
  next
    case (Some err)
    then have "itp_machine_types st' = itp_machine_types st"
      using u by (auto simp: UpdateMachineTypes_def Let_def split: sum.splits prod.splits if_splits)
    with assms sw show ?thesis by (simp add: loaded_def)
  qed
  ultimately show ?thesis using u sw by (simp add: InstanceType_Reconcile_def loaded_def split: option.split)
qed

text \<open>A price refresh of a loaded catalogue cannot fail: it does not ask the API.\<close>

lemma price_refresh:
  assumes "loaded (prices, st, w)"
  shows "Pricing_Reconcile overrides (MachineTypeSpecs E) (prices, st, w) =
     (Inr pricing_refreshPeriod, price_all overrides (map (spec_of \<circ> snd) (itp_machine_types st)) [], st, w)"
  using assms by (simp add: Pricing_Reconcile_def UpdatePrices_def specs_of_loaded loaded_def)

lemma refresh_run_loaded: "loaded s \<Longrightarrow> loaded (refresh_run E overrides rs s)"
proof (induction rs arbitrary: s)
  case (Cons r rs)
  obtain prices st w where s: "s = (prices, st, w)" by (rule prod_cases3)
  show ?case
  proof (cases r)
    case RefreshTypes
    with Cons types_refresh_loaded [of prices "(st, w)" E] s show ?thesis by simp
  next
    case RefreshPrices
    with Cons price_refresh [of prices st w overrides E] s show ?thesis by (simp add: loaded_def)
  qed
qed simp

lemma refresh_run_append: "refresh_run E overrides (rs @ qs) s = refresh_run E overrides qs (refresh_run E overrides rs s)"
  by (induction rs arbitrary: s) simp_all

text \<open>
  The operator never goes blind again: after a successful start, whatever the later refreshes
  of machine types and prices do and whatever STACKIT answers them, listing the instance types
  of a NodeClass with resolved zones does not report an error, and right after a refresh of the
  prices every machine type of the catalogue has the price of its override or of the model.
\<close>

lemma Refresh_keeps_serving:
  assumes "NewOperator P opts stackitClient w = (Inr op, w')" "cache_laws (pk_type_cache P)"
    and "refresh_run (op_types_env op) (op_overrides op) rs (op_prices op, op_types_state op, w0) = (prices, st, w1)"
  shows "(availability_zone_ids nodeClass \<noteq> [] \<longrightarrow>
        (\<forall>err st'. itp_List (op_types_env op) (Some (Price prices)) u nodeClass st \<noteq> Some (Inl err, st')))
     \<and> (rs \<noteq> [] \<and> last rs = RefreshPrices \<longrightarrow>
        (\<forall>name mt. map_of (itp_machine_types st) name = Some mt \<longrightarrow>
           Price prices name = Some (case map_of (op_overrides op) name of Some p \<Rightarrow> p | None \<Rightarrow> ModelPrice (spec_of mt))))"
proof
  obtain client w2 where op: "UpdateMachineTypes (types_env P opts client) (types_state P, w) = (None, op_types_state op, w2)"
    using NewOperator_loaded [OF assms(1)] by blast
  have start: "loaded (op_prices op, op_types_state op, w0)"
    using hydrate(1) [OF op assms(2)] machine_type_map_ok UpdateMachineTypes_nonempty [OF op] by (auto simp: loaded_def)
  from refresh_run_loaded [OF this] assms(3) have "loaded (prices, st, w1)" by metis
  then have ne: "itp_machine_types st \<noteq> []" by (simp add: loaded_def)
  show "availability_zone_ids nodeClass \<noteq> [] \<longrightarrow>
        (\<forall>err st'. itp_List (op_types_env op) (Some (Price prices)) u nodeClass st \<noteq> Some (Inl err, st'))"
    using ne by (auto simp: itp_List_def Let_def split: bind_splits prod.splits)
  show "rs \<noteq> [] \<and> last rs = RefreshPrices \<longrightarrow>
        (\<forall>name mt. map_of (itp_machine_types st) name = Some mt \<longrightarrow>
           Price prices name = Some (case map_of (op_overrides op) name of Some p \<Rightarrow> p | None \<Rightarrow> ModelPrice (spec_of mt)))"
  proof (intro impI allI)
    fix name mt assume last: "rs \<noteq> [] \<and> last rs = RefreshPrices" and mt: "map_of (itp_machine_types st) name = Some mt"
    then have rs: "rs = butlast rs @ [RefreshPrices]" by (metis append_butlast_last_id)
    obtain prices0 st0 w3 where s0: "refresh_run (op_types_env op) (op_overrides op) (butlast rs)
        (op_prices op, op_types_state op, w0) = (prices0, st0, w3)" by (rule prod_cases3)
    then have l0: "loaded (prices0, st0, w3)" using refresh_run_loaded [OF start] by metis
    have "(prices, st, w1) = refresh_run (op_types_env op) (op_overrides op) [RefreshPrices] (prices0, st0, w3)"
      using assms(3) s0 rs by (metis refresh_run_append)
    then have "prices = price_all (op_overrides op) (map (spec_of \<circ> snd) (itp_machine_types st)) []"
      by (simp add: price_refresh [OF l0])
    moreover have "catalogue_ok (itp_machine_types st)" using \<open>loaded (prices, st, w1)\<close> by (simp add: loaded_def)
    ultimately show "Price prices name = Some (case map_of (op_overrides op) name of Some p \<Rightarrow> p | None \<Rightarrow> ModelPrice (spec_of mt))"
      using catalogue_price [OF _ mt] by simp
  qed
qed

section \<open>An operator with one machine type\<close>

definition sample_sdk :: "machine_type list \<Rightarrow> unit sdk" where
  "sample_sdk mts =
     \<lparr>sdk_create_server = (\<lambda>p r pl w. (Inl (ApiError 409 [] []), w)), sdk_get_server = (\<lambda>p r i w. (Inl (ApiError 404 [] []), w)),
      sdk_delete_server = (\<lambda>p r i w. (None, w)), sdk_list_servers = (\<lambda>p r d sel w. (Inr None, w)),
      sdk_update_server = (\<lambda>p r i l w. (None, w)), sdk_list_machine_types = (\<lambda>p r w. (Inr (Some mts), w)),
      sdk_list_availability_zones = (\<lambda>r w. (Inr None, w)), sdk_delete_volume = (\<lambda>p r i w. (None, w))\<rparr>"

definition sample_packages ::
  "machine_type list \<Rightarrow>
   (unit timed, rat instance_type list timed, offering list timed, rat timed, server_instance timed, string list timed,
    rat, machine_type list, unit) packages" where
  "sample_packages mts =
     \<lparr>pk_client = (\<lambda>region. Inr (sample_sdk mts)), pk_quantity = rat_quantity, pk_sched = simple_sched, pk_lower = id,
      pk_oor = (\<lambda>_. 0), pk_key_hash = (\<lambda>_. 7), pk_zone_hash = (\<lambda>zs. int (length zs)), pk_uo_cache = timed_cache,
      pk_type_cache = timed_cache, pk_offer_cache = timed_cache, pk_discovered = timed_cache,
      pk_instance_cache = timed_cache, pk_validation = timed_cache, pk_changed = (\<lambda>_ mts m. (mts \<noteq> m, mts)), pk_monitor = []\<rparr>"

definition sample_options :: options where
  "sample_options =
     \<lparr>opt_ClusterName = ''prod'', opt_ProjectID = ''p-1'', opt_Region = ''eu01'', opt_VMMemoryOverheadPercent = Fin 0,
      opt_PricingOverrides = [], opt_DisableDryRun = False, opt_rawPricingOverrides = []\<rparr>"

lemma sample_packages_caches:
  "cache_laws (pk_type_cache (sample_packages mts))" "cache_laws (pk_offer_cache (sample_packages mts))"
  "cache_laws (pk_uo_cache (sample_packages mts))"
  by (simp_all add: sample_packages_def timed_cache_laws)

lemma sample_list_types:
  "ListMachineTypes \<lparr>client_api = sample_sdk mts, client_projectID = p, client_region = r\<rparr> w = (Inr mts, w)"
  by (simp add: ListMachineTypes_def sample_sdk_def items_def wrap_result_def)

lemma sample_operator:
  "\<exists>op w'. NewOperator (sample_packages [sample_type]) sample_options None () = (Inr op, w')"
proof -
  have "is_ok (fst (NewOperator (sample_packages [sample_type]) sample_options None ()))"
    by (simp add: NewOperator_ok_iff operator_client_def NewClient_def client_as_api_def sample_options_def
        sample_list_types sample_packages_def)
  then show ?thesis by (auto simp: is_ok_iff prod_eq_iff)
qed

lemma Operator_startup_witness:
  "is_ok (fst (NewOperator (sample_packages [sample_type]) sample_options None ()))
   \<and> \<not> is_ok (fst (NewOperator (sample_packages []) sample_options None ()))"
proof -
  have p: "Parse (\<lambda>_. []) (\<lambda>args o1. (None, o1)) [] sample_options = (Parsed, sample_options)"
    by (simp add: Parse_def sample_options_def no_overrides Validate_def Let_def combine_some less_f64_def)
  have c: "pk_client (sample_packages mts) region = Inr (sample_sdk mts)" for mts region by (simp add: sample_packages_def)
  show ?thesis
    using Operator_startup [OF p, of "sample_packages [sample_type]" "()"] Operator_startup [OF p, of "sample_packages []" "()"]
    by (simp add: c sample_list_types)
qed

theorem Operator_hydrated_witness:
  "\<exists>op w' its st'. NewOperator (sample_packages [sample_type]) sample_options None () = (Inr op, w')
     \<and> itp_List (op_types_env op) (Some (Price (op_prices op))) (op_UnavailableOfferingsCache op) sample_nodeclass (op_types_state op)
         = Some (Inr its, st') \<and> its \<noteq> []"
proof -
  let ?P = "sample_packages [sample_type]"
  obtain op w' where run: "NewOperator ?P sample_options None () = (Inr op, w')" using sample_operator by blast
  obtain client w1 where op: "operator_client ?P sample_options None = Inr client" "op_types_env op = types_env ?P sample_options client"
      "UpdateMachineTypes (types_env ?P sample_options client) (types_state ?P, ()) = (None, op_types_state op, w1)"
    using NewOperator_loaded [OF run] by blast
  have client: "client = client_as_api \<lparr>client_api = sample_sdk [sample_type], client_projectID = ''p-1'', client_region = ''eu01''\<rparr>"
    using op(1) by (simp add: operator_client_def NewClient_def sample_options_def sample_packages_def)
  have zones: "availability_zone_ids sample_nodeclass \<noteq> []" by (simp add: availability_zone_ids_def sample_nodeclass_def)
  have types: "itp_machine_types (op_types_state op) = [(''g1.2'', sample_type)]"
    using hydrate(1) [OF op(3) sample_packages_caches(1)]
    by (auto simp: client client_as_api_def sample_list_types machine_type_map_def sample_type_def)
  have disc: "c_get timed_cache (itp_discovered (op_types_state op)) k = None" for k
    by (simp add: hydrate(2) [OF op(3) sample_packages_caches(1)] types_state_def sample_packages_def timed_cache_laws)
  obtain it where "Resolve rat_quantity id (\<lambda>_. 0) (Fin 0) ''eu01'' sample_type sample_nodeclass = Some it"
    using sample_resolves by blast
  then have "itp_all (op_types_env op) sample_nodeclass (op_types_state op) [''g1.2''] = Some [it]"
    by (simp add: itp_get_def types op(2) types_env_def sample_packages_def sample_options_def disc)
  then have "\<exists>r st'. itp_List (op_types_env op) (Some (Price (op_prices op))) (op_UnavailableOfferingsCache op)
      sample_nodeclass (op_types_state op) = Some (r, st')"
    using zones by (auto simp: itp_List_def types Let_def split_beta split: option.split)
  then obtain r st' where list: "itp_List (op_types_env op) (Some (Price (op_prices op))) (op_UnavailableOfferingsCache op)
      sample_nodeclass (op_types_state op) = Some (r, st')" by blast
  from Operator_hydrated [OF run zones sample_packages_caches list] run list show ?thesis by blast
qed

lemma Refresh_keeps_serving_witness:
  "\<exists>op w' prices st. NewOperator (sample_packages [sample_type]) sample_options None () = (Inr op, w')
     \<and> (\<forall>err st'. itp_List (op_types_env op) (Some (Price prices)) (NewUnavailableOfferings timed_cache) sample_nodeclass st
          \<noteq> Some (Inl err, st'))"
proof -
  obtain op w' where run: "NewOperator (sample_packages [sample_type]) sample_options None () = (Inr op, w')"
    using sample_operator by blast
  obtain prices st w1 where r: "refresh_run (op_types_env op) (op_overrides op) [RefreshTypes, RefreshPrices]
      (op_prices op, op_types_state op, ()) = (prices, st, w1)" by (rule prod_cases3)
  have zones: "availability_zone_ids sample_nodeclass \<noteq> []" by (simp add: availability_zone_ids_def sample_nodeclass_def)
  from Refresh_keeps_serving [OF run sample_packages_caches(1) r] zones run show ?thesis by blast
qed

end
