(* ===== verification/Placement.thy ===== *)
theory Placement
  imports CloudProvider
begin

text \<open>
  The cloud provider with the default instance type provider behind it: which zones the offerings
  of a listing are for, whether they are computed or cached, and what that means for the drift of
  a new NodeClaim; and which servers keep a listing of all servers from succeeding.
\<close>

section \<open>Which zones cached offerings are for\<close>

definition in_zones :: "string list \<Rightarrow> offering list \<Rightarrow> bool" where
  "in_zones zones os \<longleftrightarrow>
     list_all (\<lambda>x. list_ex (\<lambda>z. map_of (of_requirements x) LabelTopologyZone = Some [SanitizeZone z]) zones) os"

lemma compute_in_zones: "in_zones zones (compute_offerings C price u name region zones)"
  by (auto simp: in_zones_def compute_offerings_def zone_offering_def Let_def list_all_iff list_ex_iff split: option.splits)

lemma in_zones_cong: "set zones = set zones' \<Longrightarrow> in_zones zones os = in_zones zones' os"
  by (simp add: in_zones_def list_ex_iff)

text \<open>
  The zone sets \<open>Z\<close> of the NodeClasses in use have keys of their own: two cache keys are the same
  only for the same set. The key has the hash of the set, so this is that no two of them collide.
\<close>

definition keys_apart :: "(string list \<Rightarrow> int) \<Rightarrow> string \<Rightarrow> string list set \<Rightarrow> bool" where
  "keys_apart zh region Z \<longleftrightarrow>
     (\<forall>zs \<in> Z. \<forall>zs' \<in> Z. \<forall>name name'.
        Offering_cacheKey zh name region zs = Offering_cacheKey zh name' region zs' \<longrightarrow> set zs = set zs')"

definition cached_in_zones ::
  "('co, offering list) cache_ops \<Rightarrow> (string list \<Rightarrow> int) \<Rightarrow> string \<Rightarrow> string list set \<Rightarrow> 'co offering_state \<Rightarrow> bool" where
  "cached_in_zones OC zh region Z st \<longleftrightarrow>
     (\<forall>zs \<in> Z. \<forall>name os. c_get OC (off_cache st) (Offering_cacheKey zh name region zs) = Some os \<longrightarrow> in_zones zs os)"

lemma createOfferings_in_zones:
  assumes "cache_laws OC" "keys_apart zh region Z" "zones \<in> Z" "cached_in_zones OC zh region Z st"
    and call: "createOfferings C OC zh price u name region zones st = (os, st')"
  shows "in_zones zones os \<and> cached_in_zones OC zh region Z st'"
  using call
proof (cases rule: createOfferings_cases)
  case hit
  with assms(3,4) show ?thesis unfolding cached_in_zones_def by blast
next
  case miss
  have os: "in_zones zones os" unfolding miss(1) by (rule compute_in_zones)
  have "in_zones zs os'"
    if "zs \<in> Z" "c_get OC (off_cache st') (Offering_cacheKey zh name' region zs) = Some os'" for zs name' os'
  proof (cases "Offering_cacheKey zh name' region zs = Offering_cacheKey zh name region zones")
    case True
    then have "set zs = set zones" using assms(2,3) that(1) unfolding keys_apart_def by blast
    moreover have "os' = os" using that(2) True assms(1) miss(2) by simp
    ultimately show ?thesis using os in_zones_cong by blast
  next
    case False
    then have "c_get OC (off_cache st) (Offering_cacheKey zh name' region zs) = Some os'"
      using that(2) assms(1) miss(2) by simp
    then show ?thesis using assms(4) that(1) unfolding cached_in_zones_def by blast
  qed
  with os show ?thesis unfolding cached_in_zones_def by blast
qed

lemma InjectOfferings_in_zones:
  assumes "cache_laws OC" "keys_apart zh region Z" "zones \<in> Z"
  shows "cached_in_zones OC zh region Z st \<Longrightarrow> InjectOfferings C OC zh price u its region zones st = (its', st') \<Longrightarrow>
     list_all (\<lambda>it. in_zones zones (it_offerings it)) its' \<and> cached_in_zones OC zh region Z st'"
proof (induction its arbitrary: st its' st')
  case (Cons it its)
  obtain os st1 where c: "createOfferings C OC zh price u (it_name it) region zones st = (os, st1)" by (rule prod.exhaust)
  obtain rest st2 where r: "InjectOfferings C OC zh price u its region zones st1 = (rest, st2)" by (rule prod.exhaust)
  from createOfferings_in_zones [OF assms Cons.prems(1) c] have os: "in_zones zones os" "cached_in_zones OC zh region Z st1" by auto
  have "list_all (\<lambda>it. in_zones zones (it_offerings it)) rest \<and> cached_in_zones OC zh region Z st2" by (rule Cons.IH [OF os(2) r])
  then show ?case using Cons.prems(2) c r os(1) by (auto simp: Let_def)
qed simp

lemma itp_List_in_zones:
  assumes "cache_laws (env_offer_cache E)" "keys_apart (env_zone_hash E) (env_region E) Z"
    and "availability_zone_ids nc \<in> insert [] Z"
    and "cached_in_zones (env_offer_cache E) (env_zone_hash E) (env_region E) Z (itp_offers st)"
    and run: "itp_List E pricing u nc st = Some (r, st')"
  shows "cached_in_zones (env_offer_cache E) (env_zone_hash E) (env_region E) Z (itp_offers st')
     \<and> (\<forall>its. r = Inr its \<longrightarrow> list_all (\<lambda>it. in_zones (availability_zone_ids nc) (it_offerings it)) its)"
proof (cases "pricing = None \<or> itp_machine_types st = [] \<or> availability_zone_ids nc = []")
  case True
  then show ?thesis using run assms(4) by (auto simp: itp_List_def Let_def split: option.splits if_splits)
next
  case False
  then obtain price where p: "pricing = Some price" by auto
  obtain its st1 where st1: "itp_offers st1 = itp_offers st"
    and run1: "(let (its', offers) = InjectOfferings (env_uo_cache E) (env_offer_cache E) (env_zone_hash E) price u its
          (env_region E) (availability_zone_ids nc) (itp_offers st1) in Some (Inr its', st1\<lparr>itp_offers := offers\<rparr>)) = Some (r, st')"
  proof (cases "c_get (env_type_cache E) (itp_types st) (itp_cacheKey E nc)")
    case (Some item)
    then show thesis using that [of st item] run False p by (simp add: itp_List_def Let_def)
  next
    case None
    then obtain its where "itp_all E nc st (keys (itp_machine_types st)) = Some its"
      using run False p by (auto simp: itp_List_def Let_def split: bind_splits)
    then show thesis
      using that [of "st\<lparr>itp_types := c_set (env_type_cache E) (itp_cacheKey E nc) its (itp_types st)\<rparr>" its] None run False p
      by (simp add: itp_List_def Let_def)
  qed
  obtain its' offers where inj: "InjectOfferings (env_uo_cache E) (env_offer_cache E) (env_zone_hash E) price u its
      (env_region E) (availability_zone_ids nc) (itp_offers st1) = (its', offers)" by (rule prod.exhaust)
  have "r = Inr its'" "st' = st1\<lparr>itp_offers := offers\<rparr>"
    using run1 inj by auto
  moreover have "availability_zone_ids nc \<in> Z" using assms(3) False by simp
  ultimately show ?thesis
    using InjectOfferings_in_zones [OF assms(1,2) _ _ inj] assms(4) st1 by simp
qed

section \<open>The provider's states\<close>

text \<open>
  The states the default instance type provider comes to: it starts with empty caches, is given its
  offering provider, lists (\<open>Get\<close> lists too) for NodeClasses without resolved zones or with one of
  the zone sets \<open>Z\<close>, refreshes its catalogue, observes capacities, is reset, and its caches' entries
  expire and are cleaned up.
\<close>

inductive provider_state ::
  "('c, 'ct, 'co, 'cd, 'q, 'm, 'w) itp_env \<Rightarrow> string list set \<Rightarrow> ('ct, 'co, 'cd, 'm) itp_state \<Rightarrow> bool" for E Z where
  new: "provider_state E Z (itp_NewDefaultProvider (c_new (env_type_cache E) t1 i1) (c_new (env_offer_cache E) t2 i2)
      (c_new (env_discovered E) t3 i3) cm)"
| attach: "provider_state E Z st \<Longrightarrow> provider_state E Z (SetPricingProvider st)"
| listed: "provider_state E Z st \<Longrightarrow> availability_zone_ids nc \<in> insert [] Z \<Longrightarrow>
      itp_List E pricing u nc st = Some (r, st') \<Longrightarrow> provider_state E Z st'"
| refreshed: "provider_state E Z st \<Longrightarrow> UpdateMachineTypes E (st, w) = (err, st', w') \<Longrightarrow> provider_state E Z st'"
| observed: "provider_state E Z st \<Longrightarrow> provider_state E Z (UpdateInstanceTypeCapacityFromNode E labels capacity nc st)"
| reset: "provider_state E Z st \<Longrightarrow> provider_state E Z (itp_Reset E st)"
| time: "provider_state E Z st \<Longrightarrow> provider_state E Z (st\<lparr>itp_types := c_tick (env_type_cache E) n (itp_types st),
      itp_offers := (itp_offers st)\<lparr>off_cache := c_tick (env_offer_cache E) n (off_cache (itp_offers st))\<rparr>,
      itp_discovered := c_tick (env_discovered E) n (itp_discovered st)\<rparr>)"
| types_janitor: "provider_state E Z st \<Longrightarrow>
      provider_state E Z (st\<lparr>itp_types := fst (c_janitor (env_type_cache E) (itp_types st))\<rparr>)"
| offers_janitor: "provider_state E Z st \<Longrightarrow> provider_state E Z (st\<lparr>itp_offers :=
      (itp_offers st)\<lparr>off_cache := fst (c_janitor (env_offer_cache E) (off_cache (itp_offers st)))\<rparr>\<rparr>)"
| discovered_janitor: "provider_state E Z st \<Longrightarrow>
      provider_state E Z (st\<lparr>itp_discovered := fst (c_janitor (env_discovered E) (itp_discovered st))\<rparr>)"

lemma cached_in_zones_fewer:
  assumes "cached_in_zones OC zh region Z st" "\<And>k v. c_get OC (off_cache st') k = Some v \<Longrightarrow> c_get OC (off_cache st) k = Some v"
  shows "cached_in_zones OC zh region Z st'"
  using assms unfolding cached_in_zones_def by blast

lemma provider_state_zones:
  assumes "cache_laws (env_offer_cache E)" "keys_apart (env_zone_hash E) (env_region E) Z"
  shows "provider_state E Z st \<Longrightarrow> cached_in_zones (env_offer_cache E) (env_zone_hash E) (env_region E) Z (itp_offers st)"
proof (induction rule: provider_state.induct)
  case (listed st nc pricing u r st')
  from itp_List_in_zones [OF assms listed.hyps(2) listed.IH listed.hyps(3)] show ?case by blast
next
  case (refreshed st w err st' w')
  then have "itp_offers st' = itp_offers st"
    by (auto simp: UpdateMachineTypes_def Let_def split: sum.splits prod.splits if_splits)
  with refreshed.IH show ?case by simp
next
  case (observed st labels capacity nc)
  have "itp_offers (UpdateInstanceTypeCapacityFromNode E labels capacity nc st) = itp_offers st"
    by (simp add: UpdateInstanceTypeCapacityFromNode_def Let_def split: option.split)
  with observed.IH show ?case by simp
next
  case (time st n)
  show ?case
    by (rule cached_in_zones_fewer [OF time.IH]) (use cache_get_tick [OF assms(1)] in \<open>fastforce\<close>)
qed (use assms(1) in \<open>simp_all add: cached_in_zones_def itp_Reset_def\<close>)

section \<open>Launches are not drifted\<close>

text \<open>What the API documents of a created server.\<close>

definition places_servers :: "'w api \<Rightarrow> bool" where
  "places_servers A \<longleftrightarrow>
     (\<forall>payload w server w'. api_CreateServer A payload w = (Inr server, w') \<longrightarrow>
        srv_availability_zone server = cp_availability_zone payload \<and> instance_id_ok (get_or [] (srv_id server)))"

lemma launched_zone:
  assumes "sched_laws (ip_sched E)" "places_servers (ip_client E)" "list_all (\<lambda>it. in_zones zones (it_offerings it)) its"
    and "list_all (\<lambda>z. length z \<le> 63) zones" "ip_Create E nodeClass nodeClaim labels its st = (Inr i, st')"
  shows "inst_Zone i \<in> set (map SanitizeZone zones) \<and> instance_id_ok (inst_id i)"
proof -
  obtain it zone payload server where l: "cheapestOffering (ip_quantity E) (ip_sched E) its nodeClaim = Inr (it, zone)"
      "createPayload nodeClass nodeClaim it zone labels = Inr payload"
      "api_CreateServer (ip_client E) payload (ips_world st) = (Inr server, ips_world st')" "i = NewInstance server"
    using ip_Create_ok [OF assms(5)] by blast
  obtain x where x: "it \<in> set its" "x \<in> set (it_offerings it)" "zone = sc_any (ip_sched E) (of_requirements x) LabelTopologyZone"
    using cheapestOffering_member [OF assms(1) l(1)] by blast
  obtain z where z: "z \<in> set zones" "map_of (of_requirements x) LabelTopologyZone = Some [SanitizeZone z]"
    using assms(3) x(1,2) by (auto simp: in_zones_def list_all_iff list_ex_iff)
  have "SanitizeZone (SanitizeZone z) = SanitizeZone z" using SanitizeZone_short assms(4) z(1) by (simp add: list_all_iff)
  moreover have "sc_any (ip_sched E) (of_requirements x) LabelTopologyZone = SanitizeZone z"
    using assms(1) z(2) by (simp add: sched_laws_def slaw_any_def)
  moreover have "cp_availability_zone payload = Some zone" using l(2) by (auto simp: createPayload_cases)
  moreover have "srv_availability_zone server = cp_availability_zone payload" "instance_id_ok (get_or [] (srv_id server))"
    using assms(2) l(3) unfolding places_servers_def by blast+
  ultimately show ?thesis using x(3) z by (auto simp: l(4) NewInstance_def inst_Zone_def get_or_def)
qed

text \<open>
  C10 A server is not replaced because it was just launched: with the default instance type
  provider, in any state it comes to, and the default instance provider, the NodeClaim that
  \<open>Create\<close> returns is not drifted from the NodeClass it was launched from, and finding that out
  asks the API nothing. The conditions are that the hash controller keeps the NodeClass's
  annotation current, STACKIT puts a server in the zone it was asked for and gives it an id, zone
  ids have at most 63 characters (the sanitised name of a longer one may be sanitised again), and
  the hashes of the zone sets in use do not collide in the cache of the offerings.
\<close>

theorem Create_not_drifted:
  assumes prov: "cpe_instances E = lift_provider get put (default_provider IE)"
    and types: "cpe_types E = default_type_provider TE pricing uo tget tput"
    and laws: "cache_laws (ip_cache_ops IE)" "part_laws get put" "sched_laws (ip_sched IE)" "cache_laws (env_offer_cache TE)"
    and api: "places_servers (ip_client IE)"
    and cls: "resolveNodeClassFromNodeClaim E nodeClaim s = Inr nodeClass" "hash_current (cpe_hash E) nodeClass"
    and zones: "provider_state TE Z (tget s)" "keys_apart (env_zone_hash TE) (env_region TE) Z"
      "availability_zone_ids nodeClass \<in> Z" "list_all (\<lambda>z. length z \<le> 63) (availability_zone_ids nodeClass)"
    and run: "cp_Create E nodeClaim s = Some (Inr created, s')"
  shows "isNodeClassDrifted E created nodeClass s' = ([], s')"
proof -
  obtain its s1 i where c: "tpr_List (cpe_types E) nodeClass s = Some (Inr its, s1)"
      "ipr_Create (cpe_instances E) nodeClass nodeClaim (Some (ManagedLabels nodeClass nodeClaim (cpe_clusterName E))) its s1
         = (Inr i, s')"
      "created = (instanceToNodeClaim E i (find (\<lambda>it. it_name it = inst_machine_type i) its))
         \<lparr>claim_annotations :=
            assign [] [(AnnotationStackitNodeClassHash, nodeclass_hash (cpe_hash E) nodeClass),
                       (AnnotationStackitNodeClassHashVersion, StackitNodeClassHashVersion)]\<rparr>"
    using cp_Create_ok [OF run] cls(1) by (auto simp: launchable_def)
  have "areStaticFieldsDrifted created nodeClass = []"
    by (rule stamped_not_static_drifted [OF cls(2)]) (simp_all add: c(3) stamped_lookup hash_keys_neq hash_keys_neq [symmetric])
  moreover have "isAvailabilityZoneDrifted E created nodeClass s' = ([], s')"
  proof -
    obtain st where "itp_List TE (pricing s) (uo s) nodeClass (tget s) = Some (Inr its, st)"
      using c(1) by (auto simp: types default_type_provider_def)
    from itp_List_in_zones [OF laws(4) zones(2) _ provider_state_zones [OF laws(4) zones(2,1)] this] zones(3)
    have offers: "list_all (\<lambda>it. in_zones (availability_zone_ids nodeClass) (it_offerings it)) its" by blast
    obtain a where "ip_Create IE nodeClass nodeClaim (Some (ManagedLabels nodeClass nodeClaim (cpe_clusterName E))) its (get s1)
        = (Inr i, a)"
      using c(2) unfolding prov lift_provider_def default_provider_def by (auto simp: on_part_Inr)
    from launched_zone [OF laws(3) api offers zones(4) this]
    have "inst_Zone i \<in> set (map SanitizeZone (availability_zone_ids nodeClass))" "instance_id_ok (inst_id i)" by blast+
    then show ?thesis
      using lp.fresh_zone_ok [where e = "(IE, get, put)" and E = E, OF _ _ _ \<open>instance_id_ok (inst_id i)\<close>]
        c(2,3) laws prov by simp
  qed
  ultimately show ?thesis by (simp add: isNodeClassDrifted_def)
qed

text \<open>
  The instance of the theorem: a provider whose catalogue has been loaded, and a launch that lists
  with it, for a NodeClaim without resource requests.
\<close>

definition loaded_types :: "(rat instance_type list timed, offering list timed, rat timed, machine_type list) itp_state" where
  "loaded_types = sample_state\<lparr>itp_monitor := [sample_type], itp_machine_types := [(''g1.2'', sample_type)]\<rparr>"

definition placing_cp ::
  "(rat, (rat instance_type list timed, offering list timed, rat timed, machine_type list) itp_state
     \<times> (unit timed, server_instance timed, unit) ip_state) cp_env" where
  "placing_cp =
     \<lparr>cpe_get_nodeclass = (\<lambda>name s. Inr sample_nodeclass),
      cpe_get_nodepool = (\<lambda>name s. Inr \<lparr>pool_name = name, pool_uid = ''p-1'', pool_nodeclass_ref = Some ''default''\<rparr>),
      cpe_publish = (\<lambda>ev s. s), cpe_region = ''eu01'',
      cpe_types = default_type_provider sample_env (\<lambda>_. Some (\<lambda>_. Some (Fin 1))) (\<lambda>s. ips_uo (snd s)) fst (\<lambda>a s. (a, snd s)),
      cpe_instances = lift_provider snd (\<lambda>a s. (fst s, a)) (default_provider (sample_ip_env creating_api)),
      cpe_clusterName = ''prod'', cpe_ready = (\<lambda>_. sample_ready), cpe_text = (\<lambda>_. []), cpe_hash = (\<lambda>_. ''42''),
      cpe_quantity = rat_quantity, cpe_allocatable = it_capacity\<rparr>"

definition placing_claim :: "rat nodeclaim" where
  "placing_claim = sample_claim\<lparr>claim_requests := []\<rparr>"

lemma loaded_types_state: "provider_state sample_env {[''eu01-1'']} loaded_types"
proof -
  have "provider_state sample_env {[''eu01-1'']} sample_state"
    using new [of sample_env "{[''eu01-1'']}" 300 60 300 60 300 60 "[]"] by (simp add: sample_state_def sample_env_def)
  from refreshed [OF this sample_updated] show ?thesis by (simp add: loaded_types_def)
qed

lemma loaded_types_List:
  "\<exists>it st. itp_List sample_env (Some (\<lambda>_. Some (Fin 1))) (NewUnavailableOfferings timed_cache) sample_nodeclass loaded_types
       = Some (Inr [it], st)
     \<and> it_offerings it = [\<lparr>of_requirements = [(LabelTopologyZone, [''eu01-1'']), (LabelTopologyRegion, [''eu01'']),
            (CapacityTypeLabelKey, [CapacityTypeOnDemand])], of_price = Fin 1, of_available = True\<rparr>]"
proof -
  obtain it where "Resolve rat_quantity id (\<lambda>_. 0) (Fin 0) ''eu01'' sample_type sample_nodeclass = Some it"
    using sample_resolves by blast
  then have all: "itp_all sample_env sample_nodeclass loaded_types [''g1.2''] = Some [it]"
    by (simp add: itp_get_def loaded_types_def sample_env_def sample_state_def timed_cache_laws)
  have z: "availability_zone_ids sample_nodeclass = [''eu01-1'']" by (simp add: availability_zone_ids_def sample_nodeclass_def)
  have sel: "itp_machine_types loaded_types = [(''g1.2'', sample_type)]" "env_type_cache sample_env = timed_cache"
      "env_offer_cache sample_env = timed_cache" "env_uo_cache sample_env = timed_cache" "env_region sample_env = ''eu01''"
    by (simp_all add: loaded_types_def sample_env_def)
  have empty: "c_get timed_cache (off_cache (itp_offers loaded_types)) k = None" "c_get timed_cache (itp_types loaded_types) k = None"
    for k by (simp_all add: loaded_types_def sample_state_def timed_cache_laws)
  have "\<not> IsUnavailable timed_cache (NewUnavailableOfferings timed_cache) t zone" for t zone
    by (simp add: IsUnavailable_def NewUnavailableOfferings_def timed_cache_laws)
  then have "compute_offerings timed_cache (\<lambda>_. Some (Fin 1)) (NewUnavailableOfferings timed_cache) (it_name it) ''eu01'' [''eu01-1'']
      = [\<lparr>of_requirements = [(LabelTopologyZone, [''eu01-1'']), (LabelTopologyRegion, [''eu01'']),
            (CapacityTypeLabelKey, [CapacityTypeOnDemand])], of_price = Fin 1, of_available = True\<rparr>]"
    by (simp add: compute_offerings_def zone_offering_def sample_zone)
  then show ?thesis
    using all by (simp add: itp_List_def z empty createOfferings_def Let_def split_beta sel del: itp_all.simps)
qed

lemma placing_resolve: "resolveNodeClassFromNodeClaim placing_cp placing_claim s = Inr sample_nodeclass"
  by (simp add: resolveNodeClassFromNodeClaim_def placing_cp_def placing_claim_def sample_claim_def sample_nodeclass_def is_zero_time_def)

lemma placing_Create:
  "\<exists>created s'. cp_Create placing_cp placing_claim (loaded_types, sample_ip_state ()) = Some (Inr created, s')"
proof -
  let ?IE = "sample_ip_env (creating_api :: unit api)"
  let ?s = "(loaded_types, sample_ip_state ())"
  let ?x = "\<lparr>of_requirements = [(LabelTopologyZone, [''eu01-1'']), (LabelTopologyRegion, [''eu01'']),
            (CapacityTypeLabelKey, [CapacityTypeOnDemand])], of_price = Fin 1, of_available = True\<rparr>"
  let ?labels = "Some (ManagedLabels sample_nodeclass placing_claim ''prod'')"
  obtain it st where l: "itp_List sample_env (Some (\<lambda>_. Some (Fin 1))) (NewUnavailableOfferings timed_cache) sample_nodeclass loaded_types
       = Some (Inr [it], st)" "it_offerings it = [?x]"
    using loaded_types_List by blast
  have "is_ok (createPayload sample_nodeclass placing_claim it ''eu01-1'' ?labels)"
    by (simp add: createPayload_def networking_def serverName_def sample_nodeclass_def sample_claim_def placing_claim_def
        get_or_def maxServerNameLength_def Let_def)
  then obtain p where p: "createPayload sample_nodeclass placing_claim it ''eu01-1'' ?labels = Inr p" unfolding is_ok_iff by blast
  have "cheapestOffering (ip_quantity ?IE) (ip_sched ?IE) [it] placing_claim = Inr (it, ''eu01-1'')"
    by (simp add: cheapestOffering_def sample_ip_env_def l(2) resourcesFit_def simple_sched_def placing_claim_def)
  moreover obtain srv w where "api_CreateServer (ip_client ?IE) p (ips_world (sample_ip_state ())) = (Inr srv, w)"
    by (simp add: sample_ip_env_def creating_api_def)
  ultimately obtain i a where c: "ip_Create ?IE sample_nodeclass placing_claim ?labels [it] (sample_ip_state ()) = (Inr i, a)"
    using p by (simp add: ip_Create_def Let_def)
  have types: "tpr_List (cpe_types placing_cp) sample_nodeclass ?s = Some (Inr [it], (st, sample_ip_state ()))"
    using l(1) by (simp add: placing_cp_def default_type_provider_def sample_ip_state_def)
  have create: "ipr_Create (cpe_instances placing_cp) sample_nodeclass placing_claim ?labels [it] (st, sample_ip_state ()) = (Inr i, (st, a))"
    using c by (simp add: placing_cp_def lift_provider_def default_provider_def on_part_def)
  have ready: "cpe_ready placing_cp sample_nodeclass = sample_ready" "cpe_clusterName placing_cp = ''prod''"
      "cond_observed_generation sample_ready = nc_generation sample_nodeclass" "cond_status sample_ready = CondTrue"
    by (simp_all add: placing_cp_def sample_ready_def sample_nodeclass_def)
  then show ?thesis
    using types create by (simp add: cp_Create_def placing_resolve Let_def)
qed

lemma creating_api_places: "places_servers creating_api"
  by (auto simp: places_servers_def creating_api_def get_or_def instance_id_ok_def)

theorem Create_not_drifted_witness:
  "\<exists>created s'. cp_Create placing_cp placing_claim (loaded_types, sample_ip_state ()) = Some (Inr created, s')
     \<and> isNodeClassDrifted placing_cp created sample_nodeclass s' = ([], s')"
proof -
  obtain created s' where run: "cp_Create placing_cp placing_claim (loaded_types, sample_ip_state ()) = Some (Inr created, s')"
    using placing_Create by blast
  let ?IE = "sample_ip_env (creating_api :: unit api)"
  have prov: "cpe_instances placing_cp = lift_provider snd (\<lambda>a s. (fst s, a)) (default_provider ?IE)"
    and types: "cpe_types placing_cp = default_type_provider sample_env (\<lambda>_. Some (\<lambda>_. Some (Fin 1))) (\<lambda>s. ips_uo (snd s)) fst
        (\<lambda>a s. (a, snd s))"
    by (simp_all add: placing_cp_def)
  have laws: "cache_laws (ip_cache_ops ?IE)" "part_laws snd (\<lambda>a s. (fst s, a))" "sched_laws (ip_sched ?IE)"
      "cache_laws (env_offer_cache sample_env)" "places_servers (ip_client ?IE)"
    by (simp_all add: sample_ip_env_def timed_cache_laws simple_sched_laws creating_api_places sample_env_def part_laws_def)
  have cur: "hash_current (cpe_hash placing_cp) sample_nodeclass" by (simp add: hash_current_def sample_nodeclass_def)
  have zones: "provider_state sample_env {[''eu01-1'']} (fst (loaded_types, sample_ip_state ()))"
      "keys_apart (env_zone_hash sample_env) (env_region sample_env) {[''eu01-1'']}"
      "availability_zone_ids sample_nodeclass \<in> {[''eu01-1'']}"
      "list_all (\<lambda>z. length z \<le> 63) (availability_zone_ids sample_nodeclass)"
    by (simp_all add: loaded_types_state keys_apart_def availability_zone_ids_def sample_nodeclass_def)
  from Create_not_drifted [OF prov types laws placing_resolve cur zones run] run show ?thesis by blast
qed

section \<open>Listing all servers\<close>

text \<open>The cloud provider on the default instance type provider, which is a part of the state beside Kubernetes.\<close>

definition types_apart ::
  "('q, 's) cp_env \<Rightarrow> ('s \<Rightarrow> (string \<Rightarrow> f64 option) option) \<Rightarrow> ('s \<Rightarrow> ('ct, 'co, 'cd, 'm) itp_state)
   \<Rightarrow> (('ct, 'co, 'cd, 'm) itp_state \<Rightarrow> 's \<Rightarrow> 's) \<Rightarrow> bool" where
  "types_apart E pricing get put \<longleftrightarrow>
     (\<forall>st s. get (put st s) = st \<and> pricing (put st s) = pricing s
        \<and> (\<forall>name. cpe_get_nodeclass E name (put st s) = cpe_get_nodeclass E name s
             \<and> cpe_get_nodepool E name (put st s) = cpe_get_nodepool E name s))
     \<and> (\<forall>ev s. get (cpe_publish E ev s) = get s \<and> pricing (cpe_publish E ev s) = pricing s
        \<and> (\<forall>name. cpe_get_nodeclass E name (cpe_publish E ev s) = cpe_get_nodeclass E name s
             \<and> cpe_get_nodepool E name (cpe_publish E ev s) = cpe_get_nodepool E name s))"

text \<open>
  What a server needs to be listed: its NodePool or the NodeClass of it is missing, or the NodeClass
  has resolved zones and a kubelet configuration with which the machine types of the catalogue resolve
  without a panic.
\<close>

definition listable ::
  "('q, 's) cp_env \<Rightarrow> ('c, 'ct, 'co, 'cd, 'q, 'm, 'w) itp_env \<Rightarrow> machine_type gomap \<Rightarrow> 's \<Rightarrow> server_instance \<Rightarrow> bool" where
  "listable E TE catalogue s i \<longleftrightarrow>
     (case resolveNodePoolFromInstance E i s of
        Inl err \<Rightarrow> is_kube_not_found err
      | Inr nodePool \<Rightarrow>
          (case resolveNodeClassFromNodePool E nodePool s of
             Inl err \<Rightarrow> is_kube_not_found err
           | Inr nodeClass \<Rightarrow> availability_zone_ids nodeClass \<noteq> []
               \<and> list_all (\<lambda>(_, mt). Resolve (env_quantity TE) (env_lower TE) (env_oor TE) (env_share TE) (env_region TE) mt
                    nodeClass \<noteq> None) catalogue))"

lemma itp_all_returns:
  assumes "list_all (\<lambda>(_, mt). Resolve (env_quantity E) (env_lower E) (env_oor E) (env_share E) (env_region E) mt nc \<noteq> None)
      (itp_machine_types st)"
  shows "\<exists>its. itp_all E nc st names = Some its"
proof (induction names)
  case (Cons name names)
  have "\<exists>r. itp_get E nc name st = Some r"
    using assms by (auto simp: itp_get_def list_all_iff split: option.split dest!: map_of_SomeD)
  with Cons.IH show ?case by auto
qed simp

lemma itp_List_returns:
  assumes "itp_machine_types st \<noteq> []" "availability_zone_ids nc \<noteq> []"
    and "list_all (\<lambda>(_, mt). Resolve (env_quantity E) (env_lower E) (env_oor E) (env_share E) (env_region E) mt nc \<noteq> None)
      (itp_machine_types st)"
  shows "\<exists>its st'. itp_List E (Some price) u nc st = Some (Inr its, st') \<and> itp_machine_types st' = itp_machine_types st"
proof -
  obtain its where "itp_all E nc st (keys (itp_machine_types st)) = Some its" using itp_all_returns [OF assms(3)] by blast
  then show ?thesis
    using assms(1,2) by (auto simp: itp_List_def Let_def split_beta split: option.split)
qed

text \<open>Listing one server keeps everything the next one needs.\<close>

lemma listable_resolves:
  assumes "cpe_types E = default_type_provider TE pricing uo get put" "types_apart E pricing get put"
    and "pricing s \<noteq> None" "itp_machine_types (get s) \<noteq> []" "listable E TE (itp_machine_types (get s)) s i"
  shows "\<exists>it s'. resolveInstanceTypeFromInstance E i s = Some (Inr it, s') \<and> pricing s' = pricing s
     \<and> itp_machine_types (get s') = itp_machine_types (get s)
     \<and> (\<forall>name. cpe_get_nodeclass E name s' = cpe_get_nodeclass E name s \<and> cpe_get_nodepool E name s' = cpe_get_nodepool E name s)"
proof (cases "resolveNodePoolFromInstance E i s")
  case (Inl err)
  with assms(5) show ?thesis by (simp add: listable_def resolveInstanceTypeFromInstance_def ignore_kube_not_found_def)
next
  case pool: (Inr nodePool)
  show ?thesis
  proof (cases "resolveNodeClassFromNodePool E nodePool s")
    case (Inl err)
    have "is_kube_not_found err" using assms(5) pool Inl by (simp add: listable_def)
    then have "resolveInstanceTypeFromInstance E i s = Some (Inr None, cpe_publish E (NodePoolFailedToResolveNodeClass nodePool) s)"
      using pool Inl by (simp add: resolveInstanceTypeFromInstance_def GetInstanceTypes_def ignore_kube_not_found_def Let_def)
    with assms(2) show ?thesis unfolding types_apart_def
      by (intro exI [of _ None] exI [of _ "cpe_publish E (NodePoolFailedToResolveNodeClass nodePool) s"]) simp
  next
    case (Inr nodeClass)
    obtain price where price: "pricing s = Some price" using assms(3) by auto
    have "availability_zone_ids nodeClass \<noteq> []"
        "list_all (\<lambda>(_, mt). Resolve (env_quantity TE) (env_lower TE) (env_oor TE) (env_share TE) (env_region TE) mt
           nodeClass \<noteq> None) (itp_machine_types (get s))"
      using assms(5) pool Inr by (simp_all add: listable_def)
    from itp_List_returns [OF assms(4) this, of price "uo s"] obtain its st where
      l: "itp_List TE (Some price) (uo s) nodeClass (get s) = Some (Inr its, st)" "itp_machine_types st = itp_machine_types (get s)"
      by blast
    then have "resolveInstanceTypeFromInstance E i s = Some (Inr (find (\<lambda>it. it_name it = inst_machine_type i) its), put st s)"
      using pool Inr price assms(1) by (simp add: resolveInstanceTypeFromInstance_def GetInstanceTypes_def default_type_provider_def)
    with assms(2) l(2) show ?thesis unfolding types_apart_def by auto
  qed
qed

lemma listable_cong:
  assumes "\<forall>name. cpe_get_nodeclass E name s' = cpe_get_nodeclass E name s \<and> cpe_get_nodepool E name s' = cpe_get_nodepool E name s"
  shows "listable E TE cat s' i = listable E TE cat s i"
proof -
  have "resolveNodePoolFromInstance E i s' = resolveNodePoolFromInstance E i s"
      "resolveNodeClassFromNodePool E np s' = resolveNodeClassFromNodePool E np s" for np
    using assms by (simp_all add: resolveNodePoolFromInstance_def resolveNodeClassFromNodePool_def split: option.split)
  then show ?thesis by (simp add: listable_def cong: sum.case_cong)
qed

lemma cp_list_loop_ok:
  assumes "cpe_types E = default_type_provider TE pricing uo get put" "types_apart E pricing get put"
  shows "pricing s \<noteq> None \<Longrightarrow> itp_machine_types (get s) \<noteq> [] \<Longrightarrow>
     list_all (listable E TE (itp_machine_types (get s)) s) is \<Longrightarrow>
     \<exists>claims s'. cp_list_loop E is s = Some (Inr claims, s')
        \<and> map claim_provider_id claims = map (\<lambda>i. ProviderID (inst_id i)) is
        \<and> map claim_creation_timestamp claims = map inst_created_at is
        \<and> list_all (\<lambda>c. claim_deletion_timestamp c = None) claims"
proof (induction "is" arbitrary: s)
  case (Cons i "is")
  obtain it t where t: "resolveInstanceTypeFromInstance E i s = Some (Inr it, t)" "pricing t = pricing s"
      "itp_machine_types (get t) = itp_machine_types (get s)"
      "\<forall>name. cpe_get_nodeclass E name t = cpe_get_nodeclass E name s \<and> cpe_get_nodepool E name t = cpe_get_nodepool E name s"
    using listable_resolves [OF assms Cons.prems(1,2)] Cons.prems(3) by fastforce
  have "list_all (listable E TE (itp_machine_types (get t)) t) is"
    using Cons.prems(3) listable_cong [OF t(4), of TE "itp_machine_types (get s)"] by (simp add: t(3) list_all_iff)
  with Cons.IH [of t] Cons.prems(1,2) t(2,3) obtain claims s' where "cp_list_loop E is t = Some (Inr claims, s')"
      "map claim_provider_id claims = map (\<lambda>i. ProviderID (inst_id i)) is"
      "map claim_creation_timestamp claims = map inst_created_at is"
      "list_all (\<lambda>c. claim_deletion_timestamp c = None) claims"
    by auto
  with t(1) show ?case by simp
qed simp

text \<open>
  C29 A server never gets lost because its NodePool or NodeClass is gone. With the default instance
  type provider, once prices are attached and the catalogue is loaded, listing succeeds with one
  NodeClaim for each server the instance provider lists, in its order, with the server's id and
  creation time and not marked as terminating, when for each server, at the moment of the listing,
  the NodePool or the NodeClass is missing or terminating, or the NodeClass has resolved zones and
  no quantity on which resolving the catalogue panics.
\<close>

theorem List_every_server:
  assumes "cpe_types E = default_type_provider TE pricing uo get put" "types_apart E pricing get put"
    and "ipr_List (cpe_instances E) s = (Inr is, s1)" "pricing s1 \<noteq> None" "itp_machine_types (get s1) \<noteq> []"
    and "list_all (listable E TE (itp_machine_types (get s1)) s1) is"
  shows "\<exists>claims s'. cp_List E s = Some (Inr claims, s')
     \<and> map claim_provider_id claims = map (\<lambda>i. ProviderID (inst_id i)) is
     \<and> map claim_creation_timestamp claims = map inst_created_at is
     \<and> list_all (\<lambda>c. claim_deletion_timestamp c = None) claims"
  using cp_list_loop_ok [OF assms(1,2,4-6)] assms(3) by (simp add: cp_List_def)

text \<open>One server without a NodePool, one whose NodePool is gone, and one whose NodePool and NodeClass exist.\<close>

theorem List_every_server_witness:
  "\<exists>claims s'. cp_List (listing_cp sample_nodeclass
       [pooled_instance ''s-1'' None, pooled_instance ''s-2'' (Some ''gone''), pooled_instance ''s-3'' (Some ''default'')]) loaded_types
     = Some (Inr claims, s') \<and> map claim_provider_id claims = [ProviderID ''s-1'', ProviderID ''s-2'', ProviderID ''s-3'']"
proof -
  let ?is = "[pooled_instance ''s-1'' None, pooled_instance ''s-2'' (Some ''gone''), pooled_instance ''s-3'' (Some ''default'')]"
  let ?E = "listing_cp sample_nodeclass ?is"
  have types: "cpe_types ?E = default_type_provider sample_env (\<lambda>_. Some (\<lambda>_. Some (Fin 1)))
      (\<lambda>_. NewUnavailableOfferings timed_cache) id (\<lambda>a s. a)"
    and run: "ipr_List (cpe_instances ?E) loaded_types = (Inr ?is, loaded_types)"
    by (simp_all add: listing_cp_def)
  have apart: "types_apart ?E (\<lambda>_. Some (\<lambda>_. Some (Fin 1))) id (\<lambda>a s. a)"
    by (simp add: types_apart_def listing_cp_def)
  obtain it where "Resolve rat_quantity id (\<lambda>_. 0) (Fin 0) ''eu01'' sample_type sample_nodeclass = Some it"
    using sample_resolves by blast
  then have ok: "list_all (\<lambda>(_, mt). Resolve (env_quantity sample_env) (env_lower sample_env) (env_oor sample_env)
      (env_share sample_env) (env_region sample_env) mt sample_nodeclass \<noteq> None) (itp_machine_types loaded_types)"
    by (simp add: loaded_types_def sample_env_def)
  have cls: "availability_zone_ids sample_nodeclass \<noteq> []" "is_zero_time (nc_deletion_timestamp sample_nodeclass)"
    by (simp_all add: availability_zone_ids_def sample_nodeclass_def is_zero_time_def)
  have "list_all (listable ?E sample_env (itp_machine_types loaded_types) loaded_types) ?is"
    using ok cls by (simp add: listable_def resolveNodePoolFromInstance_def resolveNodeClassFromNodePool_def pooled_instance_def
        listing_cp_def newNotFound_def)
  moreover have "itp_machine_types loaded_types \<noteq> []" by (simp add: loaded_types_def)
  ultimately show ?thesis
    using List_every_server [OF types apart run] by (auto simp: pooled_instance_def NewInstance_def listed_server_def get_or_def)
qed

end
