(* ===== verification/GoHeap.thy ===== *)
theory GoHeap
  imports ApiTypes
begin

text \<open>
  Go's memory, for the code whose meaning is what it shares: the generated deep copies. A heap
  is a store of cells below a limit; a pointer is an address or nil, a map is a reference to the
  cell that holds its entries, and a slice is a part of the cell that holds its array. Structs
  are values whose fields may point into the heap.
\<close>

section \<open>The structs of the API as they lie in memory (stackitnodeclass.go)\<close>

type_synonym addr = nat

text \<open>The array, where in it the slice begins, and its length.\<close>

datatype slice = Slice addr nat nat

record go_BootVolumeSourceSpec =
  go_ID :: string
  go_Type :: "addr option"

record go_BootVolumeSpec =
  go_Source :: go_BootVolumeSourceSpec
  go_Size :: int
  go_PerformanceClass :: "addr option"
  go_DeleteOnTermination :: "addr option"

record go_NetworkingSpec =
  go_NetworkID :: "addr option"
  go_NICIDs :: "slice option"

record go_KubeletConfiguration =
  go_ClusterDNS :: "slice option"
  go_MaxPods :: "addr option"
  go_PodsPerCore :: "addr option"
  go_SystemReserved :: "addr option"
  go_KubeReserved :: "addr option"
  go_EvictionHard :: "addr option"
  go_EvictionSoft :: "addr option"
  go_EvictionSoftGracePeriod :: "addr option"
  go_EvictionMaxPodGracePeriod :: "addr option"
  go_CPUCFSQuota :: "addr option"

record go_StackitNodeClassSpec =
  go_AvailabilityZones :: "slice option"
  go_BootVolume :: go_BootVolumeSpec
  go_UserData :: "addr option"
  go_Networking :: go_NetworkingSpec
  go_SecurityGroups :: "slice option"
  go_KeypairName :: "addr option"
  go_AffinityGroup :: "addr option"
  go_ServiceAccountMails :: "slice option"
  go_Labels :: "addr option"
  go_ServerNamePrefix :: "addr option"
  go_Kubelet :: "addr option"

record go_StackitNodeClassStatus =
  go_StatusZones :: "slice option"
  go_Conditions :: "slice option"

text \<open>Of Kubernetes' \<open>TypeMeta\<close>, \<open>ObjectMeta\<close> and \<open>ListMeta\<close>, what this program or its lists use.\<close>

record go_TypeMeta =
  go_Kind :: string
  go_APIVersion :: string

record go_ObjectMeta =
  go_Name :: string
  go_Generation :: int
  go_DeletionTimestamp :: "addr option"
  go_Annotations :: "addr option"
  go_Finalizers :: "slice option"

record go_ListMeta =
  go_ResourceVersion :: string
  go_RemainingItemCount :: "addr option"

record go_StackitNodeClass =
  go_TypeMeta :: go_TypeMeta
  go_ObjectMeta :: go_ObjectMeta
  go_Spec :: go_StackitNodeClassSpec
  go_Status :: go_StackitNodeClassStatus

record go_StackitNodeClassList =
  go_ListTypeMeta :: go_TypeMeta
  go_ListMeta :: go_ListMeta
  go_Items :: "slice option"

section \<open>The heap\<close>

text \<open>\<open>Zero\<close> is a variable that \<open>new\<close> or \<open>make\<close> has made and nothing has written yet.\<close>

datatype cell =
    Zero
  | CString string | CBool bool | CInt int
  | CStrings "string list" | CZones "availability_zone list" | CConditions "condition list"
  | CMap "string gomap" | CDurations "int gomap"
  | CZone availability_zone | CBootVolumeSource go_BootVolumeSourceSpec | CBootVolume go_BootVolumeSpec
  | CNetworking go_NetworkingSpec | CKubelet go_KubeletConfiguration
  | CSpec go_StackitNodeClassSpec | CStatus go_StackitNodeClassStatus
  | CNodeClass go_StackitNodeClass | CNodeClasses "go_StackitNodeClass list"
  | CList go_StackitNodeClassList

record heap =
  lim :: addr
  cells :: "addr \<Rightarrow> cell"

definition alloc :: "cell \<Rightarrow> heap \<Rightarrow> addr \<times> heap" where
  "alloc c h = (lim h, \<lparr>lim = lim h + 1, cells = (cells h)(lim h := c)\<rparr>)"

definition set_cell :: "addr \<Rightarrow> cell \<Rightarrow> heap \<Rightarrow> heap" where
  "set_cell a c h = h\<lparr>cells := (cells h)(a := c)\<rparr>"

definition extends :: "heap \<Rightarrow> heap \<Rightarrow> bool" where
  "extends h h' \<longleftrightarrow> lim h \<le> lim h' \<and> (\<forall>a < lim h. cells h' a = cells h a)"

text \<open>The keys of a Go map are distinct.\<close>

fun wf_cell :: "cell \<Rightarrow> bool" where
  "wf_cell (CMap m) = wf_map m"
| "wf_cell (CDurations m) = wf_map m"
| "wf_cell _ = True"

definition wf_heap :: "heap \<Rightarrow> bool" where
  "wf_heap h \<longleftrightarrow> (\<forall>a. wf_cell (cells h a))"

lemma extends_refl [simp, intro]: "extends h h"
  by (simp add: extends_def)

lemma extends_trans [trans]: "extends h h1 \<Longrightarrow> extends h1 h2 \<Longrightarrow> extends h h2"
  by (simp add: extends_def)

lemma alloc_extends: "alloc c h = (a, h') \<Longrightarrow> extends h h' \<and> a = lim h \<and> lim h' = Suc (lim h) \<and> cells h' a = c"
  by (auto simp: alloc_def extends_def)

lemma alloc_wf: "alloc c h = (a, h') \<Longrightarrow> wf_heap h \<Longrightarrow> wf_cell c \<Longrightarrow> wf_heap h'"
  by (auto simp: alloc_def wf_heap_def)

lemma set_cell_sel [simp]: "lim (set_cell a c h) = lim h" "cells (set_cell a c h) b = (if b = a then c else cells h b)"
  by (simp_all add: set_cell_def)

lemma set_cell_wf [intro]: "wf_heap h \<Longrightarrow> wf_cell c \<Longrightarrow> wf_heap (set_cell a c h)"
  by (simp add: wf_heap_def)

lemma set_cell_extends: "extends h h' \<Longrightarrow> lim h \<le> a \<Longrightarrow> extends h (set_cell a c h')"
  by (auto simp: extends_def)

section \<open>What a deep copy is\<close>

text \<open>
  \<open>v\<close> reads the value of a struct out of the heap, \<open>f\<close> gives the addresses it is made of, and
  \<open>c\<close> copies it. A deep copy reads as the original, is made of new memory only, and leaves the
  memory that was there alone.
\<close>

definition deep_copier ::
  "('a \<Rightarrow> heap \<Rightarrow> 'a \<times> heap) \<Rightarrow> (heap \<Rightarrow> 'a \<Rightarrow> 'v) \<Rightarrow> (heap \<Rightarrow> 'a \<Rightarrow> addr set) \<Rightarrow> bool" where
  "deep_copier c v f \<longleftrightarrow>
     (\<forall>x h y h'. wf_heap h \<longrightarrow> f h x \<subseteq> {..<lim h} \<longrightarrow> c x h = (y, h') \<longrightarrow>
        wf_heap h' \<and> extends h h' \<and> v h' y = v h x \<and> f h' y \<subseteq> {lim h..<lim h'})
     \<and> (\<forall>x h h2. (\<forall>a \<in> f h x. cells h2 a = cells h a) \<longrightarrow> v h2 x = v h x \<and> f h2 x = f h x)"

lemma deep_copierI:
  assumes "\<And>x h y h'. wf_heap h \<Longrightarrow> f h x \<subseteq> {..<lim h} \<Longrightarrow> c x h = (y, h') \<Longrightarrow>
      wf_heap h' \<and> extends h h' \<and> v h' y = v h x \<and> f h' y \<subseteq> {lim h..<lim h'}"
    and "\<And>x h h2. \<forall>a \<in> f h x. cells h2 a = cells h a \<Longrightarrow> v h2 x = v h x \<and> f h2 x = f h x"
  shows "deep_copier c v f"
  unfolding deep_copier_def using assms by blast

lemma deep_copier_copy:
  "deep_copier c v f \<Longrightarrow> wf_heap h \<Longrightarrow> f h x \<subseteq> {..<lim h} \<Longrightarrow> c x h = (y, h') \<Longrightarrow>
     wf_heap h' \<and> extends h h' \<and> v h' y = v h x \<and> f h' y \<subseteq> {lim h..<lim h'}"
  unfolding deep_copier_def by blast

lemma deep_copier_frame:
  "deep_copier c v f \<Longrightarrow> \<forall>a \<in> f h x. cells h2 a = cells h a \<Longrightarrow> v h2 x = v h x \<and> f h2 x = f h x"
  unfolding deep_copier_def by blast

lemma deep_copier_extends:
  assumes "deep_copier c v f" "extends h h'" "f h x \<subseteq> {..<lim h}"
  shows "v h' x = v h x \<and> f h' x = f h x"
  using assms(2,3) by (intro deep_copier_frame [OF assms(1)]) (auto simp: extends_def)

section \<open>The shapes of generated copies\<close>

text \<open>\<open>*out = new(T); **out = **in\<close> for a field without references, when it is not nil.\<close>

definition copy_new :: "addr option \<Rightarrow> heap \<Rightarrow> addr option \<times> heap" where
  "copy_new p h =
     (case p of
        None \<Rightarrow> (None, h)
      | Some a \<Rightarrow> (let (out, h) = alloc Zero h in (Some out, set_cell out (cells h a) h)))"

text \<open>\<open>*out = make([]T, len(*in))\<close> and the copy of the elements, by \<open>copy\<close> or one by one (\<open>elems\<close>).\<close>

definition copy_slice :: "(nat \<Rightarrow> nat \<Rightarrow> cell \<Rightarrow> cell) \<Rightarrow> slice option \<Rightarrow> heap \<Rightarrow> slice option \<times> heap" where
  "copy_slice elems s h =
     (case s of
        None \<Rightarrow> (None, h)
      | Some (Slice a off n) \<Rightarrow>
          (let (out, h) = alloc Zero h in (Some (Slice out 0 n), set_cell out (elems off n (cells h a)) h)))"

text \<open>\<open>*out = make(map[string]T, len(*in))\<close> and the loop over the entries.\<close>

definition copy_map :: "(cell \<Rightarrow> cell) \<Rightarrow> addr option \<Rightarrow> heap \<Rightarrow> addr option \<times> heap" where
  "copy_map entries p h =
     (case p of
        None \<Rightarrow> (None, h)
      | Some a \<Rightarrow> (let (out, h) = alloc Zero h in (Some out, set_cell out (entries (cells h a)) h)))"

definition range_put :: "'v gomap \<Rightarrow> 'v gomap" where
  "range_put m = fold (\<lambda>(key, val) out. map_put key val out) m []"

text \<open>\<open>new(T)\<close> followed by \<open>in.DeepCopyInto(out)\<close>, when the pointer is not nil.\<close>

definition copy_struct ::
  "('a \<Rightarrow> cell) \<Rightarrow> (cell \<Rightarrow> 'a) \<Rightarrow> ('a \<Rightarrow> heap \<Rightarrow> 'a \<times> heap) \<Rightarrow> addr option \<Rightarrow> heap \<Rightarrow> addr option \<times> heap" where
  "copy_struct mk get into p h =
     (case p of
        None \<Rightarrow> (None, h)
      | Some a \<Rightarrow>
          (let (out, h) = alloc Zero h; (x, h) = into (get (cells h a)) h in (Some out, set_cell out (mk x) h)))"

text \<open>The elements of a slice of structs, each copied by its own \<open>DeepCopyInto\<close>.\<close>

fun copy_all :: "('a \<Rightarrow> heap \<Rightarrow> 'a \<times> heap) \<Rightarrow> 'a list \<Rightarrow> heap \<Rightarrow> 'a list \<times> heap" where
  "copy_all into [] h = ([], h)"
| "copy_all into (x # xs) h = (let (y, h) = into x h; (ys, h) = copy_all into xs h in (y # ys, h))"

definition copy_structs ::
  "('a list \<Rightarrow> cell) \<Rightarrow> (cell \<Rightarrow> 'a list) \<Rightarrow> ('a \<Rightarrow> heap \<Rightarrow> 'a \<times> heap) \<Rightarrow> slice option \<Rightarrow> heap \<Rightarrow> slice option \<times> heap" where
  "copy_structs mk get into s h =
     (case s of
        None \<Rightarrow> (None, h)
      | Some (Slice a off n) \<Rightarrow>
          (let (out, h) = alloc Zero h; (xs, h) = copy_all into (take n (drop off (get (cells h a)))) h
           in (Some (Slice out 0 n), set_cell out (mk xs) h)))"

text \<open>Two fields, one after the other.\<close>

definition copy_pair ::
  "('a \<Rightarrow> heap \<Rightarrow> 'a \<times> heap) \<Rightarrow> ('b \<Rightarrow> heap \<Rightarrow> 'b \<times> heap) \<Rightarrow> 'a \<times> 'b \<Rightarrow> heap \<Rightarrow> ('a \<times> 'b) \<times> heap" where
  "copy_pair c1 c2 x h = (let (y1, h) = c1 (fst x) h; (y2, h) = c2 (snd x) h in ((y1, y2), h))"

section \<open>How they read\<close>

definition view_ptr :: "(cell \<Rightarrow> 'v) \<Rightarrow> heap \<Rightarrow> addr option \<Rightarrow> 'v option" where
  "view_ptr get h p = map_option (\<lambda>a. get (cells h a)) p"

definition foot_ptr :: "heap \<Rightarrow> addr option \<Rightarrow> addr set" where
  "foot_ptr h p = set_option p"

definition view_slice :: "(cell \<Rightarrow> 'v list) \<Rightarrow> heap \<Rightarrow> slice option \<Rightarrow> 'v list" where
  "view_slice get h s = (case s of None \<Rightarrow> [] | Some (Slice a off n) \<Rightarrow> take n (drop off (get (cells h a))))"

definition foot_slice :: "heap \<Rightarrow> slice option \<Rightarrow> addr set" where
  "foot_slice h s = (case s of None \<Rightarrow> {} | Some (Slice a off n) \<Rightarrow> {a})"

definition view_struct :: "(cell \<Rightarrow> 'a) \<Rightarrow> (heap \<Rightarrow> 'a \<Rightarrow> 'v) \<Rightarrow> heap \<Rightarrow> addr option \<Rightarrow> 'v option" where
  "view_struct get v h p = map_option (\<lambda>a. v h (get (cells h a))) p"

definition foot_struct :: "(cell \<Rightarrow> 'a) \<Rightarrow> (heap \<Rightarrow> 'a \<Rightarrow> addr set) \<Rightarrow> heap \<Rightarrow> addr option \<Rightarrow> addr set" where
  "foot_struct get f h p = (case p of None \<Rightarrow> {} | Some a \<Rightarrow> insert a (f h (get (cells h a))))"

definition view_structs :: "(cell \<Rightarrow> 'a list) \<Rightarrow> (heap \<Rightarrow> 'a \<Rightarrow> 'v) \<Rightarrow> heap \<Rightarrow> slice option \<Rightarrow> 'v list" where
  "view_structs get v h s = map (v h) (view_slice get h s)"

definition foot_structs :: "(cell \<Rightarrow> 'a list) \<Rightarrow> (heap \<Rightarrow> 'a \<Rightarrow> addr set) \<Rightarrow> heap \<Rightarrow> slice option \<Rightarrow> addr set" where
  "foot_structs get f h s = foot_slice h s \<union> \<Union> (f h ` set (view_slice get h s))"

section \<open>They are deep copies\<close>

lemma deep_copier_ptr: "deep_copier copy_new (view_ptr get) foot_ptr"
proof (rule deep_copierI)
  fix p h y h' assume "wf_heap h" "foot_ptr h p \<subseteq> {..<lim h}" "copy_new p h = (y, h')"
  then show "wf_heap h' \<and> extends h h' \<and> view_ptr get h' y = view_ptr get h p \<and> foot_ptr h' y \<subseteq> {lim h..<lim h'}"
    by (cases p) (auto simp: copy_new_def view_ptr_def foot_ptr_def wf_heap_def extends_def alloc_def)
next
  fix p h and h2 :: heap assume "\<forall>a \<in> foot_ptr h p. cells h2 a = cells h a"
  then show "view_ptr get h2 p = view_ptr get h p \<and> foot_ptr h2 p = foot_ptr h p"
    by (cases p) (simp_all add: view_ptr_def foot_ptr_def)
qed

lemma deep_copier_slice:
  assumes "\<And>off n c. get (elems off n c) = take n (drop off (get c))" "\<And>off n c. wf_cell (elems off n c)"
  shows "deep_copier (copy_slice elems) (view_slice get) foot_slice"
proof (rule deep_copierI)
  fix s h y h' assume "wf_heap h" "foot_slice h s \<subseteq> {..<lim h}" "copy_slice elems s h = (y, h')"
  then show "wf_heap h' \<and> extends h h' \<and> view_slice get h' y = view_slice get h s \<and> foot_slice h' y \<subseteq> {lim h..<lim h'}"
    using assms by (cases s; cases "the s") (auto simp: copy_slice_def view_slice_def foot_slice_def wf_heap_def extends_def alloc_def)
next
  fix s h and h2 :: heap assume "\<forall>a \<in> foot_slice h s. cells h2 a = cells h a"
  then show "view_slice get h2 s = view_slice get h s \<and> foot_slice h2 s = foot_slice h s"
    by (cases s; cases "the s") (simp_all add: view_slice_def foot_slice_def)
qed

lemma range_put_same:
  assumes "wf_map m"
  shows "range_put m = m"
proof -
  have "fold (\<lambda>(key, val) out. map_put key val out) m out = out @ m" if "wf_map (out @ m)" for out
    using that
  proof (induction m arbitrary: out)
    case (Cons kv m)
    obtain k v where kv: "kv = (k, v)" by force
    have "map_put k v out = out @ [(k, v)]" if "k \<notin> set (keys out)" for out :: "'a gomap"
      using that by (induction out) auto
    with Cons.prems kv have "map_put k v out = out @ [(k, v)]" by auto
    with Cons kv show ?case by simp
  qed simp
  from this [of "[]"] assms show ?thesis by (simp add: range_put_def)
qed

lemma deep_copier_map:
  assumes "\<And>c. wf_cell c \<Longrightarrow> get (entries c) = get c" "\<And>c. wf_cell c \<Longrightarrow> wf_cell (entries c)"
  shows "deep_copier (copy_map entries) (view_ptr get) foot_ptr"
proof (rule deep_copierI)
  fix p h y h' assume "wf_heap h" "foot_ptr h p \<subseteq> {..<lim h}" "copy_map entries p h = (y, h')"
  then show "wf_heap h' \<and> extends h h' \<and> view_ptr get h' y = view_ptr get h p \<and> foot_ptr h' y \<subseteq> {lim h..<lim h'}"
    using assms by (cases p) (auto simp: copy_map_def view_ptr_def foot_ptr_def wf_heap_def extends_def alloc_def)
next
  fix p h and h2 :: heap assume "\<forall>a \<in> foot_ptr h p. cells h2 a = cells h a"
  then show "view_ptr get h2 p = view_ptr get h p \<and> foot_ptr h2 p = foot_ptr h p"
    by (cases p) (simp_all add: view_ptr_def foot_ptr_def)
qed

text \<open>Copying twice: what the first copy made is still there after the second.\<close>

lemma deep_copier_seq:
  assumes "deep_copier c1 v1 f1" "deep_copier c2 v2 f2" "wf_heap h" "f1 h x1 \<subseteq> {..<lim h}" "f2 h x2 \<subseteq> {..<lim h}"
    and "c1 x1 h = (y1, h1)" "c2 x2 h1 = (y2, h2)"
  shows "wf_heap h2 \<and> extends h h2 \<and> v1 h2 y1 = v1 h x1 \<and> v2 h2 y2 = v2 h x2
     \<and> f1 h2 y1 \<subseteq> {lim h..<lim h2} \<and> f2 h2 y2 \<subseteq> {lim h..<lim h2}"
proof -
  note s1 = deep_copier_copy [OF assms(1,3,4,6)]
  then have old: "v2 h1 x2 = v2 h x2 \<and> f2 h1 x2 = f2 h x2" using assms(2,5) by (intro deep_copier_extends) auto
  with s1 assms(5) have "f2 h1 x2 \<subseteq> {..<lim h1}" by (auto simp: extends_def)
  with s1 have s2: "wf_heap h2 \<and> extends h1 h2 \<and> v2 h2 y2 = v2 h1 x2 \<and> f2 h2 y2 \<subseteq> {lim h1..<lim h2}"
    using deep_copier_copy [OF assms(2)] assms(7) by blast
  have "v1 h2 y1 = v1 h1 y1 \<and> f1 h2 y1 = f1 h1 y1" using s1 s2 by (intro deep_copier_extends [OF assms(1)]) auto
  moreover have "extends h h2" using s1 s2 extends_trans by blast
  ultimately show ?thesis using s1 s2 old by (auto simp: extends_def)
qed

definition view_pair where "view_pair v1 v2 h x = (v1 h (fst x), v2 h (snd x))"

definition foot_pair :: "(heap \<Rightarrow> 'a \<Rightarrow> addr set) \<Rightarrow> (heap \<Rightarrow> 'b \<Rightarrow> addr set) \<Rightarrow> heap \<Rightarrow> 'a \<times> 'b \<Rightarrow> addr set" where
  "foot_pair f1 f2 h x = f1 h (fst x) \<union> f2 h (snd x)"

lemma deep_copier_pair:
  assumes "deep_copier c1 v1 f1" "deep_copier c2 v2 f2"
  shows "deep_copier (copy_pair c1 c2) (view_pair v1 v2) (foot_pair f1 f2)"
proof (rule deep_copierI)
  fix x h y h' assume a: "wf_heap h" "foot_pair f1 f2 h x \<subseteq> {..<lim h}" "copy_pair c1 c2 x h = (y, h')"
  obtain y1 y2 h1 where "c1 (fst x) h = (y1, h1)" "c2 (snd x) h1 = (y2, h')" "y = (y1, y2)"
    using a(3) by (auto simp: copy_pair_def split: prod.splits)
  with deep_copier_seq [OF assms a(1), of "fst x" "snd x" y1 h1 y2 h'] a(2)
  show "wf_heap h' \<and> extends h h' \<and> view_pair v1 v2 h' y = view_pair v1 v2 h x \<and> foot_pair f1 f2 h' y \<subseteq> {lim h..<lim h'}"
    by (simp add: view_pair_def foot_pair_def)
next
  fix x h and h2 :: heap assume "\<forall>a \<in> foot_pair f1 f2 h x. cells h2 a = cells h a"
  then show "view_pair v1 v2 h2 x = view_pair v1 v2 h x \<and> foot_pair f1 f2 h2 x = foot_pair f1 f2 h x"
    using deep_copier_frame [OF assms(1), of h "fst x" h2] deep_copier_frame [OF assms(2), of h "snd x" h2]
    by (simp add: view_pair_def foot_pair_def ball_Un)
qed

text \<open>A struct is copied as the tuple of its fields that need more than \<open>*out = *in\<close>.\<close>

lemma deep_copier_fields:
  assumes "deep_copier c v f"
    and "\<And>x h. into x h = (let (t, h) = c (parts x) h in (with_parts t x, h))"
    and "\<And>t x. parts (with_parts t x) = t" "\<And>t x. plain (with_parts t x) = plain x"
    and "\<And>h x. view h x = g (plain x) (v h (parts x))" "\<And>h x. foot h x = f h (parts x)"
  shows "deep_copier into view foot"
proof (rule deep_copierI)
  fix x h y h' assume a: "wf_heap h" "foot h x \<subseteq> {..<lim h}" "into x h = (y, h')"
  obtain t where "c (parts x) h = (t, h')" "y = with_parts t x"
    using a(3) by (auto simp: assms(2) split: prod.splits)
  with deep_copier_copy [OF assms(1) a(1)] a(2)
  show "wf_heap h' \<and> extends h h' \<and> view h' y = view h x \<and> foot h' y \<subseteq> {lim h..<lim h'}"
    by (simp add: assms(3-6))
next
  fix x h and h2 :: heap assume "\<forall>a \<in> foot h x. cells h2 a = cells h a"
  then show "view h2 x = view h x \<and> foot h2 x = foot h x"
    using deep_copier_frame [OF assms(1), of h "parts x" h2] by (simp add: assms(5,6))
qed

text \<open>A copy into memory that was made before, and that is written afterwards.\<close>

lemma deep_copier_into:
  assumes "deep_copier c v f" "wf_heap h" "f h x \<subseteq> {..<lim h}" "alloc Zero h = (out, h1)" "c x h1 = (y, h2)" "wf_cell cl"
  shows "wf_heap (set_cell out cl h2) \<and> extends h (set_cell out cl h2) \<and> lim h \<le> out \<and> out < lim h2
     \<and> v (set_cell out cl h2) y = v h x \<and> f (set_cell out cl h2) y \<subseteq> {lim h..<lim h2}"
proof -
  note n = alloc_extends [OF assms(4)] alloc_wf [OF assms(4,2)]
  have old: "v h1 x = v h x \<and> f h1 x = f h x" using n assms(3) by (intro deep_copier_extends [OF assms(1)]) auto
  then have "f h1 x \<subseteq> {..<lim h1}" using n assms(3) by auto
  then have c: "wf_heap h2 \<and> extends h1 h2 \<and> v h2 y = v h x \<and> f h2 y \<subseteq> {lim h1..<lim h2}"
    using deep_copier_copy [OF assms(1) _ _ assms(5)] n old by simp
  have "v (set_cell out cl h2) y = v h2 y \<and> f (set_cell out cl h2) y = f h2 y"
    using c n by (intro deep_copier_frame [OF assms(1)]) auto
  moreover have "extends h h2" using n c extends_trans by blast
  ultimately show ?thesis using c n assms(6) by (auto simp: extends_def)
qed

text \<open>A struct behind a pointer.\<close>

lemma deep_copier_struct:
  assumes "deep_copier into v f" "\<And>x. get (mk x) = x" "\<And>x. wf_cell (mk x)"
  shows "deep_copier (copy_struct mk get into) (view_struct get v) (foot_struct get f)"
proof (rule deep_copierI)
  fix p h y h' assume a: "wf_heap h" "foot_struct get f h p \<subseteq> {..<lim h}" "copy_struct mk get into p h = (y, h')"
  show "wf_heap h' \<and> extends h h' \<and> view_struct get v h' y = view_struct get v h p \<and> foot_struct get f h' y \<subseteq> {lim h..<lim h'}"
  proof (cases p)
    case None
    with a show ?thesis by (simp add: copy_struct_def view_struct_def foot_struct_def)
  next
    case (Some a)
    obtain out h1 x h2 where r: "alloc Zero h = (out, h1)" "into (get (cells h1 a)) h1 = (x, h2)" "y = Some out"
        "h' = set_cell out (mk x) h2"
      using a(3) Some by (auto simp: copy_struct_def split: prod.splits)
    have le: "a < lim h" "f h (get (cells h a)) \<subseteq> {..<lim h}" using a(2) Some by (simp_all add: foot_struct_def)
    then have "cells h1 a = cells h a" using alloc_extends [OF r(1)] by (simp add: extends_def)
    then have "into (get (cells h a)) h1 = (x, h2)" using r(2) by simp
    note c = deep_copier_into [OF assms(1) a(1) le(2) r(1) this assms(3), of x]
    then show ?thesis using r(3,4) Some assms(2) by (auto simp: view_struct_def foot_struct_def)
  qed
next
  fix p h and h2 :: heap assume "\<forall>a \<in> foot_struct get f h p. cells h2 a = cells h a"
  then show "view_struct get v h2 p = view_struct get v h p \<and> foot_struct get f h2 p = foot_struct get f h p"
    using deep_copier_frame [OF assms(1), of h "get (cells h (the p))" h2]
    by (cases p) (simp_all add: view_struct_def foot_struct_def)
qed

text \<open>The structs of a slice.\<close>

definition foot_all :: "(heap \<Rightarrow> 'a \<Rightarrow> addr set) \<Rightarrow> heap \<Rightarrow> 'a list \<Rightarrow> addr set" where
  "foot_all f h xs = \<Union> (f h ` set xs)"

lemma deep_copier_all:
  assumes "deep_copier into v f"
  shows "deep_copier (copy_all into) (\<lambda>h. map (v h)) (foot_all f)"
proof (rule deep_copierI)
  fix xs h ys h'
  show "wf_heap h \<Longrightarrow> foot_all f h xs \<subseteq> {..<lim h} \<Longrightarrow> copy_all into xs h = (ys, h') \<Longrightarrow>
      wf_heap h' \<and> extends h h' \<and> map (v h') ys = map (v h) xs \<and> foot_all f h' ys \<subseteq> {lim h..<lim h'}"
  proof (induction xs arbitrary: h ys)
    case Nil
    then show ?case by (simp add: foot_all_def)
  next
    case (Cons x xs)
    obtain y h1 ys1 where r: "into x h = (y, h1)" "copy_all into xs h1 = (ys1, h')" "ys = y # ys1"
      using Cons.prems(3) by (auto split: prod.splits)
    have c: "wf_heap h1 \<and> extends h h1 \<and> v h1 y = v h x \<and> f h1 y \<subseteq> {lim h..<lim h1}"
      using deep_copier_copy [OF assms Cons.prems(1) _ r(1)] Cons.prems(2) by (simp add: foot_all_def)
    have old: "\<forall>x \<in> set xs. v h1 x = v h x \<and> f h1 x = f h x"
      using c Cons.prems(2) by (intro ballI deep_copier_extends [OF assms]) (auto simp: foot_all_def)
    then have "foot_all f h1 xs = foot_all f h xs" "map (v h1) xs = map (v h) xs" by (simp_all add: foot_all_def)
    moreover have "foot_all f h xs \<subseteq> {..<lim h1}" using c Cons.prems(2) by (auto simp: foot_all_def extends_def)
    ultimately have i: "wf_heap h' \<and> extends h1 h' \<and> map (v h') ys1 = map (v h) xs \<and> foot_all f h' ys1 \<subseteq> {lim h1..<lim h'}"
      using Cons.IH [of h1 ys1] c r(2) by simp
    have "v h' y = v h1 y \<and> f h' y = f h1 y" using c i by (intro deep_copier_extends [OF assms]) auto
    with c i r(3) show ?case using extends_trans [of h h1 h'] by (auto simp: foot_all_def extends_def)
  qed
next
  fix xs h and h2 :: heap assume "\<forall>a \<in> foot_all f h xs. cells h2 a = cells h a"
  then have "\<forall>x \<in> set xs. v h2 x = v h x \<and> f h2 x = f h x"
    by (intro ballI deep_copier_frame [OF assms]) (auto simp: foot_all_def)
  then show "map (v h2) xs = map (v h) xs \<and> foot_all f h2 xs = foot_all f h xs" by (simp add: foot_all_def)
qed

text \<open>A slice of structs is a struct behind a pointer, the array, read between its bounds.\<close>

lemma deep_copier_structs:
  assumes "deep_copier into v f" "\<And>xs. get (mk xs) = xs" "\<And>xs. wf_cell (mk xs)"
  shows "deep_copier (copy_structs mk get into) (view_structs get v) (foot_structs get f)"
proof (rule deep_copierI)
  fix s h y h' assume a: "wf_heap h" "foot_structs get f h s \<subseteq> {..<lim h}" "copy_structs mk get into s h = (y, h')"
  show "wf_heap h' \<and> extends h h' \<and> view_structs get v h' y = view_structs get v h s \<and> foot_structs get f h' y \<subseteq> {lim h..<lim h'}"
  proof (cases s)
    case None
    with a show ?thesis by (simp add: copy_structs_def view_structs_def foot_structs_def view_slice_def foot_slice_def)
  next
    case (Some sl)
    obtain a off n where sl: "sl = Slice a off n" by (cases sl)
    let ?get = "\<lambda>c. take n (drop off (get c))"
    obtain out h1 xs h2 where r: "alloc Zero h = (out, h1)" "copy_all into (?get (cells h1 a)) h1 = (xs, h2)"
        "y = Some (Slice out 0 n)" "h' = set_cell out (mk xs) h2"
      using a(3) Some sl by (auto simp: copy_structs_def split: prod.splits)
    note da = deep_copier_all [OF assms(1)]
    have le: "a < lim h" "foot_all f h (?get (cells h a)) \<subseteq> {..<lim h}"
      using a(2) Some sl by (auto simp: foot_structs_def foot_slice_def view_slice_def foot_all_def)
    then have same: "cells h1 a = cells h a" using alloc_extends [OF r(1)] by (simp add: extends_def)
    note c = deep_copier_into [OF da a(1) le(2) r(1) r(2) [unfolded same] assms(3), of xs]
    then have "length xs \<le> n" by (metis length_map length_take min.cobounded2)
    with c r(3,4) Some sl assms(2)
    show ?thesis by (auto simp: view_structs_def foot_structs_def view_slice_def foot_slice_def foot_all_def)
  qed
next
  fix s h and h2 :: heap assume a: "\<forall>a \<in> foot_structs get f h s. cells h2 a = cells h a"
  then have "view_slice get h2 s = view_slice get h s \<and> foot_slice h2 s = foot_slice h s"
    by (cases s; cases "the s") (simp_all add: foot_structs_def view_slice_def foot_slice_def)
  moreover have "\<forall>x \<in> set (view_slice get h s). v h2 x = v h x \<and> f h2 x = f h x"
    using a by (intro ballI deep_copier_frame [OF assms(1)]) (auto simp: foot_structs_def)
  ultimately show "view_structs get v h2 s = view_structs get v h s \<and> foot_structs get f h2 s = foot_structs get f h s"
    by (simp add: view_structs_def foot_structs_def)
qed

end
