(* ===== verification/DeepCopy.thy ===== *)
theory DeepCopy
  imports GoHeap
begin

text \<open>
  \<open>pkg/apis/v1alpha1/zz_generated.deepcopy.go\<close>: the deep copies that every controller takes of
  a resource before it changes it, and compares with afterwards. \<open>DeepCopyInto\<close> of a type takes
  the struct \<open>in\<close> points to and gives the one it leaves in \<open>out\<close>; a field that it does not
  mention is as in \<open>*out = *in\<close>. The copies of Kubernetes' own structs are parameters.
\<close>

section \<open>What a cell holds\<close>

fun as_string where "as_string (CString s) = s" | "as_string _ = ([] :: string)"
fun as_bool where "as_bool (CBool b) = b" | "as_bool _ = False"
fun as_int where "as_int (CInt i) = i" | "as_int _ = (0 :: int)"
fun as_strings where "as_strings (CStrings xs) = xs" | "as_strings _ = ([] :: string list)"
fun as_zones where "as_zones (CZones xs) = xs" | "as_zones _ = ([] :: availability_zone list)"
fun as_conditions where "as_conditions (CConditions xs) = xs" | "as_conditions _ = ([] :: condition list)"
fun as_map where "as_map (CMap m) = m" | "as_map _ = ([] :: string gomap)"
fun as_durations where "as_durations (CDurations m) = m" | "as_durations _ = ([] :: int gomap)"

fun as_zone where "as_zone (CZone z) = z" | "as_zone _ = \<lparr>az_id = []\<rparr>"

fun as_source where
  "as_source (CBootVolumeSource s) = s"
| "as_source _ = \<lparr>go_ID = [], go_Type = None\<rparr>"

fun as_boot_volume where
  "as_boot_volume (CBootVolume v) = v"
| "as_boot_volume _ = \<lparr>go_Source = \<lparr>go_ID = [], go_Type = None\<rparr>, go_Size = 0, go_PerformanceClass = None, go_DeleteOnTermination = None\<rparr>"

fun as_networking where
  "as_networking (CNetworking n) = n"
| "as_networking _ = \<lparr>go_NetworkID = None, go_NICIDs = None\<rparr>"

fun as_kubelet where
  "as_kubelet (CKubelet k) = k"
| "as_kubelet _ = \<lparr>go_ClusterDNS = None, go_MaxPods = None, go_PodsPerCore = None, go_SystemReserved = None,
     go_KubeReserved = None, go_EvictionHard = None, go_EvictionSoft = None, go_EvictionSoftGracePeriod = None,
     go_EvictionMaxPodGracePeriod = None, go_CPUCFSQuota = None\<rparr>"

definition zero_spec :: go_StackitNodeClassSpec where
  "zero_spec = \<lparr>go_AvailabilityZones = None, go_BootVolume = as_boot_volume Zero, go_UserData = None,
     go_Networking = as_networking Zero, go_SecurityGroups = None, go_KeypairName = None, go_AffinityGroup = None,
     go_ServiceAccountMails = None, go_Labels = None, go_ServerNamePrefix = None, go_Kubelet = None\<rparr>"

definition zero_nodeclass :: go_StackitNodeClass where
  "zero_nodeclass = \<lparr>go_TypeMeta = \<lparr>go_Kind = [], go_APIVersion = []\<rparr>,
     go_ObjectMeta = \<lparr>go_Name = [], go_Generation = 0, go_DeletionTimestamp = None, go_Annotations = None, go_Finalizers = None\<rparr>,
     go_Spec = zero_spec, go_Status = \<lparr>go_StatusZones = None, go_Conditions = None\<rparr>\<rparr>"

fun as_spec where "as_spec (CSpec s) = s" | "as_spec _ = zero_spec"
fun as_status where "as_status (CStatus s) = s" | "as_status _ = \<lparr>go_StatusZones = None, go_Conditions = None\<rparr>"
fun as_nodeclass where "as_nodeclass (CNodeClass n) = n" | "as_nodeclass _ = zero_nodeclass"
fun as_nodeclasses where "as_nodeclasses (CNodeClasses ns) = ns" | "as_nodeclasses _ = ([] :: go_StackitNodeClass list)"

fun as_list where
  "as_list (CList l) = l"
| "as_list _ = \<lparr>go_ListTypeMeta = \<lparr>go_Kind = [], go_APIVersion = []\<rparr>,
     go_ListMeta = \<lparr>go_ResourceVersion = [], go_RemainingItemCount = None\<rparr>, go_Items = None\<rparr>"

text \<open>The elements and entries that the generated loops copy.\<close>

definition string_elems :: "nat \<Rightarrow> nat \<Rightarrow> cell \<Rightarrow> cell" where
  "string_elems off n c = CStrings (take n (drop off (as_strings c)))"

definition zone_elems :: "nat \<Rightarrow> nat \<Rightarrow> cell \<Rightarrow> cell" where
  "zone_elems off n c = CZones (take n (drop off (as_zones c)))"

definition map_entries :: "cell \<Rightarrow> cell" where
  "map_entries c = CMap (range_put (as_map c))"

definition duration_entries :: "cell \<Rightarrow> cell" where
  "duration_entries c = CDurations (range_put (as_durations c))"

section \<open>The generated functions\<close>

text \<open>\<open>ObjectMeta\<close>, \<open>ListMeta\<close> and \<open>Condition\<close> have \<open>DeepCopyInto\<close> functions of Kubernetes.\<close>

record copy_ops =
  co_ObjectMeta :: "go_ObjectMeta \<Rightarrow> heap \<Rightarrow> go_ObjectMeta \<times> heap"
  co_ListMeta :: "go_ListMeta \<Rightarrow> heap \<Rightarrow> go_ListMeta \<times> heap"
  co_Condition :: "condition \<Rightarrow> condition"

definition condition_elems :: "copy_ops \<Rightarrow> nat \<Rightarrow> nat \<Rightarrow> cell \<Rightarrow> cell" where
  "condition_elems C off n c = CConditions (map (co_Condition C) (take n (drop off (as_conditions c))))"

definition AvailabilityZone_DeepCopyInto :: "availability_zone \<Rightarrow> heap \<Rightarrow> availability_zone \<times> heap" where
  "AvailabilityZone_DeepCopyInto src h = (src, h)"

definition BootVolumeSourceSpec_DeepCopyInto :: "go_BootVolumeSourceSpec \<Rightarrow> heap \<Rightarrow> go_BootVolumeSourceSpec \<times> heap" where
  "BootVolumeSourceSpec_DeepCopyInto src h =
     (let out = src;
          (p, h) = copy_new (go_Type src) h; out = out\<lparr>go_Type := p\<rparr>
      in (out, h))"

definition BootVolumeSpec_DeepCopyInto :: "go_BootVolumeSpec \<Rightarrow> heap \<Rightarrow> go_BootVolumeSpec \<times> heap" where
  "BootVolumeSpec_DeepCopyInto src h =
     (let out = src;
          (s, h) = BootVolumeSourceSpec_DeepCopyInto (go_Source src) h; out = out\<lparr>go_Source := s\<rparr>;
          (p, h) = copy_new (go_PerformanceClass src) h; out = out\<lparr>go_PerformanceClass := p\<rparr>;
          (p, h) = copy_new (go_DeleteOnTermination src) h; out = out\<lparr>go_DeleteOnTermination := p\<rparr>
      in (out, h))"

definition KubeletConfiguration_DeepCopyInto :: "go_KubeletConfiguration \<Rightarrow> heap \<Rightarrow> go_KubeletConfiguration \<times> heap" where
  "KubeletConfiguration_DeepCopyInto src h =
     (let out = src;
          (s, h) = copy_slice string_elems (go_ClusterDNS src) h; out = out\<lparr>go_ClusterDNS := s\<rparr>;
          (p, h) = copy_new (go_MaxPods src) h; out = out\<lparr>go_MaxPods := p\<rparr>;
          (p, h) = copy_new (go_PodsPerCore src) h; out = out\<lparr>go_PodsPerCore := p\<rparr>;
          (p, h) = copy_map map_entries (go_SystemReserved src) h; out = out\<lparr>go_SystemReserved := p\<rparr>;
          (p, h) = copy_map map_entries (go_KubeReserved src) h; out = out\<lparr>go_KubeReserved := p\<rparr>;
          (p, h) = copy_map map_entries (go_EvictionHard src) h; out = out\<lparr>go_EvictionHard := p\<rparr>;
          (p, h) = copy_map map_entries (go_EvictionSoft src) h; out = out\<lparr>go_EvictionSoft := p\<rparr>;
          (p, h) = copy_map duration_entries (go_EvictionSoftGracePeriod src) h; out = out\<lparr>go_EvictionSoftGracePeriod := p\<rparr>;
          (p, h) = copy_new (go_EvictionMaxPodGracePeriod src) h; out = out\<lparr>go_EvictionMaxPodGracePeriod := p\<rparr>;
          (p, h) = copy_new (go_CPUCFSQuota src) h; out = out\<lparr>go_CPUCFSQuota := p\<rparr>
      in (out, h))"

definition NetworkingSpec_DeepCopyInto :: "go_NetworkingSpec \<Rightarrow> heap \<Rightarrow> go_NetworkingSpec \<times> heap" where
  "NetworkingSpec_DeepCopyInto src h =
     (let out = src;
          (p, h) = copy_new (go_NetworkID src) h; out = out\<lparr>go_NetworkID := p\<rparr>;
          (s, h) = copy_slice string_elems (go_NICIDs src) h; out = out\<lparr>go_NICIDs := s\<rparr>
      in (out, h))"

definition StackitNodeClassSpec_DeepCopyInto :: "go_StackitNodeClassSpec \<Rightarrow> heap \<Rightarrow> go_StackitNodeClassSpec \<times> heap" where
  "StackitNodeClassSpec_DeepCopyInto src h =
     (let out = src;
          (s, h) = copy_slice string_elems (go_AvailabilityZones src) h; out = out\<lparr>go_AvailabilityZones := s\<rparr>;
          (v, h) = BootVolumeSpec_DeepCopyInto (go_BootVolume src) h; out = out\<lparr>go_BootVolume := v\<rparr>;
          (p, h) = copy_new (go_UserData src) h; out = out\<lparr>go_UserData := p\<rparr>;
          (n, h) = NetworkingSpec_DeepCopyInto (go_Networking src) h; out = out\<lparr>go_Networking := n\<rparr>;
          (s, h) = copy_slice string_elems (go_SecurityGroups src) h; out = out\<lparr>go_SecurityGroups := s\<rparr>;
          (p, h) = copy_new (go_KeypairName src) h; out = out\<lparr>go_KeypairName := p\<rparr>;
          (p, h) = copy_new (go_AffinityGroup src) h; out = out\<lparr>go_AffinityGroup := p\<rparr>;
          (s, h) = copy_slice string_elems (go_ServiceAccountMails src) h; out = out\<lparr>go_ServiceAccountMails := s\<rparr>;
          (p, h) = copy_map map_entries (go_Labels src) h; out = out\<lparr>go_Labels := p\<rparr>;
          (p, h) = copy_new (go_ServerNamePrefix src) h; out = out\<lparr>go_ServerNamePrefix := p\<rparr>;
          (k, h) = copy_struct CKubelet as_kubelet KubeletConfiguration_DeepCopyInto (go_Kubelet src) h;
          out = out\<lparr>go_Kubelet := k\<rparr>
      in (out, h))"

definition StackitNodeClassStatus_DeepCopyInto ::
  "copy_ops \<Rightarrow> go_StackitNodeClassStatus \<Rightarrow> heap \<Rightarrow> go_StackitNodeClassStatus \<times> heap" where
  "StackitNodeClassStatus_DeepCopyInto C src h =
     (let out = src;
          (s, h) = copy_slice zone_elems (go_StatusZones src) h; out = out\<lparr>go_StatusZones := s\<rparr>;
          (s, h) = copy_slice (condition_elems C) (go_Conditions src) h; out = out\<lparr>go_Conditions := s\<rparr>
      in (out, h))"

definition StackitNodeClass_DeepCopyInto :: "copy_ops \<Rightarrow> go_StackitNodeClass \<Rightarrow> heap \<Rightarrow> go_StackitNodeClass \<times> heap" where
  "StackitNodeClass_DeepCopyInto C src h =
     (let out = src;
          out = out\<lparr>go_TypeMeta := go_TypeMeta src\<rparr>;
          (m, h) = co_ObjectMeta C (go_ObjectMeta src) h; out = out\<lparr>go_ObjectMeta := m\<rparr>;
          (s, h) = StackitNodeClassSpec_DeepCopyInto (go_Spec src) h; out = out\<lparr>go_Spec := s\<rparr>;
          (t, h) = StackitNodeClassStatus_DeepCopyInto C (go_Status src) h; out = out\<lparr>go_Status := t\<rparr>
      in (out, h))"

definition StackitNodeClassList_DeepCopyInto ::
  "copy_ops \<Rightarrow> go_StackitNodeClassList \<Rightarrow> heap \<Rightarrow> go_StackitNodeClassList \<times> heap" where
  "StackitNodeClassList_DeepCopyInto C src h =
     (let out = src;
          out = out\<lparr>go_ListTypeMeta := go_ListTypeMeta src\<rparr>;
          (m, h) = co_ListMeta C (go_ListMeta src) h; out = out\<lparr>go_ListMeta := m\<rparr>;
          (s, h) = copy_structs CNodeClasses as_nodeclasses (StackitNodeClass_DeepCopyInto C) (go_Items src) h;
          out = out\<lparr>go_Items := s\<rparr>
      in (out, h))"

text \<open>\<open>DeepCopy\<close> of each type: nil, or a new struct that \<open>DeepCopyInto\<close> fills.\<close>

definition AvailabilityZone_DeepCopy :: "addr option \<Rightarrow> heap \<Rightarrow> addr option \<times> heap" where
  "AvailabilityZone_DeepCopy = copy_struct CZone as_zone AvailabilityZone_DeepCopyInto"

definition BootVolumeSourceSpec_DeepCopy :: "addr option \<Rightarrow> heap \<Rightarrow> addr option \<times> heap" where
  "BootVolumeSourceSpec_DeepCopy = copy_struct CBootVolumeSource as_source BootVolumeSourceSpec_DeepCopyInto"

definition BootVolumeSpec_DeepCopy :: "addr option \<Rightarrow> heap \<Rightarrow> addr option \<times> heap" where
  "BootVolumeSpec_DeepCopy = copy_struct CBootVolume as_boot_volume BootVolumeSpec_DeepCopyInto"

definition KubeletConfiguration_DeepCopy :: "addr option \<Rightarrow> heap \<Rightarrow> addr option \<times> heap" where
  "KubeletConfiguration_DeepCopy = copy_struct CKubelet as_kubelet KubeletConfiguration_DeepCopyInto"

definition NetworkingSpec_DeepCopy :: "addr option \<Rightarrow> heap \<Rightarrow> addr option \<times> heap" where
  "NetworkingSpec_DeepCopy = copy_struct CNetworking as_networking NetworkingSpec_DeepCopyInto"

definition StackitNodeClassSpec_DeepCopy :: "addr option \<Rightarrow> heap \<Rightarrow> addr option \<times> heap" where
  "StackitNodeClassSpec_DeepCopy = copy_struct CSpec as_spec StackitNodeClassSpec_DeepCopyInto"

definition StackitNodeClassStatus_DeepCopy :: "copy_ops \<Rightarrow> addr option \<Rightarrow> heap \<Rightarrow> addr option \<times> heap" where
  "StackitNodeClassStatus_DeepCopy C = copy_struct CStatus as_status (StackitNodeClassStatus_DeepCopyInto C)"

definition StackitNodeClass_DeepCopy :: "copy_ops \<Rightarrow> addr option \<Rightarrow> heap \<Rightarrow> addr option \<times> heap" where
  "StackitNodeClass_DeepCopy C = copy_struct CNodeClass as_nodeclass (StackitNodeClass_DeepCopyInto C)"

definition StackitNodeClassList_DeepCopy :: "copy_ops \<Rightarrow> addr option \<Rightarrow> heap \<Rightarrow> addr option \<times> heap" where
  "StackitNodeClassList_DeepCopy C = copy_struct CList as_list (StackitNodeClassList_DeepCopyInto C)"

text \<open>\<open>DeepCopyObject\<close>: the interface value that holds the copy, or the nil interface.\<close>

datatype runtime_object = ONodeClass addr | ONodeClassList addr

definition StackitNodeClass_DeepCopyObject :: "copy_ops \<Rightarrow> addr option \<Rightarrow> heap \<Rightarrow> runtime_object option \<times> heap" where
  "StackitNodeClass_DeepCopyObject C src h =
     (case StackitNodeClass_DeepCopy C src h of
        (Some c, h) \<Rightarrow> (Some (ONodeClass c), h)
      | (None, h) \<Rightarrow> (None, h))"

definition StackitNodeClassList_DeepCopyObject :: "copy_ops \<Rightarrow> addr option \<Rightarrow> heap \<Rightarrow> runtime_object option \<times> heap" where
  "StackitNodeClassList_DeepCopyObject C src h =
     (case StackitNodeClassList_DeepCopy C src h of
        (Some c, h) \<Rightarrow> (Some (ONodeClassList c), h)
      | (None, h) \<Rightarrow> (None, h))"

section \<open>The value of a struct, and the memory it is made of\<close>

definition nil_map :: "'v gomap option \<Rightarrow> 'v gomap" where
  "nil_map m = (case m of None \<Rightarrow> [] | Some m \<Rightarrow> m)"

definition view_source :: "heap \<Rightarrow> go_BootVolumeSourceSpec \<Rightarrow> boot_volume_source_spec" where
  "view_source h s = \<lparr>bvs_id = go_ID s, bvs_type = view_ptr as_string h (go_Type s)\<rparr>"

definition foot_source :: "heap \<Rightarrow> go_BootVolumeSourceSpec \<Rightarrow> addr set" where
  "foot_source h s = foot_ptr h (go_Type s)"

definition view_boot_volume :: "heap \<Rightarrow> go_BootVolumeSpec \<Rightarrow> boot_volume_spec" where
  "view_boot_volume h v =
     \<lparr>bv_source = view_source h (go_Source v), bv_size = go_Size v,
      bv_performance_class = view_ptr as_string h (go_PerformanceClass v),
      bv_delete_on_termination = view_ptr as_bool h (go_DeleteOnTermination v)\<rparr>"

definition foot_boot_volume :: "heap \<Rightarrow> go_BootVolumeSpec \<Rightarrow> addr set" where
  "foot_boot_volume h v = foot_source h (go_Source v) \<union> foot_ptr h (go_PerformanceClass v) \<union> foot_ptr h (go_DeleteOnTermination v)"

definition view_networking :: "heap \<Rightarrow> go_NetworkingSpec \<Rightarrow> networking_spec" where
  "view_networking h n =
     \<lparr>net_network_id = view_ptr as_string h (go_NetworkID n), net_nic_ids = view_slice as_strings h (go_NICIDs n)\<rparr>"

definition foot_networking :: "heap \<Rightarrow> go_NetworkingSpec \<Rightarrow> addr set" where
  "foot_networking h n = foot_ptr h (go_NetworkID n) \<union> foot_slice h (go_NICIDs n)"

definition view_kubelet :: "heap \<Rightarrow> go_KubeletConfiguration \<Rightarrow> kubelet_configuration" where
  "view_kubelet h k =
     \<lparr>kc_cluster_dns = view_slice as_strings h (go_ClusterDNS k),
      kc_max_pods = view_ptr as_int h (go_MaxPods k),
      kc_pods_per_core = view_ptr as_int h (go_PodsPerCore k),
      kc_system_reserved = nil_map (view_ptr as_map h (go_SystemReserved k)),
      kc_kube_reserved = nil_map (view_ptr as_map h (go_KubeReserved k)),
      kc_eviction_hard = view_ptr as_map h (go_EvictionHard k),
      kc_eviction_soft = view_ptr as_map h (go_EvictionSoft k),
      kc_eviction_soft_grace_period = nil_map (view_ptr as_durations h (go_EvictionSoftGracePeriod k)),
      kc_eviction_max_pod_grace_period = view_ptr as_int h (go_EvictionMaxPodGracePeriod k),
      kc_cpu_cfs_quota = view_ptr as_bool h (go_CPUCFSQuota k)\<rparr>"

definition foot_kubelet :: "heap \<Rightarrow> go_KubeletConfiguration \<Rightarrow> addr set" where
  "foot_kubelet h k =
     foot_slice h (go_ClusterDNS k) \<union> foot_ptr h (go_MaxPods k) \<union> foot_ptr h (go_PodsPerCore k)
     \<union> foot_ptr h (go_SystemReserved k) \<union> foot_ptr h (go_KubeReserved k) \<union> foot_ptr h (go_EvictionHard k)
     \<union> foot_ptr h (go_EvictionSoft k) \<union> foot_ptr h (go_EvictionSoftGracePeriod k)
     \<union> foot_ptr h (go_EvictionMaxPodGracePeriod k) \<union> foot_ptr h (go_CPUCFSQuota k)"

definition view_spec :: "heap \<Rightarrow> go_StackitNodeClassSpec \<Rightarrow> nodeclass_spec" where
  "view_spec h s =
     \<lparr>spec_availability_zones = view_slice as_strings h (go_AvailabilityZones s),
      spec_boot_volume = view_boot_volume h (go_BootVolume s),
      spec_user_data = view_ptr as_string h (go_UserData s),
      spec_networking = view_networking h (go_Networking s),
      spec_security_groups = view_slice as_strings h (go_SecurityGroups s),
      spec_keypair_name = view_ptr as_string h (go_KeypairName s),
      spec_affinity_group = view_ptr as_string h (go_AffinityGroup s),
      spec_service_account_mails = view_slice as_strings h (go_ServiceAccountMails s),
      spec_labels = nil_map (view_ptr as_map h (go_Labels s)),
      spec_server_name_prefix = view_ptr as_string h (go_ServerNamePrefix s),
      spec_kubelet = view_struct as_kubelet view_kubelet h (go_Kubelet s)\<rparr>"

definition foot_spec :: "heap \<Rightarrow> go_StackitNodeClassSpec \<Rightarrow> addr set" where
  "foot_spec h s =
     foot_slice h (go_AvailabilityZones s) \<union> foot_boot_volume h (go_BootVolume s) \<union> foot_ptr h (go_UserData s)
     \<union> foot_networking h (go_Networking s) \<union> foot_slice h (go_SecurityGroups s) \<union> foot_ptr h (go_KeypairName s)
     \<union> foot_ptr h (go_AffinityGroup s) \<union> foot_slice h (go_ServiceAccountMails s) \<union> foot_ptr h (go_Labels s)
     \<union> foot_ptr h (go_ServerNamePrefix s) \<union> foot_struct as_kubelet foot_kubelet h (go_Kubelet s)"

definition view_status :: "heap \<Rightarrow> go_StackitNodeClassStatus \<Rightarrow> availability_zone list \<times> condition list" where
  "view_status h t = (view_slice as_zones h (go_StatusZones t), view_slice as_conditions h (go_Conditions t))"

definition foot_status :: "heap \<Rightarrow> go_StackitNodeClassStatus \<Rightarrow> addr set" where
  "foot_status h t = foot_slice h (go_StatusZones t) \<union> foot_slice h (go_Conditions t)"

text \<open>The name, the generation, the deletion timestamp, the annotations and the finalizers.\<close>

definition view_meta :: "heap \<Rightarrow> go_ObjectMeta \<Rightarrow> string \<times> int \<times> int option \<times> string gomap \<times> string list" where
  "view_meta h m =
     (go_Name m, go_Generation m, view_ptr as_int h (go_DeletionTimestamp m),
      nil_map (view_ptr as_map h (go_Annotations m)), view_slice as_strings h (go_Finalizers m))"

definition foot_meta :: "heap \<Rightarrow> go_ObjectMeta \<Rightarrow> addr set" where
  "foot_meta h m = foot_ptr h (go_DeletionTimestamp m) \<union> foot_ptr h (go_Annotations m) \<union> foot_slice h (go_Finalizers m)"

definition view_list_meta :: "heap \<Rightarrow> go_ListMeta \<Rightarrow> string \<times> int option" where
  "view_list_meta h m = (go_ResourceVersion m, view_ptr as_int h (go_RemainingItemCount m))"

definition foot_list_meta :: "heap \<Rightarrow> go_ListMeta \<Rightarrow> addr set" where
  "foot_list_meta h m = foot_ptr h (go_RemainingItemCount m)"

text \<open>A StackitNodeClass is the type it says it is of, and the resource of the other theories.\<close>

definition view_nodeclass :: "heap \<Rightarrow> go_StackitNodeClass \<Rightarrow> go_TypeMeta \<times> nodeclass" where
  "view_nodeclass h n =
     (let (name, generation, deleted, annotations, finalizers) = view_meta h (go_ObjectMeta n);
          (zones, conditions) = view_status h (go_Status n)
      in (go_TypeMeta n,
          \<lparr>nc_name = name, nc_generation = generation, nc_deletion_timestamp = deleted, nc_annotations = annotations,
           nc_finalizers = finalizers, nc_spec = view_spec h (go_Spec n), nc_availability_zones = zones,
           nc_conditions = conditions\<rparr>))"

definition foot_nodeclass :: "heap \<Rightarrow> go_StackitNodeClass \<Rightarrow> addr set" where
  "foot_nodeclass h n = foot_meta h (go_ObjectMeta n) \<union> foot_spec h (go_Spec n) \<union> foot_status h (go_Status n)"

definition view_list :: "heap \<Rightarrow> go_StackitNodeClassList \<Rightarrow> go_TypeMeta \<times> (string \<times> int option) \<times> (go_TypeMeta \<times> nodeclass) list" where
  "view_list h l =
     (go_ListTypeMeta l, view_list_meta h (go_ListMeta l), view_structs as_nodeclasses view_nodeclass h (go_Items l))"

definition foot_list :: "heap \<Rightarrow> go_StackitNodeClassList \<Rightarrow> addr set" where
  "foot_list h l = foot_list_meta h (go_ListMeta l) \<union> foot_structs as_nodeclasses foot_nodeclass h (go_Items l)"

section \<open>Every generated function makes a deep copy\<close>

text \<open>What is used of Kubernetes' own deep copies: that they are deep copies.\<close>

definition copy_laws :: "copy_ops \<Rightarrow> bool" where
  "copy_laws C \<longleftrightarrow>
     deep_copier (co_ObjectMeta C) view_meta foot_meta
     \<and> deep_copier (co_ListMeta C) view_list_meta foot_list_meta
     \<and> (\<forall>c. co_Condition C c = c)"

lemma range_put_map: "wf_cell c \<Longrightarrow> range_put (as_map c) = as_map c"
  by (cases c) (simp_all add: range_put_same)

lemma range_put_durations: "wf_cell c \<Longrightarrow> range_put (as_durations c) = as_durations c"
  by (cases c) (simp_all add: range_put_same)

lemma wf_as_map: "wf_cell c \<Longrightarrow> wf_map (as_map c) \<and> wf_map (as_durations c)"
  by (cases c) simp_all

lemma copies_strings: "deep_copier (copy_slice string_elems) (view_slice as_strings) foot_slice"
  by (rule deep_copier_slice) (simp_all add: string_elems_def)

lemma copies_zones: "deep_copier (copy_slice zone_elems) (view_slice as_zones) foot_slice"
  by (rule deep_copier_slice) (simp_all add: zone_elems_def)

lemma copies_conditions:
  assumes "copy_laws C"
  shows "deep_copier (copy_slice (condition_elems C)) (view_slice as_conditions) foot_slice"
proof -
  have "co_Condition C = (\<lambda>c. c)" using assms by (auto simp: copy_laws_def)
  then show ?thesis by (intro deep_copier_slice) (simp_all add: condition_elems_def)
qed

lemma copies_map: "deep_copier (copy_map map_entries) (view_ptr as_map) foot_ptr"
  by (rule deep_copier_map) (simp_all add: map_entries_def range_put_map wf_as_map)

lemma copies_durations: "deep_copier (copy_map duration_entries) (view_ptr as_durations) foot_ptr"
  by (rule deep_copier_map) (simp_all add: duration_entries_def range_put_durations wf_as_map)

lemmas copies_field = deep_copier_ptr [of as_string] deep_copier_ptr [of as_bool] deep_copier_ptr [of as_int]
  copies_strings copies_zones copies_map copies_durations

lemmas fields_simps = copy_pair_def view_pair_def foot_pair_def Let_def split_beta Un_assoc

lemma copies_source: "deep_copier BootVolumeSourceSpec_DeepCopyInto view_source foot_source"
  by (rule deep_copier_fields [OF deep_copier_ptr [of as_string], where parts = go_Type and plain = go_ID
        and with_parts = "\<lambda>t x. x\<lparr>go_Type := t\<rparr>" and g = "\<lambda>i t. \<lparr>bvs_id = i, bvs_type = t\<rparr>"])
     (simp_all add: BootVolumeSourceSpec_DeepCopyInto_def view_source_def foot_source_def)

lemma copies_boot_volume: "deep_copier BootVolumeSpec_DeepCopyInto view_boot_volume foot_boot_volume"
  by (rule deep_copier_fields [OF deep_copier_pair [OF copies_source
          deep_copier_pair [OF deep_copier_ptr [of as_string] deep_copier_ptr [of as_bool]]],
        where parts = "\<lambda>x. (go_Source x, go_PerformanceClass x, go_DeleteOnTermination x)" and plain = go_Size
          and with_parts = "\<lambda>(s, p, d) x. x\<lparr>go_Source := s, go_PerformanceClass := p, go_DeleteOnTermination := d\<rparr>"
          and g = "\<lambda>i (s, p, d). \<lparr>bv_source = s, bv_size = i, bv_performance_class = p, bv_delete_on_termination = d\<rparr>"])
     (auto simp: BootVolumeSpec_DeepCopyInto_def view_boot_volume_def foot_boot_volume_def fields_simps)

lemma copies_networking: "deep_copier NetworkingSpec_DeepCopyInto view_networking foot_networking"
  by (rule deep_copier_fields [OF deep_copier_pair [OF deep_copier_ptr [of as_string] copies_strings],
        where parts = "\<lambda>x. (go_NetworkID x, go_NICIDs x)" and plain = "\<lambda>_. ()"
          and with_parts = "\<lambda>(n, s) x. x\<lparr>go_NetworkID := n, go_NICIDs := s\<rparr>"
          and g = "\<lambda>_ (n, s). \<lparr>net_network_id = n, net_nic_ids = s\<rparr>"])
     (auto simp: NetworkingSpec_DeepCopyInto_def view_networking_def foot_networking_def fields_simps)

lemma copies_kubelet: "deep_copier KubeletConfiguration_DeepCopyInto view_kubelet foot_kubelet"
  by (rule deep_copier_fields [OF deep_copier_pair [OF copies_strings
          deep_copier_pair [OF deep_copier_ptr [of as_int] deep_copier_pair [OF deep_copier_ptr [of as_int]
          deep_copier_pair [OF copies_map deep_copier_pair [OF copies_map deep_copier_pair [OF copies_map
          deep_copier_pair [OF copies_map deep_copier_pair [OF copies_durations
          deep_copier_pair [OF deep_copier_ptr [of as_int] deep_copier_ptr [of as_bool]]]]]]]]]],
        where parts = "\<lambda>x. (go_ClusterDNS x, go_MaxPods x, go_PodsPerCore x, go_SystemReserved x, go_KubeReserved x,
            go_EvictionHard x, go_EvictionSoft x, go_EvictionSoftGracePeriod x, go_EvictionMaxPodGracePeriod x, go_CPUCFSQuota x)"
          and plain = "\<lambda>_. ()"
          and with_parts = "\<lambda>(a, b, c, d, e, f, g, h, i, j) x. \<lparr>go_ClusterDNS = a, go_MaxPods = b, go_PodsPerCore = c,
            go_SystemReserved = d, go_KubeReserved = e, go_EvictionHard = f, go_EvictionSoft = g,
            go_EvictionSoftGracePeriod = h, go_EvictionMaxPodGracePeriod = i, go_CPUCFSQuota = j\<rparr>"
          and g = "\<lambda>_ (a, b, c, d, e, f, g, h, i, j). \<lparr>kc_cluster_dns = a, kc_max_pods = b, kc_pods_per_core = c,
            kc_system_reserved = nil_map d, kc_kube_reserved = nil_map e, kc_eviction_hard = f, kc_eviction_soft = g,
            kc_eviction_soft_grace_period = nil_map h, kc_eviction_max_pod_grace_period = i, kc_cpu_cfs_quota = j\<rparr>"])
     (auto simp: KubeletConfiguration_DeepCopyInto_def view_kubelet_def foot_kubelet_def fields_simps)

lemma copies_kubelet_ptr:
  "deep_copier (copy_struct CKubelet as_kubelet KubeletConfiguration_DeepCopyInto)
     (view_struct as_kubelet view_kubelet) (foot_struct as_kubelet foot_kubelet)"
  by (rule deep_copier_struct [OF copies_kubelet]) simp_all

lemma copies_spec: "deep_copier StackitNodeClassSpec_DeepCopyInto view_spec foot_spec"
  by (rule deep_copier_fields [OF deep_copier_pair [OF copies_strings deep_copier_pair [OF copies_boot_volume
          deep_copier_pair [OF deep_copier_ptr [of as_string] deep_copier_pair [OF copies_networking
          deep_copier_pair [OF copies_strings deep_copier_pair [OF deep_copier_ptr [of as_string]
          deep_copier_pair [OF deep_copier_ptr [of as_string] deep_copier_pair [OF copies_strings
          deep_copier_pair [OF copies_map deep_copier_pair [OF deep_copier_ptr [of as_string] copies_kubelet_ptr]]]]]]]]]],
        where parts = "\<lambda>x. (go_AvailabilityZones x, go_BootVolume x, go_UserData x, go_Networking x, go_SecurityGroups x,
            go_KeypairName x, go_AffinityGroup x, go_ServiceAccountMails x, go_Labels x, go_ServerNamePrefix x, go_Kubelet x)"
          and plain = "\<lambda>_. ()"
          and with_parts = "\<lambda>(a, b, c, d, e, f, g, h, i, j, k) x. \<lparr>go_AvailabilityZones = a, go_BootVolume = b, go_UserData = c,
            go_Networking = d, go_SecurityGroups = e, go_KeypairName = f, go_AffinityGroup = g, go_ServiceAccountMails = h,
            go_Labels = i, go_ServerNamePrefix = j, go_Kubelet = k\<rparr>"
          and g = "\<lambda>_ (a, b, c, d, e, f, g, h, i, j, k). \<lparr>spec_availability_zones = a, spec_boot_volume = b, spec_user_data = c,
            spec_networking = d, spec_security_groups = e, spec_keypair_name = f, spec_affinity_group = g,
            spec_service_account_mails = h, spec_labels = nil_map i, spec_server_name_prefix = j, spec_kubelet = k\<rparr>"])
     (auto simp: StackitNodeClassSpec_DeepCopyInto_def view_spec_def foot_spec_def fields_simps)

lemma copies_status:
  assumes "copy_laws C"
  shows "deep_copier (StackitNodeClassStatus_DeepCopyInto C) view_status foot_status"
  by (rule deep_copier_fields [OF deep_copier_pair [OF copies_zones copies_conditions [OF assms]],
        where parts = "\<lambda>x. (go_StatusZones x, go_Conditions x)" and plain = "\<lambda>_. ()"
          and with_parts = "\<lambda>(z, c) x. x\<lparr>go_StatusZones := z, go_Conditions := c\<rparr>" and g = "\<lambda>_ t. t"])
     (auto simp: StackitNodeClassStatus_DeepCopyInto_def view_status_def foot_status_def fields_simps)

lemma copies_nodeclass:
  assumes "copy_laws C"
  shows "deep_copier (StackitNodeClass_DeepCopyInto C) view_nodeclass foot_nodeclass"
proof -
  have m: "deep_copier (co_ObjectMeta C) view_meta foot_meta" using assms by (simp add: copy_laws_def)
  show ?thesis
    by (rule deep_copier_fields [OF deep_copier_pair [OF m deep_copier_pair [OF copies_spec copies_status [OF assms]]],
          where parts = "\<lambda>x. (go_ObjectMeta x, go_Spec x, go_Status x)" and plain = go_TypeMeta
            and with_parts = "\<lambda>(m, s, t) x. x\<lparr>go_ObjectMeta := m, go_Spec := s, go_Status := t\<rparr>"
            and g = "\<lambda>ty ((name, generation, deleted, annotations, finalizers), spec, zones, conditions).
              (ty, \<lparr>nc_name = name, nc_generation = generation, nc_deletion_timestamp = deleted, nc_annotations = annotations,
                nc_finalizers = finalizers, nc_spec = spec, nc_availability_zones = zones, nc_conditions = conditions\<rparr>)"])
       (auto simp: StackitNodeClass_DeepCopyInto_def view_nodeclass_def foot_nodeclass_def fields_simps view_meta_def view_status_def)
qed

lemma copies_list:
  assumes "copy_laws C"
  shows "deep_copier (StackitNodeClassList_DeepCopyInto C) view_list foot_list"
proof -
  have m: "deep_copier (co_ListMeta C) view_list_meta foot_list_meta" using assms by (simp add: copy_laws_def)
  have i: "deep_copier (copy_structs CNodeClasses as_nodeclasses (StackitNodeClass_DeepCopyInto C))
      (view_structs as_nodeclasses view_nodeclass) (foot_structs as_nodeclasses foot_nodeclass)"
    by (rule deep_copier_structs [OF copies_nodeclass [OF assms]]) simp_all
  show ?thesis
    by (rule deep_copier_fields [OF deep_copier_pair [OF m i],
          where parts = "\<lambda>x. (go_ListMeta x, go_Items x)" and plain = go_ListTypeMeta
            and with_parts = "\<lambda>(m, s) x. x\<lparr>go_ListMeta := m, go_Items := s\<rparr>" and g = "\<lambda>ty (m, s). (ty, m, s)"])
       (auto simp: StackitNodeClassList_DeepCopyInto_def view_list_def foot_list_def fields_simps)
qed

lemma copies_zone: "deep_copier AvailabilityZone_DeepCopyInto (\<lambda>h z. z) (\<lambda>h z. {})"
  by (rule deep_copierI) (simp_all add: AvailabilityZone_DeepCopyInto_def)

section \<open>Behind a pointer\<close>

text \<open>
  The contract of a \<open>DeepCopy\<close> method. What its callers do with it: they change the original,
  or the copy, and read the other one.
\<close>

locale deep_copy_method =
  fixes DeepCopy :: "'e \<Rightarrow> addr option \<Rightarrow> heap \<Rightarrow> addr option \<times> heap"
    and lawful :: "'e \<Rightarrow> bool"
    and read :: "heap \<Rightarrow> addr option \<Rightarrow> 'v option"
    and reach :: "heap \<Rightarrow> addr option \<Rightarrow> addr set"
  assumes copies: "lawful e \<Longrightarrow> deep_copier (DeepCopy e) read reach"
    and nil: "read h p = None \<longleftrightarrow> p = None"
begin

lemma isolated:
  assumes "lawful e" "wf_heap h" "reach h p \<subseteq> {..<lim h}" "DeepCopy e p h = (q, h')"
  shows "(q = None \<longleftrightarrow> p = None) \<and> read h' q = read h p \<and> reach h' q \<inter> reach h p = {}
     \<and> (\<forall>h2. (\<forall>a \<ge> lim h. cells h2 a = cells h' a) \<longrightarrow> read h2 q = read h p)
     \<and> (\<forall>h2. (\<forall>a \<in> reach h p. cells h2 a = cells h' a) \<longrightarrow> read h2 p = read h p)"
proof (intro conjI allI impI)
  note c = deep_copier_copy [OF copies [OF assms(1)] assms(2-4)]
  show "q = None \<longleftrightarrow> p = None" using c nil by metis
  show "read h' q = read h p" using c by simp
  show "reach h' q \<inter> reach h p = {}" using c assms(3) by fastforce
  show "read h2 q = read h p" if "\<forall>a \<ge> lim h. cells h2 a = cells h' a" for h2
  proof -
    have "\<forall>a \<in> reach h' q. cells h2 a = cells h' a" using that c by auto
    from deep_copier_frame [OF copies [OF assms(1)] this] c show ?thesis by simp
  qed
  show "read h2 p = read h p" if "\<forall>a \<in> reach h p. cells h2 a = cells h' a" for h2
  proof -
    have "\<forall>a \<in> reach h p. cells h2 a = cells h a" using that c assms(3) by (auto simp: extends_def subset_iff)
    from deep_copier_frame [OF copies [OF assms(1)] this] show ?thesis by simp
  qed
qed

end

interpretation zone_copy: deep_copy_method "\<lambda>_ :: unit. AvailabilityZone_DeepCopy" "\<lambda>_. True"
  "view_struct as_zone (\<lambda>h z. z)" "foot_struct as_zone (\<lambda>h z. {})"
  by unfold_locales
     (auto simp: AvailabilityZone_DeepCopy_def view_struct_def intro!: deep_copier_struct copies_zone)

interpretation source_copy: deep_copy_method "\<lambda>_ :: unit. BootVolumeSourceSpec_DeepCopy" "\<lambda>_. True"
  "view_struct as_source view_source" "foot_struct as_source foot_source"
  by unfold_locales
     (auto simp: BootVolumeSourceSpec_DeepCopy_def view_struct_def intro!: deep_copier_struct copies_source)

interpretation boot_volume_copy: deep_copy_method "\<lambda>_ :: unit. BootVolumeSpec_DeepCopy" "\<lambda>_. True"
  "view_struct as_boot_volume view_boot_volume" "foot_struct as_boot_volume foot_boot_volume"
  by unfold_locales
     (auto simp: BootVolumeSpec_DeepCopy_def view_struct_def intro!: deep_copier_struct copies_boot_volume)

interpretation networking_copy: deep_copy_method "\<lambda>_ :: unit. NetworkingSpec_DeepCopy" "\<lambda>_. True"
  "view_struct as_networking view_networking" "foot_struct as_networking foot_networking"
  by unfold_locales
     (auto simp: NetworkingSpec_DeepCopy_def view_struct_def intro!: deep_copier_struct copies_networking)

interpretation kubelet_copy: deep_copy_method "\<lambda>_ :: unit. KubeletConfiguration_DeepCopy" "\<lambda>_. True"
  "view_struct as_kubelet view_kubelet" "foot_struct as_kubelet foot_kubelet"
  by unfold_locales
     (auto simp: KubeletConfiguration_DeepCopy_def view_struct_def intro!: deep_copier_struct copies_kubelet)

interpretation spec_copy: deep_copy_method "\<lambda>_ :: unit. StackitNodeClassSpec_DeepCopy" "\<lambda>_. True"
  "view_struct as_spec view_spec" "foot_struct as_spec foot_spec"
  by unfold_locales
     (auto simp: StackitNodeClassSpec_DeepCopy_def view_struct_def intro!: deep_copier_struct copies_spec)

interpretation status_copy: deep_copy_method StackitNodeClassStatus_DeepCopy copy_laws
  "view_struct as_status view_status" "foot_struct as_status foot_status"
  by unfold_locales
     (auto simp: StackitNodeClassStatus_DeepCopy_def view_struct_def intro!: deep_copier_struct copies_status)

interpretation nodeclass_copy: deep_copy_method StackitNodeClass_DeepCopy copy_laws
  "view_struct as_nodeclass view_nodeclass" "foot_struct as_nodeclass foot_nodeclass"
  by unfold_locales
     (auto simp: StackitNodeClass_DeepCopy_def view_struct_def intro!: deep_copier_struct copies_nodeclass)

interpretation list_copy: deep_copy_method StackitNodeClassList_DeepCopy copy_laws
  "view_struct as_list view_list" "foot_struct as_list foot_list"
  by unfold_locales
     (auto simp: StackitNodeClassList_DeepCopy_def view_struct_def intro!: deep_copier_struct copies_list)

lemma DeepCopyObject_copies:
  assumes "copy_laws C" "wf_heap h"
  shows "foot_struct as_nodeclass foot_nodeclass h p \<subseteq> {..<lim h} \<Longrightarrow>
      StackitNodeClass_DeepCopyObject C p h = (ob, h') \<Longrightarrow>
      (case ob of None \<Rightarrow> p = None
        | Some (ONodeClass c) \<Rightarrow> view_struct as_nodeclass view_nodeclass h' (Some c) = view_struct as_nodeclass view_nodeclass h p
        | Some (ONodeClassList c) \<Rightarrow> False)"
    and "foot_struct as_list foot_list h p \<subseteq> {..<lim h} \<Longrightarrow>
      StackitNodeClassList_DeepCopyObject C p h = (ob, h') \<Longrightarrow>
      (case ob of None \<Rightarrow> p = None
        | Some (ONodeClass c) \<Rightarrow> False
        | Some (ONodeClassList c) \<Rightarrow> view_struct as_list view_list h' (Some c) = view_struct as_list view_list h p)"
  using nodeclass_copy.isolated [OF assms, of p] list_copy.isolated [OF assms, of p]
  by (auto simp: StackitNodeClass_DeepCopyObject_def StackitNodeClassList_DeepCopyObject_def split: prod.splits option.splits)

text \<open>
  \<open>Hash\<close> in memory (stackitnodeclass.go): it takes a plain copy of the specification, clears the
  labels of the copy, and leaves the resource as it was.
\<close>

definition Hash :: "(nodeclass_spec \<Rightarrow> string) \<Rightarrow> go_StackitNodeClass \<Rightarrow> heap \<Rightarrow> string \<times> heap" where
  "Hash hs src h =
     (let hashableSpec = go_Spec src;
          hashableSpec = hashableSpec\<lparr>go_Labels := None\<rparr>
      in (hs (view_spec h hashableSpec), h))"

lemma Hash_value: "Hash hs src h = (nodeclass_hash hs (snd (view_nodeclass h src)), h)"
  by (simp add: Hash_def nodeclass_hash_def view_nodeclass_def view_spec_def view_meta_def view_status_def
      view_ptr_def nil_map_def Let_def)

section \<open>Properties\<close>

text \<open>
  C26 A deep copy of a StackitNodeClass shares nothing with it: it reads the same, field by field,
  including what is behind pointers, slices and maps; whatever is later written to memory that
  was there before the copy, the copy reads as the original did; and whatever is written
  anywhere but to the memory of the original, the copy's included, the original reads as it did.
\<close>

theorem DeepCopy_isolated:
  assumes "copy_laws C" "wf_heap h" "foot_struct as_nodeclass foot_nodeclass h p \<subseteq> {..<lim h}"
    and "StackitNodeClass_DeepCopy C p h = (q, h')"
  shows "(q = None \<longleftrightarrow> p = None)
     \<and> view_struct as_nodeclass view_nodeclass h' q = view_struct as_nodeclass view_nodeclass h p
     \<and> (\<forall>h2. (\<forall>a \<ge> lim h. cells h2 a = cells h' a) \<longrightarrow>
          view_struct as_nodeclass view_nodeclass h2 q = view_struct as_nodeclass view_nodeclass h p)
     \<and> (\<forall>h2. (\<forall>a \<in> foot_struct as_nodeclass foot_nodeclass h p. cells h2 a = cells h' a) \<longrightarrow>
          view_struct as_nodeclass view_nodeclass h2 p = view_struct as_nodeclass view_nodeclass h p)"
  using nodeclass_copy.isolated [OF assms] by simp

text \<open>Kubernetes' copies, written with the same shapes.\<close>

definition sample_copy_ops :: copy_ops where
  "sample_copy_ops =
     \<lparr>co_ObjectMeta = (\<lambda>m h.
        (let (d, h) = copy_new (go_DeletionTimestamp m) h; (a, h) = copy_map map_entries (go_Annotations m) h;
             (f, h) = copy_slice string_elems (go_Finalizers m) h
         in (m\<lparr>go_DeletionTimestamp := d, go_Annotations := a, go_Finalizers := f\<rparr>, h))),
      co_ListMeta = (\<lambda>m h. (let (r, h) = copy_new (go_RemainingItemCount m) h in (m\<lparr>go_RemainingItemCount := r\<rparr>, h))),
      co_Condition = (\<lambda>c. c)\<rparr>"

lemma sample_copy_ops_laws: "copy_laws sample_copy_ops"
  unfolding copy_laws_def
proof (intro conjI)
  show "deep_copier (co_ObjectMeta sample_copy_ops) view_meta foot_meta"
    by (rule deep_copier_fields [OF deep_copier_pair [OF deep_copier_ptr [of as_int] deep_copier_pair [OF copies_map copies_strings]],
          where parts = "\<lambda>x. (go_DeletionTimestamp x, go_Annotations x, go_Finalizers x)" and plain = "\<lambda>x. (go_Name x, go_Generation x)"
            and with_parts = "\<lambda>(d, a, f) x. x\<lparr>go_DeletionTimestamp := d, go_Annotations := a, go_Finalizers := f\<rparr>"
            and g = "\<lambda>(n, i) (d, a, f). (n, i, d, nil_map a, f)"])
       (auto simp: sample_copy_ops_def view_meta_def foot_meta_def fields_simps)
  show "deep_copier (co_ListMeta sample_copy_ops) view_list_meta foot_list_meta"
    by (rule deep_copier_fields [OF deep_copier_ptr [of as_int], where parts = go_RemainingItemCount and plain = go_ResourceVersion
          and with_parts = "\<lambda>r x. x\<lparr>go_RemainingItemCount := r\<rparr>" and g = "\<lambda>v r. (v, r)"])
       (auto simp: sample_copy_ops_def view_list_meta_def foot_list_meta_def)
qed (simp add: sample_copy_ops_def)

text \<open>A resource with one finalizer, whose array another slice could be written through.\<close>

definition sample_heap :: heap where
  "sample_heap =
     \<lparr>lim = 2, cells = (\<lambda>_. Zero)
        (0 := CStrings [''karpenter.k8s.stackit/termination''],
         1 := CNodeClass (zero_nodeclass\<lparr>go_ObjectMeta := (go_ObjectMeta zero_nodeclass)\<lparr>go_Name := ''default'',
                go_Finalizers := Some (Slice 0 0 1)\<rparr>\<rparr>))\<rparr>"

theorem DeepCopy_isolated_witness:
  "\<exists>q h'. StackitNodeClass_DeepCopy sample_copy_ops (Some 1) sample_heap = (Some q, h')
     \<and> nc_finalizers (snd (the (view_struct as_nodeclass view_nodeclass (set_cell 0 (CStrings []) h') (Some q))))
       = [''karpenter.k8s.stackit/termination'']"
proof -
  obtain q h' where r: "StackitNodeClass_DeepCopy sample_copy_ops (Some 1) sample_heap = (q, h')" by force
  have "wf_heap sample_heap" by (simp add: wf_heap_def sample_heap_def)
  moreover have "foot_struct as_nodeclass foot_nodeclass sample_heap (Some 1) \<subseteq> {..<lim sample_heap}"
    by (simp add: sample_heap_def foot_struct_def foot_nodeclass_def foot_meta_def foot_status_def foot_spec_def foot_ptr_def
        foot_slice_def foot_boot_volume_def foot_source_def foot_networking_def zero_nodeclass_def zero_spec_def)
  ultimately have c: "q \<noteq> None \<and> view_struct as_nodeclass view_nodeclass (set_cell 0 (CStrings []) h') q
      = view_struct as_nodeclass view_nodeclass sample_heap (Some 1)"
    using DeepCopy_isolated [OF sample_copy_ops_laws _ _ r] by (simp add: sample_heap_def)
  moreover have "nc_finalizers (snd (the (view_struct as_nodeclass view_nodeclass sample_heap (Some 1))))
      = [''karpenter.k8s.stackit/termination'']"
    by (simp add: view_struct_def view_nodeclass_def view_meta_def view_status_def view_slice_def sample_heap_def zero_nodeclass_def Let_def)
  ultimately show ?thesis using r by auto
qed

end
