(* ===== verification/LaunchRace.thy ===== *)
theory LaunchRace
  imports GarbageCollection
begin

text \<open>
  Garbage collection against the launches that go on beside it. \<open>Reconcile\<close> of the garbage
  collector is split at its listings and at its workers' items, and in between time passes,
  servers are launched, and the ids of launched servers arrive in their NodeClaims. A server must
  not be collected in the time between its launch and the arrival of its id: the grace period
  and the order of the listings are there for that. The theory says how much time they give.
\<close>

section \<open>The steps\<close>

text \<open>
  What the collector has in hand: the servers listed; or the servers listed, the provider ids of
  the NodeClaims and the Nodes, the items no worker has taken yet, the errors so far, and the time
  at which the NodeClaims were listed.
\<close>

datatype 'q gc_phase =
    GcIdle
  | GcListed "'q nodeclaim list"
  | GcWorking "'q nodeclaim list" "string list" "node list" "nat list" "go_error option list" int

text \<open>
  The world: the time, the cloud, the NodeClaims of the cluster, the launched servers whose ids
  are not in their NodeClaims yet, each with the name of the NodeClaim and the time of the
  launch, the ids given to servers so far, the collector and its count of successes, and, of each
  server it has deleted, whether it was a NodeClaim's.
\<close>

record ('q, 's) race =
  rc_now :: int
  rc_cloud :: 's
  rc_claims :: "'q nodeclaim list"
  rc_launched :: "(string \<times> string \<times> int) list"
  rc_used :: "string set"
  rc_gc :: "'q gc_phase"
  rc_count :: "64 word"
  rc_reaped :: "(string \<times> bool) list"

definition claim_ids :: "'q nodeclaim list \<Rightarrow> string list" where
  "claim_ids claims = filter (\<lambda>p. p \<noteq> []) (map claim_provider_id claims)"

text \<open>A server is a NodeClaim's when its id is in one or on its way into one.\<close>

definition named :: "('q, 's) race \<Rightarrow> string \<Rightarrow> bool" where
  "named w p \<longleftrightarrow> p \<in> set (claim_ids (rc_claims w)) \<or> p \<in> (fst \<circ> snd) ` set (rc_launched w)"

text \<open>
  Deadlines: the id of a launched server arrives within \<open>persist\<close>, and the last item is taken
  within \<open>reap\<close> of the listing of the NodeClaims. Time does not pass a deadline.
\<close>

definition in_time :: "int \<Rightarrow> int \<Rightarrow> ('q, 's) race \<Rightarrow> int \<Rightarrow> bool" where
  "in_time persist reap w t \<longleftrightarrow>
     (\<forall>(n, p, c) \<in> set (rc_launched w). t \<le> c + persist)
     \<and> (case rc_gc w of GcWorking claims ids nodes todo errs since \<Rightarrow> todo = [] \<or> t \<le> since + reap | _ \<Rightarrow> True)"

text \<open>
  The steps. \<open>alive s p c\<close> says that the cloud \<open>s\<close> has a server with provider id \<open>p\<close> created at \<open>c\<close>.
  The environment: time passes; a server with a new id is launched; the cloud changes by itself,
  without new servers; an id arrives, or is lost because its NodeClaim or the process is gone; a
  NodeClaim is created or goes. The collector: a listing of the cloud that succeeds or fails, the
  listings in the cluster, one item, the end. \<open>logged\<close> shows what an item deletes.
\<close>

inductive race_step ::
  "('q, 's) gc_env \<Rightarrow> ('s \<Rightarrow> string \<Rightarrow> int \<Rightarrow> bool) \<Rightarrow> int \<Rightarrow> int \<Rightarrow> ('q, 's) race \<Rightarrow> ('q, 's) race \<Rightarrow> bool"
  for E alive persist reap where
  tick: "rc_now w \<le> t \<Longrightarrow> in_time persist reap w t \<Longrightarrow> race_step E alive persist reap w (w\<lparr>rc_now := t\<rparr>)"
| launch: "p \<noteq> [] \<Longrightarrow> p \<notin> rc_used w \<Longrightarrow> 0 \<le> persist \<Longrightarrow>
    (\<And>q c. alive s q c \<Longrightarrow> alive (rc_cloud w) q c \<or> (q, c) = (p, rc_now w)) \<Longrightarrow>
    race_step E alive persist reap w
      (w\<lparr>rc_cloud := s, rc_used := insert p (rc_used w), rc_launched := (n, p, rc_now w) # rc_launched w\<rparr>)"
| cloud: "(\<And>q c. alive s q c \<Longrightarrow> alive (rc_cloud w) q c) \<Longrightarrow> race_step E alive persist reap w (w\<lparr>rc_cloud := s\<rparr>)"
| arrive: "rc_launched w = xs @ (claim_name k, p, c) # ys \<Longrightarrow> rc_claims w = as @ k # bs \<Longrightarrow> claim_provider_id k = [] \<Longrightarrow>
    race_step E alive persist reap w
      (w\<lparr>rc_launched := xs @ ys, rc_claims := as @ k\<lparr>claim_provider_id := p\<rparr> # bs\<rparr>)"
| lose: "rc_launched w = xs @ l # ys \<Longrightarrow> race_step E alive persist reap w (w\<lparr>rc_launched := xs @ ys\<rparr>)"
| claim: "claim_provider_id k = [] \<Longrightarrow> race_step E alive persist reap w (w\<lparr>rc_claims := k # rc_claims w\<rparr>)"
| unclaim: "rc_claims w = as @ k # bs \<Longrightarrow> race_step E alive persist reap w (w\<lparr>rc_claims := as @ bs\<rparr>)"
| list_cloud: "rc_gc w = GcIdle \<Longrightarrow> gc_list E (rc_cloud w) = Some (Inr listed, s) \<Longrightarrow>
    race_step E alive persist reap w
      (w\<lparr>rc_cloud := s, rc_gc := GcListed (filter (\<lambda>nc. is_zero_time (claim_deletion_timestamp nc)) listed)\<rparr>)"
| list_fails: "rc_gc w = GcIdle \<Longrightarrow> gc_list E (rc_cloud w) = Some (Inl err, s) \<Longrightarrow>
    race_step E alive persist reap w (w\<lparr>rc_cloud := s\<rparr>)"
| list_cluster: "rc_gc w = GcListed claims \<Longrightarrow> gc_list_nodes E (rc_cloud w) = Inr nodes \<Longrightarrow> 0 \<le> reap \<Longrightarrow>
    race_step E alive persist reap w
      (w\<lparr>rc_gc := GcWorking claims (claim_ids (rc_claims w)) nodes (gc_order E (length claims))
           (replicate (length claims) None) (rc_now w)\<rparr>)"
| cluster_fails: "rc_gc w = GcListed claims \<Longrightarrow> race_step E alive persist reap w (w\<lparr>rc_gc := GcIdle\<rparr>)"
| item: "rc_gc w = GcWorking claims ids nodes (i # todo) errs since \<Longrightarrow>
    gc_item (logged (E\<lparr>gc_clock := \<lambda>_. rc_now w\<rparr>)) ids nodes claims i (rc_cloud w, []) = (e, s, dels) \<Longrightarrow>
    race_step E alive persist reap w
      (w\<lparr>rc_cloud := s, rc_gc := GcWorking claims ids nodes todo (errs[i := e]) since,
         rc_reaped := rc_reaped w @ map (\<lambda>p. (p, named w p)) dels\<rparr>)"
| finish: "rc_gc w = GcWorking claims ids nodes [] errs since \<Longrightarrow>
    race_step E alive persist reap w
      (w\<lparr>rc_gc := GcIdle, rc_count := (if combine_errors errs = None then rc_count w + 1 else rc_count w)\<rparr>)"

text \<open>
  What is used of the cloud: what is listed is there, with its creation time, and neither
  listing nor deleting makes servers.
\<close>

definition serves :: "('q, 's) gc_env \<Rightarrow> ('s \<Rightarrow> string \<Rightarrow> int \<Rightarrow> bool) \<Rightarrow> bool" where
  "serves E alive \<longleftrightarrow>
     (\<forall>s listed s' k. gc_list E s = Some (Inr listed, s') \<longrightarrow> k \<in> set listed \<longrightarrow>
        alive s (claim_provider_id k) (claim_creation_timestamp k))
     \<and> (\<forall>s r s' p c. gc_list E s = Some (r, s') \<longrightarrow> alive s' p c \<longrightarrow> alive s p c)
     \<and> (\<forall>nc s p c. alive (snd (gc_delete E nc s)) p c \<longrightarrow> alive s p c)
     \<and> (\<forall>node s p c. alive (snd (gc_delete_node E node s)) p c \<longrightarrow> alive s p c)"

lemma serves_listed:
  "serves E alive \<Longrightarrow> gc_list E s = Some (Inr listed, s') \<Longrightarrow> k \<in> set listed \<Longrightarrow>
     alive s (claim_provider_id k) (claim_creation_timestamp k)"
  unfolding serves_def by blast

lemma serves_list: "serves E alive \<Longrightarrow> gc_list E s = Some (r, s') \<Longrightarrow> alive s' p c \<Longrightarrow> alive s p c"
  unfolding serves_def by blast

lemma serves_delete:
  "serves E alive \<Longrightarrow> alive (snd (gc_delete E nc s)) p c \<Longrightarrow> alive s p c"
  "serves E alive \<Longrightarrow> alive (snd (gc_delete_node E node s)) p c \<Longrightarrow> alive s p c"
  unfolding serves_def by blast+

section \<open>Without interference the steps are the reconcile\<close>

lemma gc_item_logged:
  "gc_item (logged E) ids nodes claims i (s, dels) = (e, s', dels') \<Longrightarrow> gc_item E ids nodes claims i s = (e, s')"
  by (auto simp: gc_item_def garbageCollect_def logged_def Let_def split: if_splits prod.splits option.splits)

lemma items_steps:
  assumes "gc_items E ids nodes claims todo errs s = (errs', s')" "gc_clock E = (\<lambda>_. rc_now w)"
    and "rc_cloud w = s" "rc_gc w = GcWorking claims ids nodes todo errs since"
  shows "\<exists>reaped. (race_step E alive persist reap)\<^sup>*\<^sup>* w
     (w\<lparr>rc_cloud := s', rc_gc := GcWorking claims ids nodes [] errs' since, rc_reaped := reaped\<rparr>)"
  using assms
proof (induction todo arbitrary: w errs s)
  case Nil
  then have "w\<lparr>rc_cloud := s', rc_gc := GcWorking claims ids nodes [] errs' since, rc_reaped := rc_reaped w\<rparr> = w" by simp
  then show ?case by (metis rtranclp.rtrancl_refl)
next
  case (Cons i todo)
  obtain e s1 dels where i: "gc_item (logged (E\<lparr>gc_clock := \<lambda>_. rc_now w\<rparr>)) ids nodes claims i (rc_cloud w, []) = (e, s1, dels)"
    by (rule prod_cases3)
  let ?w = "w\<lparr>rc_cloud := s1, rc_gc := GcWorking claims ids nodes todo (errs[i := e]) since,
      rc_reaped := rc_reaped w @ map (\<lambda>p. (p, named w p)) dels\<rparr>"
  have "race_step E alive persist reap w ?w" by (rule item [OF Cons.prems(4) i])
  moreover have "E\<lparr>gc_clock := \<lambda>_. rc_now w\<rparr> = E" using Cons.prems(2) by (cases E) simp
  then have "gc_item E ids nodes claims i s = (e, s1)" using gc_item_logged [OF i] Cons.prems(3) by simp
  then have "gc_items E ids nodes claims todo (errs[i := e]) s1 = (errs', s')" using Cons.prems(1) by simp
  from Cons.IH [OF this, of ?w] Cons.prems(2) obtain reaped where
    "(race_step E alive persist reap)\<^sup>*\<^sup>* ?w
       (?w\<lparr>rc_cloud := s', rc_gc := GcWorking claims ids nodes [] errs' since, rc_reaped := reaped\<rparr>)" by auto
  ultimately show ?case by (intro exI [of _ reaped]) (auto intro: converse_rtranclp_into_rtranclp)
qed

lemma reconcile_steps:
  assumes "gc_Reconcile E n s = Some (Inr r, n', s')" "gc_clock E = (\<lambda>_. rc_now w)" "gc_list_managed E = (\<lambda>_. Inr (rc_claims w))"
    and "rc_cloud w = s" "rc_gc w = GcIdle" "rc_count w = n" "0 \<le> reap"
  shows "\<exists>reaped. (race_step E alive persist reap)\<^sup>*\<^sup>* w (w\<lparr>rc_cloud := s', rc_count := n', rc_reaped := reaped\<rparr>)"
proof -
  let ?R = "(race_step E alive persist reap)\<^sup>*\<^sup>*"
  obtain listed s1 nodes where l: "gc_list E s = Some (Inr listed, s1)" "gc_list_nodes E s1 = Inr nodes"
    using assms(1,3) by (auto simp: gc_Reconcile_def Let_def split: option.splits sum.splits)
  let ?claims = "filter (\<lambda>nc. is_zero_time (claim_deletion_timestamp nc)) listed"
  let ?ids = "claim_ids (rc_claims w)"
  let ?todo = "gc_order E (length ?claims)" and ?errs = "replicate (length ?claims) None"
  obtain errs where items: "gc_items E ?ids nodes ?claims ?todo ?errs s1 = (errs, s')" "combine_errors errs = None" "n' = n + 1"
    using assms(1,3) l by (auto simp: gc_Reconcile_def Let_def claim_ids_def split: prod.splits option.splits)
  let ?w1 = "w\<lparr>rc_cloud := s1, rc_gc := GcListed ?claims\<rparr>"
  let ?w2 = "?w1\<lparr>rc_gc := GcWorking ?claims ?ids nodes ?todo ?errs (rc_now w)\<rparr>"
  have "race_step E alive persist reap w ?w1" using assms(4,5) l(1) by (intro list_cloud) simp_all
  moreover have "race_step E alive persist reap ?w1 ?w2"
    using list_cluster [of ?w1 ?claims E nodes reap alive persist] l(2) assms(7) by simp
  moreover obtain reaped where "?R ?w2 (?w2\<lparr>rc_cloud := s', rc_gc := GcWorking ?claims ?ids nodes [] errs (rc_now w), rc_reaped := reaped\<rparr>)"
    using items_steps [OF items(1), where w = ?w2 and since = "rc_now w" and alive = alive and persist = persist and reap = reap] assms(2)
    by auto
  moreover have "race_step E alive persist reap (?w2\<lparr>rc_cloud := s', rc_gc := GcWorking ?claims ?ids nodes [] errs (rc_now w), rc_reaped := reaped\<rparr>)
      (w\<lparr>rc_cloud := s', rc_count := n', rc_reaped := reaped\<rparr>)"
    using finish [of "?w2\<lparr>rc_cloud := s', rc_gc := GcWorking ?claims ?ids nodes [] errs (rc_now w), rc_reaped := reaped\<rparr>"]
      items(2,3) assms(5,6) by (cases w) simp
  ultimately show ?thesis
    by (meson converse_rtranclp_into_rtranclp rtranclp.rtrancl_into_rtrancl)
qed

section \<open>The invariant\<close>

text \<open>A launched server whose id is on its way: known, in time, and listed with its launch time.\<close>

definition launched_ok :: "('s \<Rightarrow> string \<Rightarrow> int \<Rightarrow> bool) \<Rightarrow> int \<Rightarrow> ('q, 's) race \<Rightarrow> bool" where
  "launched_ok alive persist w \<longleftrightarrow>
     (\<forall>(n, p, c) \<in> set (rc_launched w). p \<in> rc_used w \<and> rc_now w \<le> c + persist
        \<and> (\<forall>c'. alive (rc_cloud w) p c' \<longrightarrow> c' = c))"

definition known_ok :: "('s \<Rightarrow> string \<Rightarrow> int \<Rightarrow> bool) \<Rightarrow> ('q, 's) race \<Rightarrow> bool" where
  "known_ok alive w \<longleftrightarrow>
     (\<forall>p c. alive (rc_cloud w) p c \<longrightarrow> p \<in> rc_used w) \<and> set (claim_ids (rc_claims w)) \<subseteq> rc_used w"

text \<open>A listed server: if its id is on its way, it was launched at the time the listing says.\<close>

definition listed_ok :: "('q, 's) race \<Rightarrow> 'q nodeclaim \<Rightarrow> bool" where
  "listed_ok w k \<longleftrightarrow> claim_provider_id k \<in> rc_used w
     \<and> (\<forall>(n, p, c) \<in> set (rc_launched w). p = claim_provider_id k \<longrightarrow> claim_creation_timestamp k = c)"

text \<open>
  While the items are taken: an id that has arrived since the NodeClaims were listed belongs to a
  server that was launched at most \<open>persist\<close> before that listing.
\<close>

definition gc_ok :: "int \<Rightarrow> int \<Rightarrow> ('q, 's) race \<Rightarrow> bool" where
  "gc_ok persist reap w \<longleftrightarrow>
     (case rc_gc w of
        GcIdle \<Rightarrow> True
      | GcListed claims \<Rightarrow> \<forall>k \<in> set claims. listed_ok w k
      | GcWorking claims ids nodes todo errs since \<Rightarrow>
          since \<le> rc_now w \<and> (todo = [] \<or> rc_now w \<le> since + reap) \<and> set todo \<subseteq> {..<length claims}
          \<and> (\<forall>k \<in> set claims. listed_ok w k
               \<and> (claim_provider_id k \<notin> set ids \<longrightarrow> claim_provider_id k \<in> set (claim_ids (rc_claims w)) \<longrightarrow>
                    since \<le> claim_creation_timestamp k + persist)))"

definition race_inv :: "('s \<Rightarrow> string \<Rightarrow> int \<Rightarrow> bool) \<Rightarrow> int \<Rightarrow> int \<Rightarrow> ('q, 's) race \<Rightarrow> bool" where
  "race_inv alive persist reap w \<longleftrightarrow>
     launched_ok alive persist w \<and> known_ok alive w \<and> gc_ok persist reap w \<and> (\<forall>(p, b) \<in> set (rc_reaped w). \<not> b)"

lemma claim_ids_simps [simp]:
  "claim_ids [] = []" "claim_ids (xs @ ys) = claim_ids xs @ claim_ids ys"
  "claim_ids (k # ks) = (if claim_provider_id k = [] then claim_ids ks else claim_provider_id k # claim_ids ks)"
  by (simp_all add: claim_ids_def)

text \<open>A smaller cloud, fewer launches and fewer NodeClaims keep the invariant.\<close>

lemma race_inv_shrink:
  assumes "race_inv alive persist reap w" "\<And>p c. alive s p c \<Longrightarrow> alive (rc_cloud w) p c"
    and "set ls \<subseteq> set (rc_launched w)" "set (claim_ids ks) \<subseteq> set (claim_ids (rc_claims w))"
  shows "race_inv alive persist reap (w\<lparr>rc_cloud := s, rc_launched := ls, rc_claims := ks\<rparr>)"
proof -
  have known: "\<forall>p c. alive (rc_cloud w) p c \<longrightarrow> p \<in> rc_used w" "set (claim_ids (rc_claims w)) \<subseteq> rc_used w"
    using assms(1) by (auto simp: race_inv_def known_ok_def)
  have "launched_ok alive persist (w\<lparr>rc_cloud := s, rc_launched := ls, rc_claims := ks\<rparr>)"
    using assms unfolding race_inv_def launched_ok_def by fastforce
  moreover have "known_ok alive (w\<lparr>rc_cloud := s, rc_launched := ls, rc_claims := ks\<rparr>)"
    using known assms(2,4) unfolding known_ok_def by (simp, blast)
  moreover have l: "listed_ok w k \<Longrightarrow> listed_ok (w\<lparr>rc_cloud := s, rc_launched := ls, rc_claims := ks\<rparr>) k" for k
    using assms(3) by (auto simp: listed_ok_def)
  have "gc_ok persist reap (w\<lparr>rc_cloud := s, rc_launched := ls, rc_claims := ks\<rparr>)"
    using assms(1,4) l unfolding race_inv_def gc_ok_def by (fastforce split: gc_phase.splits)
  ultimately show ?thesis using assms(1) by (simp add: race_inv_def)
qed

lemma race_inv_cloud:
  assumes "race_inv alive persist reap w" "\<And>p c. alive s p c \<Longrightarrow> alive (rc_cloud w) p c"
  shows "race_inv alive persist reap (w\<lparr>rc_cloud := s\<rparr>)"
  using race_inv_shrink [OF assms subset_refl subset_refl] by simp

lemma tick_inv:
  assumes "race_inv alive persist reap w" "rc_now w \<le> t" "in_time persist reap w t"
  shows "race_inv alive persist reap (w\<lparr>rc_now := t\<rparr>)"
proof -
  have "launched_ok alive persist (w\<lparr>rc_now := t\<rparr>)"
    using assms by (auto simp: race_inv_def launched_ok_def in_time_def)
  moreover have "listed_ok (w\<lparr>rc_now := t\<rparr>) k = listed_ok w k" for k by (simp add: listed_ok_def)
  then have "gc_ok persist reap (w\<lparr>rc_now := t\<rparr>)"
    using assms by (auto simp: race_inv_def gc_ok_def in_time_def split: gc_phase.splits)
  ultimately show ?thesis using assms(1) by (simp add: race_inv_def known_ok_def)
qed

lemma launch_inv:
  assumes "race_inv alive persist reap w" "p \<noteq> []" "p \<notin> rc_used w" "0 \<le> persist"
    and "\<And>q c. alive s q c \<Longrightarrow> alive (rc_cloud w) q c \<or> (q, c) = (p, rc_now w)"
  shows "race_inv alive persist reap
     (w\<lparr>rc_cloud := s, rc_used := insert p (rc_used w), rc_launched := (n, p, rc_now w) # rc_launched w\<rparr>)"
    (is "race_inv alive persist reap ?w")
proof -
  have known: "alive (rc_cloud w) q c \<Longrightarrow> q \<in> rc_used w" for q c
    using assms(1) by (auto simp: race_inv_def known_ok_def)
  have "launched_ok alive persist ?w"
    unfolding launched_ok_def
  proof (clarsimp, intro conjI allI impI)
    show "0 \<le> persist" by (rule assms(4))
    show "c' = rc_now w" if "alive s p c'" for c' using assms(5) [OF that] known assms(3) by auto
    show "\<forall>(n, q, c) \<in> set (rc_launched w). (q = p \<or> q \<in> rc_used w) \<and> rc_now w \<le> c + persist \<and> (\<forall>c'. alive s q c' \<longrightarrow> c' = c)"
      using assms(1,3,5) unfolding race_inv_def launched_ok_def by fastforce
  qed
  moreover have "known_ok alive ?w" using assms(1,5) unfolding race_inv_def known_ok_def by fastforce
  moreover have l: "listed_ok w k \<Longrightarrow> listed_ok ?w k" for k using assms(3) by (auto simp: listed_ok_def)
  have "gc_ok persist reap ?w"
    using assms(1) l unfolding race_inv_def gc_ok_def by (fastforce split: gc_phase.splits)
  ultimately show ?thesis using assms(1) by (simp add: race_inv_def)
qed

lemma arrive_inv:
  assumes "race_inv alive persist reap w" "rc_launched w = xs @ (claim_name k, p, c) # ys"
    and "rc_claims w = as @ k # bs" "claim_provider_id k = []"
  shows "race_inv alive persist reap (w\<lparr>rc_launched := xs @ ys, rc_claims := as @ k\<lparr>claim_provider_id := p\<rparr> # bs\<rparr>)"
    (is "race_inv alive persist reap ?w")
proof -
  have p: "p \<in> rc_used w" "rc_now w \<le> c + persist" using assms(1,2) by (auto simp: race_inv_def launched_ok_def)
  have "launched_ok alive persist ?w" using assms(1,2) by (auto simp: race_inv_def launched_ok_def)
  moreover have "known_ok alive ?w" using assms(1,3,4) p(1) by (auto simp: race_inv_def known_ok_def)
  moreover have l: "listed_ok w k' \<Longrightarrow> listed_ok ?w k'" for k' using assms(2) by (auto simp: listed_ok_def)
  moreover have "listed_ok w k' \<Longrightarrow> claim_provider_id k' = p \<Longrightarrow> claim_creation_timestamp k' = c" for k'
    using assms(2) by (auto simp: listed_ok_def)
  then have "gc_ok persist reap ?w"
    using assms(1,3,4) p(2) l unfolding race_inv_def gc_ok_def
    by (auto split: gc_phase.splits if_splits)
  ultimately show ?thesis using assms(1) by (simp add: race_inv_def)
qed

text \<open>
  An item deletes at most its own server, which no NodeClaim had named when they were listed and
  which is older than the grace period. With the deadlines it is nobody's.
\<close>

lemma item_deletes:
  assumes "gc_item (logged (E\<lparr>gc_clock := \<lambda>_. now\<rparr>)) ids nodes claims i (s, []) = (e, s', dels)"
  shows "dels = [] \<or> dels = [claim_provider_id (claims ! i)] \<and> claim_provider_id (claims ! i) \<notin> set ids
     \<and> claim_creation_timestamp (claims ! i) + 2 * Minute \<le> now"
proof -
  have "snd (snd (gc_item (logged (E\<lparr>gc_clock := \<lambda>_. now\<rparr>)) ids nodes claims i (s, []))) = dels"
    unfolding assms by simp
  moreover have "snd (snd (gc_item (logged (E\<lparr>gc_clock := \<lambda>_. now\<rparr>)) ids nodes claims i (s, []))) =
     (if claim_provider_id (claims ! i) \<in> set ids \<or> claim_creation_timestamp (claims ! i) = 0
        \<or> now - claim_creation_timestamp (claims ! i) < gcGracePeriod
      then [] else [claim_provider_id (claims ! i)])"
    by (simp add: gc_item_def Let_def garbageCollect_log)
  ultimately show ?thesis by (auto simp: gcGracePeriod_def split: if_splits)
qed

lemma item_cloud:
  assumes "serves E alive" "gc_item (logged (E\<lparr>gc_clock := \<lambda>_. now\<rparr>)) ids nodes claims i (s, []) = (e, s', dels)" "alive s' p c"
  shows "alive s p c"
proof -
  have "snd (garbageCollect E nc nodes s) = snd (gc_delete E nc s)
      \<or> (\<exists>node. snd (garbageCollect E nc nodes s) = snd (gc_delete_node E node (snd (gc_delete E nc s))))" for nc
    by (auto simp: garbageCollect_def split: prod.splits option.splits) (metis snd_conv)+
  then have "alive (snd (garbageCollect E nc nodes s)) p c \<Longrightarrow> alive s p c" for nc
    using serves_delete [OF assms(1)] by metis
  moreover have "gc_item (E\<lparr>gc_clock := \<lambda>_. now\<rparr>) ids nodes claims i s = (e, s')" using gc_item_logged [OF assms(2)] .
  moreover have "garbageCollect (E\<lparr>gc_clock := \<lambda>_. now\<rparr>) nc nodes s = garbageCollect E nc nodes s" for nc
    by (auto simp: garbageCollect_def split: prod.split option.split)
  ultimately show ?thesis using assms(3) by (auto simp: gc_item_def Let_def split: if_splits) (metis snd_conv)
qed

lemma item_inv:
  assumes "race_inv alive persist reap w" "serves E alive" "persist + reap < 2 * Minute" "0 \<le> reap"
    and "rc_gc w = GcWorking claims ids nodes (i # todo) errs since"
    and "gc_item (logged (E\<lparr>gc_clock := \<lambda>_. rc_now w\<rparr>)) ids nodes claims i (rc_cloud w, []) = (e, s, dels)"
  shows "race_inv alive persist reap (w\<lparr>rc_cloud := s, rc_gc := GcWorking claims ids nodes todo errs' since,
     rc_reaped := rc_reaped w @ map (\<lambda>p. (p, named w p)) dels\<rparr>)"
    (is "race_inv alive persist reap ?w")
proof -
  let ?k = "claims ! i"
  have g: "rc_now w \<le> since + reap" "i < length claims" "listed_ok w ?k"
      "claim_provider_id ?k \<notin> set ids \<Longrightarrow> claim_provider_id ?k \<in> set (claim_ids (rc_claims w)) \<Longrightarrow>
        since \<le> claim_creation_timestamp ?k + persist"
    using assms(1,5) by (auto simp: race_inv_def gc_ok_def)
  have "\<not> named w p" if "p \<in> set dels" for p
  proof
    assume n: "named w p"
    have p: "p = claim_provider_id ?k" "p \<notin> set ids" "claim_creation_timestamp ?k + 2 * Minute \<le> rc_now w"
      using item_deletes [OF assms(6)] that by auto
    show False
    proof (cases "p \<in> set (claim_ids (rc_claims w))")
      case True
      then show False using g(1,4) p assms(3) by simp
    next
      case False
      then obtain n c where l: "(n, p, c) \<in> set (rc_launched w)" using n by (auto simp: named_def)
      then have "rc_now w \<le> c + persist" using assms(1) by (auto simp: race_inv_def launched_ok_def)
      moreover have "claim_creation_timestamp ?k = c" using g(3) l p(1) by (auto simp: listed_ok_def)
      ultimately show False using p(3) assms(3,4) by simp
    qed
  qed
  moreover have "race_inv alive persist reap (w\<lparr>rc_cloud := s\<rparr>)"
    by (rule race_inv_cloud [OF assms(1) item_cloud [OF assms(2,6)]])
  moreover have "listed_ok ?w k = listed_ok w k" "listed_ok (w\<lparr>rc_cloud := s\<rparr>) k = listed_ok w k" for k by (simp_all add: listed_ok_def)
  ultimately show ?thesis
    using assms(5) by (auto simp: race_inv_def launched_ok_def known_ok_def gc_ok_def)
qed

lemma alive_listed_ok:
  assumes "race_inv alive persist reap w" "alive (rc_cloud w) (claim_provider_id k) (claim_creation_timestamp k)"
  shows "listed_ok w k"
proof -
  have "claim_provider_id k \<in> rc_used w" using assms unfolding race_inv_def known_ok_def by blast
  moreover have "claim_creation_timestamp k = c" if "(n, claim_provider_id k, c) \<in> set (rc_launched w)" for n c
    using assms that unfolding race_inv_def launched_ok_def by fastforce
  ultimately show ?thesis by (auto simp: listed_ok_def)
qed

lemma list_cloud_inv:
  assumes "race_inv alive persist reap w" "serves E alive" "gc_list E (rc_cloud w) = Some (Inr listed, s)"
  shows "race_inv alive persist reap (w\<lparr>rc_cloud := s, rc_gc := GcListed (filter P listed)\<rparr>)"
proof -
  have "race_inv alive persist reap (w\<lparr>rc_cloud := s\<rparr>)"
    by (rule race_inv_cloud [OF assms(1) serves_list [OF assms(2,3)]])
  moreover have "alive (rc_cloud w) (claim_provider_id k) (claim_creation_timestamp k)" if "k \<in> set listed" for k
    by (rule serves_listed [OF assms(2,3) that])
  then have "listed_ok (w\<lparr>rc_cloud := s, rc_gc := GcListed (filter P listed)\<rparr>) k" if "k \<in> set listed" for k
    using alive_listed_ok [OF assms(1)] that by (simp add: listed_ok_def)
  moreover let ?w = "w\<lparr>rc_cloud := s, rc_gc := GcListed (filter P listed)\<rparr>"
  have "launched_ok alive persist ?w = launched_ok alive persist (w\<lparr>rc_cloud := s\<rparr>)"
      "known_ok alive ?w = known_ok alive (w\<lparr>rc_cloud := s\<rparr>)"
    by (simp_all add: launched_ok_def known_ok_def)
  ultimately show ?thesis by (simp add: race_inv_def gc_ok_def)
qed

lemma race_step_inv:
  assumes "serves E alive" "orders_all (gc_order E)" "persist + reap < 2 * Minute" "0 \<le> reap"
    and "race_step E alive persist reap w w'" "race_inv alive persist reap w"
  shows "race_inv alive persist reap w'"
  using assms(5)
proof cases
  case (tick t)
  then show ?thesis using tick_inv [OF assms(6)] by simp
next
  case (launch p s n)
  then show ?thesis using launch_inv [OF assms(6)] by simp
next
  case (cloud s)
  then show ?thesis using race_inv_cloud [OF assms(6)] by simp
next
  case (arrive xs k p c ys as bs)
  then show ?thesis using arrive_inv [OF assms(6)] by simp
next
  case (lose xs l ys)
  then show ?thesis using race_inv_shrink [OF assms(6), of "rc_cloud w" "xs @ ys" "rc_claims w"] by auto
next
  case (claim k)
  then show ?thesis using race_inv_shrink [OF assms(6), of "rc_cloud w" "rc_launched w" "k # rc_claims w"] by simp
next
  case (unclaim as k bs)
  then have "set (claim_ids (as @ bs)) \<subseteq> set (claim_ids (rc_claims w))" by auto
  with unclaim show ?thesis using race_inv_shrink [OF assms(6), of "rc_cloud w" "rc_launched w" "as @ bs"] by simp
next
  case (list_cloud listed s)
  then show ?thesis using list_cloud_inv [OF assms(6,1)] by simp
next
  case (list_fails err s)
  show ?thesis unfolding list_fails(1) by (rule race_inv_cloud [OF assms(6) serves_list [OF assms(1) list_fails(3)]])
next
  case (list_cluster claims nodes)
  have "set (gc_order E (length claims)) \<subseteq> {..<length claims}"
    using assms(2) by (metis orders_all_def atLeast_upt mset_eq_setD subset_refl)
  with list_cluster assms(6) show ?thesis
    by (auto simp: race_inv_def launched_ok_def known_ok_def gc_ok_def listed_ok_def)
next
  case (cluster_fails claims)
  then show ?thesis using assms(6) by (auto simp: race_inv_def launched_ok_def known_ok_def gc_ok_def)
next
  case (item claims ids nodes i todo errs since e s dels)
  then show ?thesis using item_inv [OF assms(6,1,3,4)] by simp
next
  case (finish claims ids nodes errs since)
  then show ?thesis using assms(6) by (auto simp: race_inv_def launched_ok_def known_ok_def gc_ok_def)
qed

text \<open>The world before anything has happened: no launch on its way, and the collector idle.\<close>

definition race_start :: "('s \<Rightarrow> string \<Rightarrow> int \<Rightarrow> bool) \<Rightarrow> ('q, 's) race \<Rightarrow> bool" where
  "race_start alive w \<longleftrightarrow>
     rc_launched w = [] \<and> rc_gc w = GcIdle \<and> rc_reaped w = []
     \<and> (\<forall>p c. alive (rc_cloud w) p c \<longrightarrow> p \<in> rc_used w) \<and> set (claim_ids (rc_claims w)) \<subseteq> rc_used w"

lemma race_start_inv: "race_start alive w \<Longrightarrow> race_inv alive persist reap w"
  by (simp add: race_start_def race_inv_def launched_ok_def known_ok_def gc_ok_def)

lemma race_spares:
  assumes "serves E alive" "orders_all (gc_order E)" "persist + reap < 2 * Minute" "0 \<le> reap"
    and "(race_step E alive persist reap)\<^sup>*\<^sup>* w w'" "race_start alive w"
  shows "(p, True) \<notin> set (rc_reaped w')"
proof -
  from assms(5) have "race_inv alive persist reap w'"
    by (induction rule: rtranclp_induct) (use assms(6) race_start_inv race_step_inv [OF assms(1-4)] in blast)+
  then show ?thesis by (auto simp: race_inv_def)
qed

section \<open>Properties\<close>

text \<open>
  C15 Garbage collection never deletes a server that is a NodeClaim's, launches on their way
  included, in any interleaving of launches, arrivals of ids, removals and the steps of the
  collector, as long as the time an id takes to arrive and the time from the listing of the
  NodeClaims to the last item are together less than the grace period of two minutes.
\<close>

theorem GC_spares_launches:
  assumes "serves E alive" "orders_all (gc_order E)" "persist + reap < 2 * Minute" "0 \<le> reap"
    and "(race_step E alive persist reap)\<^sup>*\<^sup>* w w'" "race_start alive w"
  shows "(p, True) \<notin> set (rc_reaped w')"
  by (rule race_spares [OF assms])

text \<open>A cloud that is the list of its servers.\<close>

definition race_gc :: "(rat, (string \<times> int) list) gc_env" where
  "race_gc =
     \<lparr>gc_list = (\<lambda>s. Some (Inr (map (\<lambda>(p, c). gc_claim p c) s), s)),
      gc_delete = (\<lambda>nc s. (Some (NodeClaimNotFoundError (Errorf [] [])), filter (\<lambda>(p, c). p \<noteq> claim_provider_id nc) s)),
      gc_list_managed = (\<lambda>s. Inr []), gc_list_nodes = (\<lambda>s. Inr []), gc_delete_node = (\<lambda>n s. (None, s)),
      gc_clock = (\<lambda>_. 0), gc_order = (\<lambda>n. [0..<n])\<rparr>"

definition race_alive :: "(string \<times> int) list \<Rightarrow> string \<Rightarrow> int \<Rightarrow> bool" where
  "race_alive s p c \<longleftrightarrow> (p, c) \<in> set s"

lemma race_gc_sel [simp]:
  "gc_list race_gc s = Some (Inr (map (\<lambda>(p, c). gc_claim p c) s), s)" "gc_list_nodes race_gc s = Inr []"
  "gc_order race_gc = (\<lambda>n. [0..<n])"
  by (simp_all add: race_gc_def)

lemma gc_claim_sel [simp]:
  "claim_provider_id (gc_claim p c) = p" "claim_creation_timestamp (gc_claim p c) = c"
  "is_zero_time (claim_deletion_timestamp (gc_claim p c))"
  by (simp_all add: gc_claim_def sample_claim_def is_zero_time_def)

lemma race_gc_serves: "serves race_gc race_alive" "orders_all (gc_order race_gc)"
  by (auto simp: serves_def race_alive_def race_gc_def orders_all_def gc_claim_sel)

definition race_world :: "int \<Rightarrow> (string \<times> int) list \<Rightarrow> string set \<Rightarrow> rat nodeclaim list \<Rightarrow> (rat, (string \<times> int) list) race" where
  "race_world now s used claims =
     \<lparr>rc_now = now, rc_cloud = s, rc_claims = claims, rc_launched = [], rc_used = used, rc_gc = GcIdle, rc_count = 0,
      rc_reaped = []\<rparr>"

text \<open>One server listed, two minutes old when its item is taken.\<close>

lemma race_item:
  assumes "rc_gc w = GcWorking [gc_claim p c] [] [] [0] [None] since" "rc_cloud w = [(p, c)]" "c \<noteq> 0" "c + 2 * Minute \<le> rc_now w"
  shows "race_step race_gc race_alive persist reap w
     (w\<lparr>rc_cloud := [], rc_gc := GcWorking [gc_claim p c] [] [] [] [None] since, rc_reaped := rc_reaped w @ [(p, named w p)]\<rparr>)"
proof -
  have "gc_item (logged (race_gc\<lparr>gc_clock := \<lambda>_. rc_now w\<rparr>)) [] [] [gc_claim p c] 0 (rc_cloud w, []) = (None, [], [p])"
    using assms(2-4) by (simp add: gc_item_def garbageCollect_def logged_def race_gc_def gcGracePeriod_def Let_def
        ignore_nodeclaim_not_found_def)
  from item [OF assms(1) this] show ?thesis by simp
qed

text \<open>
  C16 The two minutes are not more than that: whenever the two times can add up to the grace
  period, there is a run in which the collector deletes a server that a NodeClaim names. The
  age of a server is compared when its item is taken, against a list of NodeClaims that is as
  old as the items before it took, and nothing looks at the NodeClaims again. So a collection
  that is busy for two minutes reaches a server that was launched just before the listing.
\<close>

theorem GC_window:
  assumes "0 \<le> persist" "0 \<le> reap" "2 * Minute \<le> persist + reap"
  shows "\<exists>w'. (race_step race_gc race_alive persist reap)\<^sup>*\<^sup>* (race_world 1 [] {} [gc_claim [] 0]) w'
     \<and> (''stackit://s'', True) \<in> set (rc_reaped w')"
proof -
  let ?R = "race_step race_gc race_alive persist reap" and ?p = "''stackit://s''"
  let ?t = "1 + min persist (2 * Minute)"
  let ?w0 = "race_world 1 [] {} [gc_claim [] 0]"
  let ?w1 = "?w0\<lparr>rc_cloud := [(?p, 1)], rc_used := {?p}, rc_launched := [(claim_name (gc_claim [] 0), ?p, 1)]\<rparr>"
  let ?w2 = "?w1\<lparr>rc_now := ?t\<rparr>"
  let ?w3 = "?w2\<lparr>rc_gc := GcListed [gc_claim ?p 1]\<rparr>"
  let ?w4 = "?w3\<lparr>rc_gc := GcWorking [gc_claim ?p 1] [] [] [0] [None] ?t\<rparr>"
  let ?w5 = "?w4\<lparr>rc_launched := [], rc_claims := [(gc_claim [] 0)\<lparr>claim_provider_id := ?p\<rparr>]\<rparr>"
  let ?w6 = "?w5\<lparr>rc_now := 1 + 2 * Minute\<rparr>"
  let ?w7 = "?w6\<lparr>rc_cloud := [], rc_gc := GcWorking [gc_claim ?p 1] [] [] [] [None] ?t, rc_reaped := rc_reaped ?w6 @ [(?p, named ?w6 ?p)]\<rparr>"
  have t: "1 \<le> ?t" "?t \<le> 1 + persist" "?t \<le> 1 + 2 * Minute" "1 + 2 * Minute \<le> ?t + reap"
    using assms by (auto simp: Minute_def Second_def min_def)
  have "?R ?w0 ?w1"
    using launch [of ?p ?w0 persist race_alive "[(?p, 1)]" race_gc reap "claim_name (gc_claim [] 0)"] assms(1)
    by (simp add: race_world_def race_alive_def)
  moreover have "?R ?w1 ?w2"
    using t by (intro tick) (simp_all add: race_world_def in_time_def)
  moreover have "?R ?w2 ?w3"
    using list_cloud [of ?w2 race_gc "[gc_claim ?p 1]" "[(?p, 1)]" race_alive persist reap] by (simp add: race_world_def)
  moreover have "?R ?w3 ?w4"
    using list_cluster [of ?w3 "[gc_claim ?p 1]" race_gc "[]" reap race_alive persist] assms(2) by (simp add: race_world_def)
  moreover have "?R ?w4 ?w5"
    using arrive [of ?w4 "[]" "gc_claim [] 0" ?p 1 "[]" "[]" "[]" race_gc race_alive persist reap] by (simp add: race_world_def)
  moreover have "?R ?w5 ?w6" using t by (intro tick) (simp_all add: race_world_def in_time_def)
  moreover have "?R ?w6 ?w7" by (intro race_item) (simp_all add: race_world_def)
  moreover have "named ?w6 ?p" by (simp add: named_def)
  then have "(?p, True) \<in> set (rc_reaped ?w7)" by simp
  ultimately show ?thesis by (meson converse_rtranclp_into_rtranclp rtranclp.rtrancl_refl)
qed

theorem GC_window_witness:
  "\<exists>w'. (race_step race_gc race_alive Second (2 * Minute))\<^sup>*\<^sup>* (race_world 1 [] {} [gc_claim [] 0]) w'
     \<and> (''stackit://s'', True) \<in> set (rc_reaped w')"
  by (rule GC_window) (simp_all add: Second_def Minute_def)

theorem GC_spares_launches_witness:
  "\<exists>w'. (race_step race_gc race_alive (30 * Second) Minute)\<^sup>*\<^sup>* (race_world (1 + 2 * Minute) [(''stackit://s'', 1)] {''stackit://s''} []) w'
     \<and> rc_reaped w' = [(''stackit://s'', False)] \<and> (''stackit://s'', True) \<notin> set (rc_reaped w')"
proof -
  let ?R = "race_step race_gc race_alive (30 * Second) Minute" and ?p = "''stackit://s''"
  let ?w0 = "race_world (1 + 2 * Minute) [(?p, 1)] {?p} []"
  let ?w1 = "?w0\<lparr>rc_gc := GcListed [gc_claim ?p 1]\<rparr>"
  let ?w2 = "?w0\<lparr>rc_gc := GcWorking [gc_claim ?p 1] [] [] [0] [None] (1 + 2 * Minute)\<rparr>"
  let ?w3 = "?w2\<lparr>rc_cloud := [], rc_gc := GcWorking [gc_claim ?p 1] [] [] [] [None] (1 + 2 * Minute),
    rc_reaped := rc_reaped ?w2 @ [(?p, named ?w2 ?p)]\<rparr>"
  have "?R ?w0 ?w1"
    using list_cloud [of ?w0 race_gc "[gc_claim ?p 1]" "[(?p, 1)]" race_alive "30 * Second" Minute] by (simp add: race_world_def)
  moreover have "?R ?w1 ?w2"
    using list_cluster [of ?w1 "[gc_claim ?p 1]" race_gc "[]" Minute race_alive "30 * Second"]
    by (simp add: race_world_def Minute_def Second_def)
  moreover have "?R ?w2 ?w3" by (intro race_item) (simp_all add: race_world_def)
  ultimately have steps: "?R\<^sup>*\<^sup>* ?w0 ?w3" by (meson converse_rtranclp_into_rtranclp rtranclp.rtrancl_refl)
  have "race_start race_alive ?w0" by (simp add: race_start_def race_world_def race_alive_def)
  with GC_spares_launches [OF race_gc_serves _ _ steps] have "(?p, True) \<notin> set (rc_reaped ?w3)"
    by (simp add: Minute_def Second_def)
  moreover have "rc_reaped ?w3 = [(?p, False)]" by (simp add: race_world_def named_def)
  ultimately show ?thesis using steps by blast
qed

end
