(* ===== verification/NodeClassControllers.thy ===== *)
theory NodeClassControllers
  imports NodeClassStatus NodeClassHash NodeClassTermination
begin

text \<open>
  The three controllers of \<open>pkg/controllers/nodeclass\<close> on one StackitNodeClass. Each reads the
  object, decides, and sends a merge patch of what it changed; the object may have been patched
  by the others in between, so that a patch is computed from an old object and applied to a newer
  one. None of them asks the API for an optimistic lock. The theory shows that they need none:
  each owns a part of the object, and whatever the interleaving, the object ends as if they had
  run one after another, and then they are at rest.
\<close>

section \<open>What each controller wants of the object\<close>

datatype controller = StatusC | HashC | TerminationC

text \<open>The parts that no controller writes, and that all of them read.\<close>

definition same_base :: "nodeclass \<Rightarrow> nodeclass \<Rightarrow> bool" where
  "same_base a b \<longleftrightarrow> nc_name a = nc_name b \<and> nc_generation a = nc_generation b
     \<and> nc_deletion_timestamp a = nc_deletion_timestamp b \<and> nc_spec a = nc_spec b"

definition same_status :: "nodeclass \<Rightarrow> nodeclass \<Rightarrow> bool" where
  "same_status a b \<longleftrightarrow> nc_availability_zones a = nc_availability_zones b \<and> nc_conditions a = nc_conditions b"

definition same_annotations :: "nodeclass \<Rightarrow> nodeclass \<Rightarrow> bool" where
  "same_annotations a b \<longleftrightarrow> map_of (nc_annotations a) = map_of (nc_annotations b)"

definition same_finalizers :: "nodeclass \<Rightarrow> nodeclass \<Rightarrow> bool" where
  "same_finalizers a b \<longleftrightarrow> nc_finalizers a = nc_finalizers b"

lemma same_base_refl [simp]: "same_base a a" by (simp add: same_base_def)
lemma same_base_sym: "same_base a b \<Longrightarrow> same_base b a" by (simp add: same_base_def)
lemma same_base_trans: "same_base a b \<Longrightarrow> same_base b c \<Longrightarrow> same_base a c" by (simp add: same_base_def)

text \<open>
  The contract of a controller: \<open>target e\<close> is what it makes of an object, \<open>same\<close> compares the part
  it owns. What it wants of its part depends on the base and on the part alone, wanting is
  idempotent, and an object whose part is as wanted is left as it is.
\<close>

locale part_owner =
  fixes target :: "'e \<Rightarrow> nodeclass \<Rightarrow> nodeclass"
    and same :: "nodeclass \<Rightarrow> nodeclass \<Rightarrow> bool"
    and lawful :: "'e \<Rightarrow> bool"
  assumes same_refl: "same a a"
    and same_sym: "same a b \<Longrightarrow> same b a"
    and same_trans: "same a b \<Longrightarrow> same b c \<Longrightarrow> same a c"
    and target_base: "lawful e \<Longrightarrow> same_base (target e a) a"
    and target_again: "lawful e \<Longrightarrow> target e (target e a) = target e a"
    and target_local: "lawful e \<Longrightarrow> same_base a b \<Longrightarrow> same a b \<Longrightarrow> same (target e a) (target e b)"
    and target_only: "lawful e \<Longrightarrow> same (target e a) a \<Longrightarrow> target e a = a"
begin

text \<open>A part that has been written as wanted is at rest, and stays so when others write theirs.\<close>

lemma written_rests:
  assumes "lawful e" "same_base a old" "same a (target e old)"
  shows "target e a = a"
proof -
  have "same_base a (target e old)" using assms(2) target_base [OF assms(1)] same_base_sym same_base_trans by blast
  from target_local [OF assms(1) this assms(3)] have "same (target e a) (target e old)"
    by (simp add: target_again [OF assms(1)])
  then have "same (target e a) a" using assms(3) same_sym same_trans by blast
  then show ?thesis by (rule target_only [OF assms(1)])
qed

lemma rest_kept:
  assumes "lawful e" "target e a = a" "same_base b a" "same b a"
  shows "target e b = b"
  using written_rests [OF assms(1,3)] assms(2,4) by simp

text \<open>Between the start and the end a part is as it was, or as it is wanted.\<close>

definition on_the_way :: "'e \<Rightarrow> nodeclass \<Rightarrow> nodeclass \<Rightarrow> bool" where
  "on_the_way e start a \<longleftrightarrow> same_base a start \<and> (same a start \<or> same a (target e start))"

lemma way_start: "on_the_way e a a"
  by (simp add: on_the_way_def same_refl)

lemma way_kept:
  assumes "on_the_way e start a" "same_base b a" "same b a"
  shows "on_the_way e start b"
  using assms same_base_trans same_trans unfolding on_the_way_def by blast

lemma way_written:
  assumes "lawful e" "on_the_way e start old" "same_base a old" "same a (target e old)"
  shows "on_the_way e start a"
proof -
  have b: "same_base old start" using assms(2) by (simp add: on_the_way_def)
  have "same (target e old) (target e start)"
  proof (cases "same old start")
    case True
    then show ?thesis by (rule target_local [OF assms(1) b])
  next
    case False
    then have "same old (target e start)" using assms(2) by (simp add: on_the_way_def)
    moreover have "same_base old (target e start)"
      using b target_base [OF assms(1)] same_base_sym same_base_trans by blast
    ultimately show ?thesis using target_local [OF assms(1)] target_again [OF assms(1)] by metis
  qed
  then show ?thesis using assms(3,4) b same_base_trans same_trans unfolding on_the_way_def by blast
qed

lemma way_end:
  assumes "lawful e" "on_the_way e start a" "target e a = a"
  shows "same a (target e start)"
  using assms target_local same_trans unfolding on_the_way_def by metis

end

section \<open>The three of them\<close>

text \<open>What the setters of the condition library do not look at.\<close>

definition cond_local :: "(string \<Rightarrow> condition_status \<Rightarrow> string \<Rightarrow> cond_message \<Rightarrow> nodeclass \<Rightarrow> nodeclass) \<Rightarrow> bool" where
  "cond_local S \<longleftrightarrow> (\<forall>t st r m nc a f.
     S t st r m (nc\<lparr>nc_annotations := a, nc_finalizers := f\<rparr>) = (S t st r m nc)\<lparr>nc_annotations := a, nc_finalizers := f\<rparr>)"

lemma set_frame:
  assumes "cond_laws S"
  shows "nc_annotations (S t st r m nc) = nc_annotations nc" "nc_finalizers (S t st r m nc) = nc_finalizers nc"
proof -
  have "S t st r m nc = nc\<lparr>nc_conditions := nc_conditions (S t st r m nc)\<rparr>"
    using assms unfolding cond_laws_def claw_frame_def by blast
  then obtain cs where "S t st r m nc = nc\<lparr>nc_conditions := cs\<rparr>" by blast
  then show "nc_annotations (S t st r m nc) = nc_annotations nc" "nc_finalizers (S t st r m nc) = nc_finalizers nc" by simp_all
qed

lemma put_zones_frame [simp]:
  "nc_annotations (put_zones zs nc) = nc_annotations nc" "nc_finalizers (put_zones zs nc) = nc_finalizers nc"
  "put_zones zs (nc\<lparr>nc_annotations := a, nc_finalizers := f\<rparr>) = (put_zones zs nc)\<lparr>nc_annotations := a, nc_finalizers := f\<rparr>"
  by (simp_all add: put_zones_def split: option.split)

lemma reconciled_frame:
  assumes "cond_laws (ncc_set E)"
  shows "nc_annotations (reconciled_class E listed nc) = nc_annotations nc"
    "nc_finalizers (reconciled_class E listed nc) = nc_finalizers nc"
    "same_base (reconciled_class E listed nc) nc"
  by (simp_all add: reconciled_class_def same_base_def set_frame [OF assms] set_keeps [OF assms] split: prod.splits)

lemma reconciled_local:
  assumes "cond_local (ncc_set E)"
  shows "reconciled_class E listed (nc\<lparr>nc_annotations := a, nc_finalizers := f\<rparr>)
     = (reconciled_class E listed nc)\<lparr>nc_annotations := a, nc_finalizers := f\<rparr>"
proof -
  have "validation_verdict (nc\<lparr>nc_annotations := a, nc_finalizers := f\<rparr>) = validation_verdict nc"
    by (rule validation_verdict_keeps) simp
  with assms show ?thesis by (simp add: reconciled_class_def cond_local_def split: prod.splits)
qed

lemma same_but_metadata:
  assumes "same_base a b" "same_status a b"
  shows "a = b\<lparr>nc_annotations := nc_annotations a, nc_finalizers := nc_finalizers a\<rparr>"
  using assms by (cases a; cases b) (simp add: same_base_def same_status_def)

interpretation status_owner: part_owner
  "\<lambda>(E, listed). reconciled_class E listed" same_status
  "\<lambda>(E, listed). cond_laws (ncc_set E) \<and> cond_local (ncc_set E)"
proof (unfold_locales, goal_cases)
  case (4 e a)
  then show ?case using reconciled_frame(3) by (auto split: prod.splits)
next
  case (5 e a)
  then show ?case using reconciled_again by (auto split: prod.splits)
next
  case (6 e a b)
  obtain E listed where e: "e = (E, listed)" by force
  have l: "cond_local (ncc_set E)" using 6(1) e by simp
  have "reconciled_class E listed a
      = reconciled_class E listed (b\<lparr>nc_annotations := nc_annotations a, nc_finalizers := nc_finalizers a\<rparr>)"
    by (rule arg_cong [OF same_but_metadata [OF 6(2,3)]])
  also have "\<dots> = (reconciled_class E listed b)\<lparr>nc_annotations := nc_annotations a, nc_finalizers := nc_finalizers a\<rparr>"
    by (rule reconciled_local [OF l])
  finally have "same_status (reconciled_class E listed a) (reconciled_class E listed b)" by (simp add: same_status_def)
  then show ?case by (simp add: e)
next
  case (7 e a)
  obtain E listed where e: "e = (E, listed)" by force
  have "same_base (reconciled_class E listed a) a" "nc_annotations (reconciled_class E listed a) = nc_annotations a"
      "nc_finalizers (reconciled_class E listed a) = nc_finalizers a"
    using reconciled_frame 7(1) e by auto
  with same_but_metadata [of "reconciled_class E listed a" a] 7(2) show ?case by (simp add: e)
qed (auto simp: same_status_def)

interpretation hash_owner: part_owner stamped_class same_annotations "\<lambda>_. True"
proof (unfold_locales, goal_cases)
  case (4 e a)
  then show ?case by (simp add: stamped_class_def same_base_def)
next
  case (5 e a)
  then show ?case by (simp add: stamped_class_again)
next
  case (6 e a b)
  then show ?case
    by (simp add: same_annotations_def same_base_def stamped_class_def nodeclass_hash_def fun_eq_iff gomap_simps)
next
  case (7 e a)
  have "map_of (nc_annotations (stamped_class e a)) AnnotationStackitNodeClassHash = Some (nodeclass_hash e a)"
      "map_of (nc_annotations (stamped_class e a)) AnnotationStackitNodeClassHashVersion = Some StackitNodeClassHashVersion"
    using stamped_class_current [of e a] by (simp_all add: current_version_def)
  with 7 show ?case by (simp add: same_annotations_def stamped_class_def update_idem)
qed (auto simp: same_annotations_def)

interpretation finalizer_owner: part_owner "\<lambda>_ :: unit. add_finalizer TerminationFinalizer" same_finalizers "\<lambda>_. True"
  by unfold_locales
     (auto simp: same_finalizers_def same_base_def add_finalizer_def split: if_splits)

section \<open>Reading, and the patch asked for\<close>

text \<open>
  The clients of the three with the patch of the NodeClass recorded instead of sent; everything
  else a reconcile asks of the cluster happens.
\<close>

type_synonym class_patch = "nodeclass \<times> nodeclass"

definition recording_status :: "('cv, 'w, 'k) ncc_env \<Rightarrow> ('cv, 'w, class_patch option) ncc_env" where
  "recording_status E =
     \<lparr>ncc_api = ncc_api E, ncc_region = ncc_region E, ncc_cache_ops = ncc_cache_ops E, ncc_set = ncc_set E,
      ncc_patch_status = (\<lambda>old new p. (None, Some (old, new))), ncc_disableDryRun = ncc_disableDryRun E\<rparr>"

definition recording_hash :: "('q, 'k) hash_env \<Rightarrow> ('q, 'k \<times> class_patch option) hash_env" where
  "recording_hash E =
     \<lparr>hash_list = (\<lambda>nc (k, p). (let (r, k) = hash_list E nc k in (r, k, p))),
      hash_patch_claim = (\<lambda>old new (k, p). (let (e, k) = hash_patch_claim E old new k in (e, k, p))),
      hash_patch_class = (\<lambda>old new (k, p). (None, k, Some (old, new))),
      hash_spec = hash_spec E\<rparr>"

definition recording_termination :: "('q, 'k) termination_env \<Rightarrow> ('q, 'k \<times> class_patch option) termination_env" where
  "recording_termination E =
     \<lparr>te_list = (\<lambda>nc (k, p). (let (r, k) = te_list E nc k in (r, k, p))),
      te_patch = (\<lambda>old new (k, p). (None, k, Some (old, new))),
      te_event = (\<lambda>nc reason message n (k, p). (te_event E nc reason message n k, p))\<rparr>"

definition asked :: "nodeclass \<Rightarrow> nodeclass \<Rightarrow> class_patch option" where
  "asked old new = (if old = new then None else Some (old, new))"

lemma listing_keeps_kube: "ncs_kube (snd (listAvailabilityZones E st)) = ncs_kube st"
  by (simp add: listAvailabilityZones_def split: option.split prod.split sum.split)

lemma status_asks:
  assumes "cond_laws (ncc_set E)" "is_zero_time (nc_deletion_timestamp nc)"
    and "fst (listAvailabilityZones (recording_status E) st) = listed" "ncs_kube st = None"
    and "NodeClass_Reconcile (recording_status E) nc st = (r, nc', st')"
  shows "ncs_kube st' = asked nc (reconciled_class E listed nc)"
proof -
  let ?E = "recording_status E"
  obtain st1 where l: "listAvailabilityZones ?E st = (listed, st1)" using assms(3) by (metis prod.collapse)
  have k: "ncs_kube st1 = None" using listing_keeps_kube [of ?E st] l assms(4) by simp
  have E: "ncc_set ?E = ncc_set E" "ncc_patch_status ?E = (\<lambda>old new p. (None, Some (old, new)))"
      "reconciled_class ?E listed nc = reconciled_class E listed nc"
    by (simp_all add: recording_status_def reconciled_class_def)
  have "cond_laws (ncc_set ?E)" using assms(1) E(1) by simp
  from assms(5) [unfolded Reconcile_class [OF this assms(2) l]] k show ?thesis
    by (auto simp: E(2,3) asked_def Let_def split: option.splits if_splits)
qed

lemma hash_items_recorded: "snd (snd (hash_items (recording_hash E) nc cs (k, p))) = p"
proof (induction cs arbitrary: k)
  case (Cons c cs)
  have "snd (snd (hash_item (recording_hash E) nc c (k, p))) = p"
    by (simp add: hash_item_def recording_hash_def Let_def split: prod.split option.split)
  then obtain e k1 where "hash_item (recording_hash E) nc c (k, p) = (e, k1, p)" by (metis prod.collapse)
  with Cons.IH [of k1] show ?case by (simp add: split_beta Let_def)
qed simp

lemma update_recorded: "snd (snd (updateNodeClaimHash (recording_hash E) nc (k, p))) = p"
proof -
  obtain r k1 where l: "hash_list E nc k = (r, k1)" by force
  then have "hash_list (recording_hash E) nc (k, p) = (r, k1, p)" by (simp add: recording_hash_def)
  then show ?thesis
    using hash_items_recorded [of E nc _ k1 p] by (cases r) (simp_all add: updateNodeClaimHash_def split_beta Let_def)
qed

lemma hash_asks:
  assumes "Hash_Reconcile (recording_hash E) nc (k, None) = (Inr r, nc', k', p)"
  shows "p = asked nc (stamped_class (hash_spec E) nc)"
proof -
  obtain e k1 p1 where u: "updateNodeClaimHash (recording_hash E) nc (k, None) = (e, k1, p1)" by (rule prod_cases3)
  then have "p1 = None" using update_recorded [of E nc k None] by simp
  moreover have "hash_spec (recording_hash E) = hash_spec E"
      "hash_patch_class (recording_hash E) a b (k2, p2) = (None, k2, Some (a, b))" for a b k2 p2
    by (simp_all add: recording_hash_def)
  ultimately show ?thesis
    using assms u by (auto simp: Hash_Reconcile_alt asked_def Let_def split: if_splits option.splits)
qed

lemma termination_asks:
  assumes "is_zero_time (nc_deletion_timestamp nc)" "Termination_Reconcile (recording_termination E) nc (k, None) = (r, k', p)"
  shows "p = asked nc (add_finalizer TerminationFinalizer nc) \<and> k' = k"
proof -
  have "add_finalizer TerminationFinalizer nc = nc \<longleftrightarrow> TerminationFinalizer \<in> set (nc_finalizers nc)"
    by (cases nc) (simp add: add_finalizer_def)
  with assms show ?thesis
    by (auto simp: Termination_Reconcile_def Termination_check_def Termination_patch_def recording_termination_def asked_def
        split: if_splits)
qed

section \<open>The steps\<close>

text \<open>
  What the API documents of the two merge patches, the plain one (\<open>P\<close>) and that of the status
  (\<open>PS\<close>): what the sender did not change stays as it is on the server, key by key in the
  annotations, and what it changed is written, a list as a whole; the plain patch leaves the
  status alone and the other one everything else.
\<close>

definition merge_laws ::
  "(nodeclass \<Rightarrow> nodeclass \<Rightarrow> nodeclass \<Rightarrow> nodeclass) \<Rightarrow> (nodeclass \<Rightarrow> nodeclass \<Rightarrow> nodeclass \<Rightarrow> nodeclass) \<Rightarrow> bool" where
  "merge_laws P PS \<longleftrightarrow>
     (\<forall>old new cur.
        (same_base old new \<longrightarrow> same_base (P old new cur) cur) \<and> same_status (P old new cur) cur
        \<and> nc_finalizers (P old new cur) = (if nc_finalizers old = nc_finalizers new then nc_finalizers cur else nc_finalizers new)
        \<and> (\<forall>key. map_of (nc_annotations (P old new cur)) key =
             (if map_of (nc_annotations old) key = map_of (nc_annotations new) key
              then map_of (nc_annotations cur) key else map_of (nc_annotations new) key))
        \<and> same_base (PS old new cur) cur \<and> same_annotations (PS old new cur) cur \<and> same_finalizers (PS old new cur) cur
        \<and> nc_availability_zones (PS old new cur) =
             (if nc_availability_zones old = nc_availability_zones new then nc_availability_zones cur else nc_availability_zones new)
        \<and> nc_conditions (PS old new cur) =
             (if nc_conditions old = nc_conditions new then nc_conditions cur else nc_conditions new))"

text \<open>
  The object, what each controller has read and asked for and not yet been answered, which of
  them have finished a reconcile since the start, and what the reconciles use beside the object.
\<close>

record ('cv, 'w, 'k) class_world =
  cw_class :: nodeclass
  cw_pending :: "controller \<Rightarrow> class_patch option"
  cw_done :: "controller \<Rightarrow> bool"
  cw_cluster :: 'k
  cw_cache :: 'cv
  cw_api :: 'w

definition status_state :: "('cv, 'w, 'k) class_world \<Rightarrow> ('cv, 'w, class_patch option) ncc_state" where
  "status_state w = \<lparr>ncs_cache = cw_cache w, ncs_world = cw_api w, ncs_kube = None\<rparr>"

definition applied :: "(nodeclass \<Rightarrow> nodeclass \<Rightarrow> nodeclass \<Rightarrow> nodeclass) \<Rightarrow> (nodeclass \<Rightarrow> nodeclass \<Rightarrow> nodeclass \<Rightarrow> nodeclass)
   \<Rightarrow> controller \<Rightarrow> class_patch \<Rightarrow> nodeclass \<Rightarrow> nodeclass" where
  "applied P PS c p cur = (case p of (old, new) \<Rightarrow> (case c of StatusC \<Rightarrow> PS old new cur | _ \<Rightarrow> P old new cur))"

text \<open>The reconcile of a controller is over without a patch, or waits for the answer to one.\<close>

definition after_read :: "controller \<Rightarrow> class_patch option \<Rightarrow> ('cv, 'w, 'k) class_world \<Rightarrow> ('cv, 'w, 'k) class_world" where
  "after_read c p w = w\<lparr>cw_pending := (cw_pending w)(c := p), cw_done := (cw_done w)(c := cw_done w c \<or> p = None)\<rparr>"

text \<open>
  The steps, for runs in which asking for the region's zones, of the cache or of the API, gives
  \<open>listed\<close>: a controller that waits for no answer reads the object and runs; a patch is applied to
  what the object is by then, or refused.
\<close>

inductive class_step ::
  "('cv, 'w, 'j) ncc_env \<Rightarrow> ('q, 'k) hash_env \<Rightarrow> ('q, 'k) termination_env
   \<Rightarrow> (nodeclass \<Rightarrow> nodeclass \<Rightarrow> nodeclass \<Rightarrow> nodeclass) \<Rightarrow> (nodeclass \<Rightarrow> nodeclass \<Rightarrow> nodeclass \<Rightarrow> nodeclass)
   \<Rightarrow> string list result \<Rightarrow> ('cv, 'w, 'k) class_world \<Rightarrow> ('cv, 'w, 'k) class_world \<Rightarrow> bool"
  for SE HE TE P PS listed where
  read_status: "cw_pending w StatusC = None \<Longrightarrow> fst (listAvailabilityZones (recording_status SE) (status_state w)) = listed \<Longrightarrow>
    NodeClass_Reconcile (recording_status SE) (cw_class w) (status_state w) = (r, nc, st) \<Longrightarrow>
    class_step SE HE TE P PS listed w (after_read StatusC (ncs_kube st) (w\<lparr>cw_cache := ncs_cache st, cw_api := ncs_world st\<rparr>))"
| read_hash: "cw_pending w HashC = None \<Longrightarrow>
    Hash_Reconcile (recording_hash HE) (cw_class w) (cw_cluster w, None) = (Inr r, nc, k, p) \<Longrightarrow>
    class_step SE HE TE P PS listed w (after_read HashC p (w\<lparr>cw_cluster := k\<rparr>))"
| hash_fails: "cw_pending w HashC = None \<Longrightarrow>
    Hash_Reconcile (recording_hash HE) (cw_class w) (cw_cluster w, None) = (Inl err, nc, k, p) \<Longrightarrow>
    class_step SE HE TE P PS listed w (w\<lparr>cw_cluster := k\<rparr>)"
| read_termination: "cw_pending w TerminationC = None \<Longrightarrow>
    Termination_Reconcile (recording_termination TE) (cw_class w) (cw_cluster w, None) = (r, k, p) \<Longrightarrow>
    class_step SE HE TE P PS listed w (after_read TerminationC p (w\<lparr>cw_cluster := k\<rparr>))"
| patched: "cw_pending w c = Some p \<Longrightarrow>
    class_step SE HE TE P PS listed w
      (w\<lparr>cw_class := applied P PS c p (cw_class w), cw_pending := (cw_pending w)(c := None), cw_done := (cw_done w)(c := True)\<rparr>)"
| refused: "cw_pending w c = Some p \<Longrightarrow>
    class_step SE HE TE P PS listed w (w\<lparr>cw_pending := (cw_pending w)(c := None)\<rparr>)"

section \<open>The invariant\<close>

fun target_of :: "('cv, 'w, 'k) ncc_env \<Rightarrow> (nodeclass_spec \<Rightarrow> string) \<Rightarrow> string list result \<Rightarrow> controller \<Rightarrow> nodeclass \<Rightarrow> nodeclass" where
  "target_of SE hs listed StatusC = reconciled_class SE listed"
| "target_of SE hs listed HashC = stamped_class hs"
| "target_of SE hs listed TerminationC = add_finalizer TerminationFinalizer"

fun same_part :: "controller \<Rightarrow> nodeclass \<Rightarrow> nodeclass \<Rightarrow> bool" where
  "same_part StatusC = same_status"
| "same_part HashC = same_annotations"
| "same_part TerminationC = same_finalizers"

definition status_laws :: "('cv, 'w, 'k) ncc_env \<Rightarrow> bool" where
  "status_laws SE \<longleftrightarrow> cond_laws (ncc_set SE) \<and> cond_local (ncc_set SE)"

definition way :: "('cv, 'w, 'k) ncc_env \<Rightarrow> (nodeclass_spec \<Rightarrow> string) \<Rightarrow> string list result \<Rightarrow> controller \<Rightarrow> nodeclass \<Rightarrow> nodeclass \<Rightarrow> bool" where
  "way SE hs listed c start a \<longleftrightarrow> same_base a start \<and> (same_part c a start \<or> same_part c a (target_of SE hs listed c start))"

text \<open>The facts of the three interpretations, by controller.\<close>

lemma part_rests:
  assumes "status_laws SE" "same_base a old" "same_part c a (target_of SE hs listed c old)"
  shows "target_of SE hs listed c a = a"
  using status_owner.written_rests [where e = "(SE, listed)" and a = a and old = old]
    hash_owner.written_rests [where e = hs and a = a and old = old]
    finalizer_owner.written_rests [where a = a and old = old] assms
  by (cases c) (simp_all add: status_laws_def)

lemma part_rest_kept:
  assumes "status_laws SE" "target_of SE hs listed c a = a" "same_base b a" "same_part c b a"
  shows "target_of SE hs listed c b = b"
  using part_rests [OF assms(1,3), of c hs listed] assms(2,4) by simp

lemma part_way_kept:
  assumes "way SE hs listed c start a" "same_base b a" "same_part c b a"
  shows "way SE hs listed c start b"
  using status_owner.way_kept [where e = "(SE, listed)" and start = start and a = a and b = b] hash_owner.way_kept [where e = hs and start = start and a = a and b = b]
    finalizer_owner.way_kept [where e = "()" and start = start and a = a and b = b] assms
  by (cases c) (simp_all add: way_def status_owner.on_the_way_def hash_owner.on_the_way_def finalizer_owner.on_the_way_def)

lemma part_way_written:
  assumes "status_laws SE" "way SE hs listed c start old" "same_base a old" "same_part c a (target_of SE hs listed c old)"
  shows "way SE hs listed c start a"
  using status_owner.way_written [where e = "(SE, listed)" and start = start and old = old and a = a] hash_owner.way_written [where e = hs and start = start and old = old and a = a]
    finalizer_owner.way_written [where e = "()" and start = start and old = old and a = a] assms
  by (cases c) (simp_all add: status_laws_def way_def status_owner.on_the_way_def hash_owner.on_the_way_def finalizer_owner.on_the_way_def)

lemma part_way_end:
  assumes "status_laws SE" "way SE hs listed c start a" "target_of SE hs listed c a = a"
  shows "same_part c a (target_of SE hs listed c start)"
  using status_owner.way_end [where e = "(SE, listed)" and start = start and a = a] hash_owner.way_end [where e = hs and start = start and a = a]
    finalizer_owner.way_end [where e = "()" and start = start and a = a] assms
  by (cases c) (simp_all add: status_laws_def way_def status_owner.on_the_way_def hash_owner.on_the_way_def finalizer_owner.on_the_way_def)

lemma same_part_refl [simp]: "same_part c a a"
  by (cases c) (simp_all add: same_status_def same_annotations_def same_finalizers_def)

lemma same_part_sym: "same_part c a b \<Longrightarrow> same_part c b a"
  by (cases c) (simp_all add: same_status_def same_annotations_def same_finalizers_def)

lemma same_part_trans: "same_part c a b \<Longrightarrow> same_part c b d \<Longrightarrow> same_part c a d"
  by (cases c) (simp_all add: same_status_def same_annotations_def same_finalizers_def)

text \<open>A controller wants something of its own part only.\<close>

lemma target_keeps:
  assumes "status_laws SE"
  shows "same_base (target_of SE hs listed c a) a" "c' \<noteq> c \<Longrightarrow> same_part c' (target_of SE hs listed c a) a"
proof -
  have S: "cond_laws (ncc_set SE)" using assms by (simp add: status_laws_def)
  show "same_base (target_of SE hs listed c a) a"
    using reconciled_frame(3) [OF S] by (cases c) (simp_all add: stamped_class_def add_finalizer_def same_base_def)
  show "same_part c' (target_of SE hs listed c a) a" if "c' \<noteq> c"
    using that reconciled_frame(1,2) [OF S, of listed a]
    by (cases c; cases c') (simp_all add: stamped_class_def add_finalizer_def same_status_def same_annotations_def same_finalizers_def)
qed

text \<open>A patch that was computed from an object with the same part writes the part, and no other.\<close>

lemma applied_writes:
  assumes "merge_laws P PS" "status_laws SE" "same_part c cur old"
  shows "same_base (applied P PS c (old, target_of SE hs listed c old) cur) cur"
    "same_part c (applied P PS c (old, target_of SE hs listed c old) cur) (target_of SE hs listed c old)"
    "c' \<noteq> c \<Longrightarrow> same_part c' (applied P PS c (old, target_of SE hs listed c old) cur) cur"
proof -
  let ?new = "target_of SE hs listed c old"
  note m = assms(1) [unfolded merge_laws_def, rule_format, of old ?new cur]
  have k: "same_base old ?new" using target_keeps(1) [OF assms(2)] same_base_sym by blast
  have f: "c' \<noteq> c \<Longrightarrow> same_part c' old ?new" for c' using target_keeps(2) [OF assms(2)] same_part_sym by blast
  show "same_base (applied P PS c (old, ?new) cur) cur" using m k by (cases c) (simp_all add: applied_def)
  show "same_part c (applied P PS c (old, ?new) cur) ?new"
    using m assms(3) by (cases c) (auto simp: applied_def same_status_def same_annotations_def same_finalizers_def fun_eq_iff)
  show "same_part c' (applied P PS c (old, ?new) cur) cur" if "c' \<noteq> c"
    using m f [OF that] that
    by (cases c; cases c') (auto simp: applied_def same_status_def same_annotations_def same_finalizers_def fun_eq_iff)
qed

text \<open>A patch on its way was computed from an object whose base and whose part are still as they were.\<close>

definition pending_ok ::
  "('cv, 'w, 'k) ncc_env \<Rightarrow> (nodeclass_spec \<Rightarrow> string) \<Rightarrow> string list result \<Rightarrow> nodeclass \<Rightarrow> controller \<Rightarrow> class_patch option \<Rightarrow> bool" where
  "pending_ok SE hs listed cur c p \<longleftrightarrow>
     (case p of None \<Rightarrow> True
      | Some (old, new) \<Rightarrow> same_base cur old \<and> same_part c cur old \<and> new = target_of SE hs listed c old)"

lemma pending_ok_asked: "pending_ok SE hs listed cur c (asked cur (target_of SE hs listed c cur))"
  by (simp add: pending_ok_def asked_def)

lemma pending_ok_None [simp]: "pending_ok SE hs listed cur c None"
  by (simp add: pending_ok_def)

lemma pending_ok_kept:
  assumes "pending_ok SE hs listed cur c p" "same_base cur' cur" "same_part c cur' cur"
  shows "pending_ok SE hs listed cur' c p"
proof (cases p)
  case (Some q)
  obtain old new where "q = (old, new)" by force
  with Some assms show ?thesis using same_base_trans same_part_trans by (auto simp: pending_ok_def)
qed simp

definition class_inv ::
  "('cv, 'w, 'j) ncc_env \<Rightarrow> (nodeclass_spec \<Rightarrow> string) \<Rightarrow> string list result \<Rightarrow> nodeclass \<Rightarrow> ('cv, 'w, 'k) class_world \<Rightarrow> bool" where
  "class_inv SE hs listed start w \<longleftrightarrow>
     same_base (cw_class w) start
     \<and> (\<forall>c. way SE hs listed c start (cw_class w)
          \<and> pending_ok SE hs listed (cw_class w) c (cw_pending w c)
          \<and> (cw_done w c \<longrightarrow> cw_pending w c = None \<and> target_of SE hs listed c (cw_class w) = cw_class w))"

lemma read_inv:
  assumes "class_inv SE hs listed start w" "cw_pending w c = None" "p = asked (cw_class w) (target_of SE hs listed c (cw_class w))"
    and "cw_class w' = cw_class w" "cw_pending w' = cw_pending w" "cw_done w' = cw_done w"
  shows "class_inv SE hs listed start (after_read c p w')"
proof -
  have "pending_ok SE hs listed (cw_class w) c p" unfolding assms(3) by (rule pending_ok_asked)
  moreover have "p = None \<Longrightarrow> target_of SE hs listed c (cw_class w) = cw_class w"
    using assms(3) by (auto simp: asked_def split: if_splits)
  moreover have "cw_done w c \<Longrightarrow> p = None"
    using assms(1,3) by (auto simp: class_inv_def asked_def)
  ultimately show ?thesis using assms by (auto simp: class_inv_def after_read_def)
qed

lemma patched_inv:
  assumes "merge_laws P PS" "status_laws SE" "class_inv SE hs listed start w" "cw_pending w c = Some p"
  shows "class_inv SE hs listed start
     (w\<lparr>cw_class := applied P PS c p (cw_class w), cw_pending := (cw_pending w)(c := None), cw_done := (cw_done w)(c := True)\<rparr>)"
proof -
  obtain old new where p: "p = (old, new)" by force
  let ?cur = "cw_class w" and ?cur' = "applied P PS c p (cw_class w)"
  have i: "same_base ?cur start" "way SE hs listed c' start ?cur" "pending_ok SE hs listed ?cur c' (cw_pending w c')"
      "cw_done w c' \<Longrightarrow> cw_pending w c' = None \<and> target_of SE hs listed c' ?cur = ?cur" for c'
    using assms(3) unfolding class_inv_def by blast+
  have old: "same_base ?cur old" "same_part c ?cur old" "new = target_of SE hs listed c old"
    using i(3) [of c] assms(4) p by (simp_all add: pending_ok_def)
  note a = applied_writes [OF assms(1,2) old(2), where hs = hs and listed = listed, folded old(3) p]
  have b: "same_base ?cur' old" using a(1) old(1) same_base_trans by blast
  have rest: "target_of SE hs listed c ?cur' = ?cur'"
    using part_rests [OF assms(2) b] a(2) old(3) by simp
  have "way SE hs listed c start old"
    using part_way_kept [OF i(2) same_base_sym [OF old(1)] same_part_sym [OF old(2)]] .
  then have w: "way SE hs listed c start ?cur'" using part_way_written [OF assms(2) _ b] a(2) old(3) by simp
  have o: "way SE hs listed c' start ?cur'" "pending_ok SE hs listed ?cur' c' (cw_pending w c')"
      "cw_done w c' \<Longrightarrow> target_of SE hs listed c' ?cur' = ?cur'" if "c' \<noteq> c" for c'
    using part_way_kept [OF i(2) a(1) a(3) [OF that]] pending_ok_kept [OF i(3) a(1) a(3) [OF that]]
      part_rest_kept [OF assms(2) _ a(1) a(3) [OF that]] i(4) by blast+
  show ?thesis
    using rest w o i(4) same_base_trans [OF a(1) i(1)] by (auto simp: class_inv_def)
qed

lemma class_step_inv:
  assumes "merge_laws P PS" "status_laws SE" "is_zero_time (nc_deletion_timestamp start)"
    and "class_step SE HE TE P PS listed w w'" "class_inv SE (hash_spec HE) listed start w"
  shows "class_inv SE (hash_spec HE) listed start w'"
proof -
  have live: "is_zero_time (nc_deletion_timestamp (cw_class w))"
    using assms(3,5) by (simp add: class_inv_def same_base_def)
  have S: "cond_laws (ncc_set SE)" using assms(2) by (simp add: status_laws_def)
  show ?thesis using assms(4)
  proof cases
    case (read_status r nc st)
    have "ncs_kube st = asked (cw_class w) (target_of SE (hash_spec HE) listed StatusC (cw_class w))"
      using status_asks [OF S live read_status(3) _ read_status(4)] by (simp add: status_state_def)
    then show ?thesis unfolding read_status(1) by (rule read_inv [OF assms(5) read_status(2)]) simp_all
  next
    case (read_hash r nc k p)
    have "p = asked (cw_class w) (target_of SE (hash_spec HE) listed HashC (cw_class w))"
      using hash_asks [OF read_hash(3)] by simp
    then show ?thesis unfolding read_hash(1) by (rule read_inv [OF assms(5) read_hash(2)]) simp_all
  next
    case (hash_fails err nc k p)
    then show ?thesis using assms(5) by (simp add: class_inv_def)
  next
    case (read_termination r k p)
    have "p = asked (cw_class w) (target_of SE (hash_spec HE) listed TerminationC (cw_class w))"
      using termination_asks [OF live read_termination(3)] by simp
    then show ?thesis unfolding read_termination(1) by (rule read_inv [OF assms(5) read_termination(2)]) simp_all
  next
    case (patched c p)
    then show ?thesis using patched_inv [OF assms(1,2,5)] by simp
  next
    case (refused c p)
    then show ?thesis using assms(5) by (auto simp: class_inv_def)
  qed
qed

text \<open>When each has finished, nothing changes the object any more.\<close>

lemma done_stays:
  assumes "class_inv SE hs listed start w" "\<forall>c. cw_done w c" "class_step SE HE TE P PS listed w w'"
  shows "cw_class w' = cw_class w \<and> (\<forall>c. cw_done w' c)"
  using assms(3)
proof cases
  case (patched c p)
  then show ?thesis using assms(1,2) by (simp add: class_inv_def)
qed (use assms(2) in \<open>simp_all add: after_read_def\<close>)

lemma class_steps_inv:
  assumes "merge_laws P PS" "status_laws SE" "is_zero_time (nc_deletion_timestamp start)"
    and "(class_step SE HE TE P PS listed)\<^sup>*\<^sup>* w w'" "class_inv SE (hash_spec HE) listed start w"
  shows "class_inv SE (hash_spec HE) listed start w'"
  using assms(4,5) by (induction rule: rtranclp_induct) (use class_step_inv [OF assms(1-3)] in blast)+

lemma done_rests:
  assumes "merge_laws P PS" "status_laws SE" "is_zero_time (nc_deletion_timestamp start)"
    and "class_inv SE (hash_spec HE) listed start w" "\<forall>c. cw_done w c" "(class_step SE HE TE P PS listed)\<^sup>*\<^sup>* w w'"
  shows "cw_class w' = cw_class w"
proof -
  from assms(6) have "cw_class w' = cw_class w \<and> (\<forall>c. cw_done w' c)"
  proof (induction rule: rtranclp_induct)
    case (step w1 w2)
    have "class_inv SE (hash_spec HE) listed start w1" by (rule class_steps_inv [OF assms(1-3) step(1) assms(4)])
    from done_stays [OF this _ step(2)] step(3) show ?case by simp
  qed (simp add: assms(5))
  then show ?thesis ..
qed

section \<open>Properties\<close>

text \<open>
  C17 The three controllers of a NodeClass do not get in each other's way: whatever the
  interleaving of their reads and their patches, on objects however old, once each of them has
  finished a reconcile the object is the one the three would make of it one after another, with
  its finalizers and annotations kept and the controllers' added, the zones and conditions of the
  answer of STACKIT, and the specification as it was; and then no step changes it any more.
\<close>

theorem NodeClass_controllers_converge:
  assumes "merge_laws P PS" "status_laws SE" "is_zero_time (nc_deletion_timestamp (cw_class w))"
    and "\<forall>c. cw_pending w c = None \<and> \<not> cw_done w c"
    and "(class_step SE HE TE P PS listed)\<^sup>*\<^sup>* w w'" "\<forall>c. cw_done w' c"
  shows "nc_spec (cw_class w') = nc_spec (cw_class w)
     \<and> nc_finalizers (cw_class w') = nc_finalizers (add_finalizer TerminationFinalizer (cw_class w))
     \<and> map_of (nc_annotations (cw_class w')) = map_of (nc_annotations (stamped_class (hash_spec HE) (cw_class w)))
     \<and> nc_availability_zones (cw_class w') = nc_availability_zones (reconciled_class SE listed (cw_class w))
     \<and> nc_conditions (cw_class w') = nc_conditions (reconciled_class SE listed (cw_class w))
     \<and> (\<forall>w''. (class_step SE HE TE P PS listed)\<^sup>*\<^sup>* w' w'' \<longrightarrow> cw_class w'' = cw_class w')"
proof -
  let ?start = "cw_class w"
  have "class_inv SE (hash_spec HE) listed ?start w"
    using assms(4) by (simp add: class_inv_def way_def)
  note inv = class_steps_inv [OF assms(1-3,5) this]
  have "same_part c (cw_class w') (target_of SE (hash_spec HE) listed c ?start)" for c
    using part_way_end [OF assms(2)] inv assms(6) by (simp add: class_inv_def)
  from this [of StatusC] this [of HashC] this [of TerminationC]
  have "same_status (cw_class w') (reconciled_class SE listed ?start)"
      "same_annotations (cw_class w') (stamped_class (hash_spec HE) ?start)"
      "same_finalizers (cw_class w') (add_finalizer TerminationFinalizer ?start)"
    by simp_all
  moreover have "nc_spec (cw_class w') = nc_spec ?start" using inv by (simp add: class_inv_def same_base_def)
  moreover have "\<forall>w''. (class_step SE HE TE P PS listed)\<^sup>*\<^sup>* w' w'' \<longrightarrow> cw_class w'' = cw_class w'"
    using done_rests [OF assms(1-3) inv assms(6)] by blast
  ultimately show ?thesis unfolding same_status_def same_annotations_def same_finalizers_def by blast
qed

text \<open>Merge patches as the API documents them, for a concrete input.\<close>

definition merge_annotations :: "string gomap \<Rightarrow> string gomap \<Rightarrow> string gomap \<Rightarrow> string gomap" where
  "merge_annotations old new cur =
     (let changed = filter (\<lambda>k. map_of old k \<noteq> map_of new k) (keys old @ keys new)
      in fold (\<lambda>k m. case map_of new k of Some v \<Rightarrow> map_put k v m | None \<Rightarrow> AList.delete k m) changed cur)"

definition sample_patch :: "nodeclass \<Rightarrow> nodeclass \<Rightarrow> nodeclass \<Rightarrow> nodeclass" where
  "sample_patch old new cur = cur\<lparr>nc_annotations := merge_annotations (nc_annotations old) (nc_annotations new) (nc_annotations cur),
     nc_finalizers := (if nc_finalizers old = nc_finalizers new then nc_finalizers cur else nc_finalizers new)\<rparr>"

definition sample_patch_status :: "nodeclass \<Rightarrow> nodeclass \<Rightarrow> nodeclass \<Rightarrow> nodeclass" where
  "sample_patch_status old new cur = cur\<lparr>
     nc_availability_zones := (if nc_availability_zones old = nc_availability_zones new then nc_availability_zones cur else nc_availability_zones new),
     nc_conditions := (if nc_conditions old = nc_conditions new then nc_conditions cur else nc_conditions new)\<rparr>"

lemma merge_annotations_lookup:
  "map_of (merge_annotations old new cur) key = (if map_of old key = map_of new key then map_of cur key else map_of new key)"
proof -
  have "map_of (fold (\<lambda>k m. case map_of new k of Some v \<Rightarrow> map_put k v m | None \<Rightarrow> AList.delete k m) ks cur) key
      = (if key \<in> set ks then map_of new key else map_of cur key)" for ks
    by (induction ks arbitrary: cur) (auto simp: map_of_put delete_conv' split: option.split)
  moreover have "key \<in> set (keys old @ keys new)" if "map_of old key \<noteq> map_of new key"
    using that by (cases "map_of old key"; cases "map_of new key") auto
  ultimately show ?thesis by (auto simp: merge_annotations_def Let_def simp del: filter_append fold_append)
qed

lemma sample_merge_laws: "merge_laws sample_patch sample_patch_status"
  by (simp add: merge_laws_def sample_patch_def sample_patch_status_def merge_annotations_lookup
      same_base_def same_status_def same_annotations_def same_finalizers_def)

lemma simple_set_local: "cond_local simple_set"
  by (simp add: cond_local_def simple_set_def)

lemma init_set_local: "cond_local init_set"
proof -
  have "init_one u (nc\<lparr>nc_annotations := a, nc_finalizers := f\<rparr>) = (init_one u nc)\<lparr>nc_annotations := a, nc_finalizers := f\<rparr>"
    for u nc a f
  proof -
    have "current u (nc\<lparr>nc_annotations := a, nc_finalizers := f\<rparr>) = current u nc" by (simp add: current_def cond_of_def)
    then show ?thesis by (simp add: init_one_def simple_set_def)
  qed
  then show ?thesis by (simp add: cond_local_def init_set_def) (simp add: simple_set_def)
qed

text \<open>Patches that are on their way can be answered, in any order.\<close>

lemma answer_all:
  assumes "\<forall>c. cw_done w c \<or> cw_pending w c \<noteq> None"
  shows "\<exists>w'. (class_step SE HE TE P PS listed)\<^sup>*\<^sup>* w w' \<and> (\<forall>c \<in> set cs. cw_done w' c)
     \<and> (\<forall>c. cw_done w' c \<or> cw_pending w' c \<noteq> None) \<and> (\<forall>c. cw_done w c \<longrightarrow> cw_done w' c)"
  using assms
proof (induction cs arbitrary: w)
  case Nil
  then show ?case by auto
next
  case (Cons c cs)
  obtain w1 where w1: "(class_step SE HE TE P PS listed)\<^sup>*\<^sup>* w w1" "cw_done w1 c"
      "\<forall>c. cw_done w1 c \<or> cw_pending w1 c \<noteq> None" "\<forall>c. cw_done w c \<longrightarrow> cw_done w1 c"
  proof (cases "cw_pending w c")
    case None
    with Cons.prems have "cw_done w c" by blast
    with Cons.prems show thesis by (intro that [of w]) blast+
  next
    case (Some p)
    let ?w = "w\<lparr>cw_class := applied P PS c p (cw_class w), cw_pending := (cw_pending w)(c := None), cw_done := (cw_done w)(c := True)\<rparr>"
    have "class_step SE HE TE P PS listed w ?w" by (rule patched [OF Some])
    then show thesis using Cons.prems by (intro that [of ?w]) (simp_all del: not_None_eq)
  qed
  from Cons.IH [OF w1(3)] obtain w2 where w2: "(class_step SE HE TE P PS listed)\<^sup>*\<^sup>* w1 w2" "\<forall>c \<in> set cs. cw_done w2 c"
      "\<forall>c. cw_done w2 c \<or> cw_pending w2 c \<noteq> None" "\<forall>c. cw_done w1 c \<longrightarrow> cw_done w2 c" by blast
  with w1 show ?case by (intro exI [of _ w2]) auto
qed

definition sample_class_world :: "(string list timed, unit, rat nodeclaim list) class_world" where
  "sample_class_world =
     \<lparr>cw_class = sample_launch_class, cw_pending = (\<lambda>_. None), cw_done = (\<lambda>_. False), cw_cluster = [],
      cw_cache = ncs_cache sample_ncs, cw_api = ()\<rparr>"

definition sample_termination_env :: "(rat, rat nodeclaim list) termination_env" where
  "sample_termination_env =
     \<lparr>te_list = (\<lambda>nc k. (Inr k, k)), te_patch = (\<lambda>old new k. (None, k)), te_event = (\<lambda>nc reason message n k. k)\<rparr>"

theorem NodeClass_controllers_converge_witness:
  "\<exists>w'. (class_step sample_ncc sample_hash_env sample_termination_env sample_patch sample_patch_status
       (Inr [''eu01-1'', ''eu01-2'']))\<^sup>*\<^sup>* sample_class_world w'
     \<and> availability_zone_ids (cw_class w') = [''eu01-1'', ''eu01-2'']
     \<and> map_of (nc_annotations (cw_class w')) AnnotationStackitNodeClassHash = Some ''17''
     \<and> TerminationFinalizer \<in> set (nc_finalizers (cw_class w'))"
proof -
  let ?listed = "Inr [''eu01-1'', ''eu01-2''] :: string list result"
  let ?R = "class_step sample_ncc sample_hash_env sample_termination_env sample_patch sample_patch_status ?listed"
  let ?w0 = sample_class_world
  have listing: "fst (listAvailabilityZones (recording_status sample_ncc) (status_state ?w0)) = ?listed"
    by (simp add: listAvailabilityZones_def recording_status_def sample_ncc_def status_state_def sample_class_world_def
        sample_ncs_def timed_new)
  have start: "cw_class ?w0 = sample_launch_class" "\<forall>c. cw_pending ?w0 c = None \<and> \<not> cw_done ?w0 c"
    by (simp_all add: sample_class_world_def)
  obtain r1 nc1 st1 where r1: "NodeClass_Reconcile (recording_status sample_ncc) (cw_class ?w0) (status_state ?w0) = (r1, nc1, st1)"
    by (rule prod_cases3)
  let ?w1 = "after_read StatusC (ncs_kube st1) (?w0\<lparr>cw_cache := ncs_cache st1, cw_api := ncs_world st1\<rparr>)"
  have s1: "?R ?w0 ?w1" using start by (intro read_status [OF _ listing r1]) simp
  obtain r2 nc2 k2 p2 where r2: "Hash_Reconcile (recording_hash sample_hash_env) (cw_class ?w1) (cw_cluster ?w1, None) = (r2, nc2, k2, p2)"
    by (rule prod_cases4)
  have "fst (updateNodeClaimHash (recording_hash sample_hash_env) sample_launch_class ([], None)) = None"
    by (simp add: updateNodeClaimHash_def recording_hash_def combine_errors_def List.map_filter_def)
  then obtain r2' where ok: "r2 = Inr r2'"
    using r2 by (cases r2) (auto simp: after_read_def start sample_class_world_def Hash_Reconcile_alt split_beta Let_def recording_hash_def
        split: if_splits option.splits)
  let ?w2 = "after_read HashC p2 (?w1\<lparr>cw_cluster := k2\<rparr>)"
  have s2: "?R ?w1 ?w2" using start by (intro read_hash [OF _ r2 [unfolded ok]]) (simp add: after_read_def)
  obtain r3 k3 p3 where r3: "Termination_Reconcile (recording_termination sample_termination_env) (cw_class ?w2) (cw_cluster ?w2, None) = (r3, k3, p3)"
    by (rule prod_cases3)
  let ?w3 = "after_read TerminationC p3 (?w2\<lparr>cw_cluster := k3\<rparr>)"
  have s3: "?R ?w2 ?w3" using start by (intro read_termination [OF _ r3]) (simp add: after_read_def)
  have "cw_done ?w3 c \<or> cw_pending ?w3 c \<noteq> None" for c
    by (cases c) (simp_all add: after_read_def start del: not_None_eq)
  from answer_all [of ?w3 sample_ncc sample_hash_env sample_termination_env sample_patch sample_patch_status ?listed
      "[TerminationC, HashC, StatusC]"] this
  obtain w' where w': "?R\<^sup>*\<^sup>* ?w3 w'" "\<forall>c \<in> {TerminationC, HashC, StatusC}. cw_done w' c" by auto
  have all: "\<forall>c. cw_done w' c"
  proof
    show "cw_done w' c" for c using w'(2) by (cases c) simp_all
  qed
  have steps: "?R\<^sup>*\<^sup>* ?w0 w'" using s1 s2 s3 w'(1) by (meson converse_rtranclp_into_rtranclp)
  have "status_laws sample_ncc" "is_zero_time (nc_deletion_timestamp (cw_class ?w0))"
    using sample_ncc_sel(1) sample_live simple_set_local by (simp_all add: status_laws_def start sample_ncc_def)
  note c = NodeClass_controllers_converge [OF sample_merge_laws this start(2) steps all]
  have hs: "hash_spec sample_hash_env = (\<lambda>_. ''17'')" by (simp add: sample_hash_env_def)
  have "nc_availability_zones (cw_class w') = nc_availability_zones (reconciled_class sample_ncc ?listed sample_launch_class)"
      "map_of (nc_annotations (cw_class w')) = map_of (nc_annotations (stamped_class (\<lambda>_. ''17'') sample_launch_class))"
      "nc_finalizers (cw_class w') = nc_finalizers (add_finalizer TerminationFinalizer sample_launch_class)"
    using c unfolding start(1) hs by blast+
  moreover have "nc_availability_zones (reconciled_class sample_ncc ?listed sample_launch_class)
      = [\<lparr>az_id = ''eu01-1''\<rparr>, \<lparr>az_id = ''eu01-2''\<rparr>]"
    by (simp add: reconciled_class_def zones_verdict.simps set_keeps [OF sample_ncc_sel(1)] sample_wanted_zones put_zones_def
        split: prod.split)
  ultimately show ?thesis
    using steps stamped_class_current(2) [of "\<lambda>_. ''17''" sample_launch_class]
    by (intro exI [of _ w']) (auto simp: availability_zone_ids_def nodeclass_hash_def add_finalizer_def)
qed

end
