(* ===== verification/Controllers.thy ===== *)
theory Controllers
  imports Operator GarbageCollection Labeling NodeClassStatus NodeClassHash NodeClassTermination
begin

text \<open>
  \<open>pkg/controllers/controllers.go\<close>, the constructors and registrations of the controllers, and
  \<open>cmd/controller/main.go\<close>: how the operator's parts are put together, and the state they share.
  The manager that runs the controllers, the Kubernetes client, the condition library and the
  decorators of the cloud provider are Karpenter's and Kubernetes' own and are parameters.
\<close>

section \<open>The state of the running program\<close>

text \<open>
  The machine types, the prices, the record of what could not be launched, the cached servers,
  the cached zones, the garbage collector's count; and around the program the time, STACKIT and
  the Kubernetes cluster.
\<close>

record ('c, 'ct, 'co, 'cd, 'ci, 'v, 'm, 'w, 'k) system =
  sy_types :: "('ct, 'co, 'cd, 'm) itp_state"
  sy_prices :: prices
  sy_uo :: "'c unavailable_offerings"
  sy_instances :: 'ci
  sy_validation :: 'v
  sy_count :: "64 word"
  sy_now :: int
  sy_world :: 'w
  sy_kube :: 'k

text \<open>The parts that the providers and the controllers work on.\<close>

definition instances_part ::
  "('c, 'ct, 'co, 'cd, 'ci, 'v, 'm, 'w, 'k) system \<Rightarrow> ('c, 'ci, 'w) ip_state" where
  "instances_part s = \<lparr>ips_uo = sy_uo s, ips_cache = sy_instances s, ips_world = sy_world s\<rparr>"

definition put_instances ::
  "('c, 'ci, 'w) ip_state \<Rightarrow> ('c, 'ct, 'co, 'cd, 'ci, 'v, 'm, 'w, 'k) system
   \<Rightarrow> ('c, 'ct, 'co, 'cd, 'ci, 'v, 'm, 'w, 'k) system" where
  "put_instances a s = s\<lparr>sy_uo := ips_uo a, sy_instances := ips_cache a, sy_world := ips_world a\<rparr>"

definition zones_part :: "('c, 'ct, 'co, 'cd, 'ci, 'v, 'm, 'w, 'k) system \<Rightarrow> ('v, 'w, 'k) ncc_state" where
  "zones_part s = \<lparr>ncs_cache = sy_validation s, ncs_world = sy_world s, ncs_kube = sy_kube s\<rparr>"

definition put_zones_part ::
  "('v, 'w, 'k) ncc_state \<Rightarrow> ('c, 'ct, 'co, 'cd, 'ci, 'v, 'm, 'w, 'k) system
   \<Rightarrow> ('c, 'ct, 'co, 'cd, 'ci, 'v, 'm, 'w, 'k) system" where
  "put_zones_part a s = s\<lparr>sy_validation := ncs_cache a, sy_world := ncs_world a, sy_kube := ncs_kube a\<rparr>"

section \<open>What the controllers are built from\<close>

text \<open>
  The Kubernetes client and what belongs to it: reading NodeClasses, NodeClaims, NodePools and
  Nodes, patching and deleting, events, and the condition library.
\<close>

record ('q, 'k) kube =
  kb_get_nodeclass :: "string \<Rightarrow> 'k \<Rightarrow> nodeclass result"
  kb_get_nodepool :: "string \<Rightarrow> 'k \<Rightarrow> nodepool result"
  kb_list_managed :: "'k \<Rightarrow> 'q nodeclaim list result"
  kb_list_for :: "nodeclass \<Rightarrow> 'k \<Rightarrow> 'q nodeclaim list result \<times> 'k"
  kb_list_nodes :: "'k \<Rightarrow> node list result"
  kb_delete_node :: "node \<Rightarrow> 'k \<Rightarrow> go_error option \<times> 'k"
  kb_patch_claim :: "'q nodeclaim \<Rightarrow> 'q nodeclaim \<Rightarrow> 'k \<Rightarrow> go_error option \<times> 'k"
  kb_patch_class :: "nodeclass \<Rightarrow> nodeclass \<Rightarrow> 'k \<Rightarrow> go_error option \<times> 'k"
  kb_patch_status :: "nodeclass \<Rightarrow> nodeclass \<Rightarrow> 'k \<Rightarrow> go_error option \<times> 'k"
  kb_publish :: "'q event \<Rightarrow> 'k \<Rightarrow> 'k"
  kb_eventf :: "nodeclass \<Rightarrow> string \<Rightarrow> string \<Rightarrow> nat \<Rightarrow> 'k \<Rightarrow> 'k"
  kb_set_condition :: "string \<Rightarrow> condition_status \<Rightarrow> string \<Rightarrow> cond_message \<Rightarrow> nodeclass \<Rightarrow> nodeclass"
  kb_ready :: "nodeclass \<Rightarrow> condition"
  kb_text :: "cond_message \<Rightarrow> string"
  kb_hash :: "nodeclass_spec \<Rightarrow> string"
  kb_allocatable :: "'q instance_type \<Rightarrow> 'q resource_list"

text \<open>\<open>New\<close> (cloudprovider.go), with the cluster name of the context's options.\<close>

definition cp_New ::
  "('c, 'ct, 'co, 'cd, 'ci, 'v, 'q, 'm, 'w) operator \<Rightarrow> ('q, 'k) kube \<Rightarrow> options
   \<Rightarrow> ('q, ('c, 'ct, 'co, 'cd, 'ci, 'v, 'm, 'w, 'k) system) cp_env" where
  "cp_New op K opts =
     \<lparr>cpe_get_nodeclass = (\<lambda>name s. kb_get_nodeclass K name (sy_kube s)),
      cpe_get_nodepool = (\<lambda>name s. kb_get_nodepool K name (sy_kube s)),
      cpe_publish = (\<lambda>ev s. s\<lparr>sy_kube := kb_publish K ev (sy_kube s)\<rparr>),
      cpe_region = opt_Region opts,
      cpe_types = default_type_provider (op_types_env op) (\<lambda>s. Some (Price (sy_prices s))) sy_uo sy_types
        (\<lambda>st s. s\<lparr>sy_types := st\<rparr>),
      cpe_instances = lift_provider instances_part put_instances (default_provider (op_instances_env op)),
      cpe_clusterName = opt_ClusterName opts, cpe_ready = kb_ready K, cpe_text = kb_text K, cpe_hash = kb_hash K,
      cpe_quantity = ip_quantity (op_instances_env op), cpe_allocatable = kb_allocatable K\<rparr>"

text \<open>The interface \<open>CloudProvider\<close>, as far as the controllers of this program use it.\<close>

record ('q, 's) cloud_interface =
  cl_List :: "'s \<Rightarrow> ('q nodeclaim list result \<times> 's) option"
  cl_Delete :: "'q nodeclaim \<Rightarrow> 's \<Rightarrow> go_error option \<times> 's"

definition cloud_of :: "('q, 's) cp_env \<Rightarrow> ('q, 's) cloud_interface" where
  "cloud_of CE = \<lparr>cl_List = cp_List CE, cl_Delete = cp_Delete CE\<rparr>"

section \<open>The constructors\<close>

definition nodeclass_NewController ::
  "('q, 'k) kube \<Rightarrow> 'w api \<Rightarrow> string \<Rightarrow> ('v, string list) cache_ops \<Rightarrow> bool \<Rightarrow> ('v, 'w, 'k) ncc_env" where
  "nodeclass_NewController K stackitClient region validationCache disableDryRun =
     \<lparr>ncc_api = stackitClient, ncc_region = region, ncc_cache_ops = validationCache, ncc_set = kb_set_condition K,
      ncc_patch_status = kb_patch_status K, ncc_disableDryRun = disableDryRun\<rparr>"

definition hash_NewController :: "('q, 'k) kube \<Rightarrow> ('q, 'k) hash_env" where
  "hash_NewController K =
     \<lparr>hash_list = kb_list_for K, hash_patch_claim = kb_patch_claim K, hash_patch_class = kb_patch_class K,
      hash_spec = kb_hash K\<rparr>"

definition termination_NewController :: "('q, 'k) kube \<Rightarrow> ('q, 'k) termination_env" where
  "termination_NewController K = \<lparr>te_list = kb_list_for K, te_patch = kb_patch_class K, te_event = kb_eventf K\<rparr>"

text \<open>\<open>now\<close> is the clock, and \<open>order\<close> the order in which the pool of workers takes the items.\<close>

definition gc_NewController ::
  "('q, 'k) kube \<Rightarrow> (nat \<Rightarrow> nat list) \<Rightarrow> int \<Rightarrow> ('q, ('c, 'ct, 'co, 'cd, 'ci, 'v, 'm, 'w, 'k) system) cloud_interface
   \<Rightarrow> ('q, ('c, 'ct, 'co, 'cd, 'ci, 'v, 'm, 'w, 'k) system) gc_env" where
  "gc_NewController K order now cloudProvider =
     \<lparr>gc_list = cl_List cloudProvider, gc_delete = cl_Delete cloudProvider,
      gc_list_managed = (\<lambda>s. kb_list_managed K (sy_kube s)), gc_list_nodes = (\<lambda>s. kb_list_nodes K (sy_kube s)),
      gc_delete_node = (\<lambda>node. on_part sy_kube (\<lambda>k s. s\<lparr>sy_kube := k\<rparr>) (kb_delete_node K node)),
      gc_clock = (\<lambda>_. now), gc_order = order\<rparr>"

definition labeling_NewController ::
  "('q, 'k) kube \<Rightarrow> ('q, ('c, 'ct, 'co, 'cd, 'ci, 'v, 'm, 'w, 'k) system) instance_provider \<Rightarrow> string
   \<Rightarrow> ('q, ('c, 'ct, 'co, 'cd, 'ci, 'v, 'm, 'w, 'k) system) labeling_env" where
  "labeling_NewController K instanceProvider clusterName =
     \<lparr>lab_get_nodeclass = (\<lambda>name s. kb_get_nodeclass K name (sy_kube s)), lab_instances = instanceProvider,
      lab_clusterName = clusterName\<rparr>"

section \<open>The registrations\<close>

text \<open>
  What \<open>Register\<close> tells the manager: the name, what is watched, the number of reconciles at a time
  where it is set, and whether a rate limiter is.
\<close>

datatype source = SingletonSource | NodeClassSource | NodeClaimSource

record registration =
  reg_name :: string
  reg_source :: source
  reg_max :: "nat option"
  reg_limited :: bool

definition Status_Register :: registration where
  "Status_Register = \<lparr>reg_name = ''nodeclass.status'', reg_source = NodeClassSource, reg_max = Some 10, reg_limited = True\<rparr>"

definition Hash_Register :: registration where
  "Hash_Register = \<lparr>reg_name = ''nodeclass.hash'', reg_source = NodeClassSource, reg_max = Some 10, reg_limited = True\<rparr>"

definition Termination_Register :: registration where
  "Termination_Register =
     \<lparr>reg_name = ''nodeclass.termination'', reg_source = NodeClassSource, reg_max = Some 10, reg_limited = True\<rparr>"

definition GC_Register :: registration where
  "GC_Register =
     \<lparr>reg_name = ''instance.garbagecollection'', reg_source = SingletonSource, reg_max = None, reg_limited = False\<rparr>"

definition Labeling_Register :: registration where
  "Labeling_Register = \<lparr>reg_name = ''nodeclaim.labeling'', reg_source = NodeClaimSource, reg_max = Some 10, reg_limited = True\<rparr>"

definition InstanceType_Register :: registration where
  "InstanceType_Register =
     \<lparr>reg_name = ''providers.instancetype'', reg_source = SingletonSource, reg_max = None, reg_limited = False\<rparr>"

definition Pricing_Register :: registration where
  "Pricing_Register = \<lparr>reg_name = ''providers.pricing'', reg_source = SingletonSource, reg_max = None, reg_limited = False\<rparr>"

section \<open>The controllers\<close>

text \<open>A request of the manager, and a controller: its registration, its filter, its reconcile.\<close>

datatype 'q request = RunSingleton | ForNodeClass nodeclass | ForNodeClaim "'q nodeclaim"

record ('q, 's) kube_controller =
  ct_registration :: registration
  ct_filter :: "'q request \<Rightarrow> bool"
  ct_reconcile :: "'q request \<Rightarrow> 's \<Rightarrow> (reconciled \<times> 's) option"

fun of_source :: "source \<Rightarrow> 'q request \<Rightarrow> bool" where
  "of_source SingletonSource RunSingleton \<longleftrightarrow> True"
| "of_source NodeClassSource (ForNodeClass _) \<longleftrightarrow> True"
| "of_source NodeClaimSource (ForNodeClaim _) \<longleftrightarrow> True"
| "of_source _ _ \<longleftrightarrow> False"

definition handles :: "('q, 's) kube_controller \<Rightarrow> 'q request \<Rightarrow> bool" where
  "handles c r \<longleftrightarrow> of_source (reg_source (ct_registration c)) r \<and> ct_filter c r"

text \<open>The reconciles on the program's state. A request that is not of its source does not reach a controller.\<close>

fun status_run ::
  "('v, 'w, 'k) ncc_env \<Rightarrow> 'q request \<Rightarrow> ('c, 'ct, 'co, 'cd, 'ci, 'v, 'm, 'w, 'k) system
   \<Rightarrow> (reconciled \<times> ('c, 'ct, 'co, 'cd, 'ci, 'v, 'm, 'w, 'k) system) option" where
  "status_run E (ForNodeClass nc) s = (let (r, _, a) = NodeClass_Reconcile E nc (zones_part s) in Some (r, put_zones_part a s))"
| "status_run E _ s = None"

fun hash_run ::
  "('q, 'k) hash_env \<Rightarrow> 'q request \<Rightarrow> ('c, 'ct, 'co, 'cd, 'ci, 'v, 'm, 'w, 'k) system
   \<Rightarrow> (reconciled \<times> ('c, 'ct, 'co, 'cd, 'ci, 'v, 'm, 'w, 'k) system) option" where
  "hash_run E (ForNodeClass nc) s = (let (r, _, k) = Hash_Reconcile E nc (sy_kube s) in Some (r, s\<lparr>sy_kube := k\<rparr>))"
| "hash_run E _ s = None"

fun termination_run ::
  "('q, 'k) termination_env \<Rightarrow> 'q request \<Rightarrow> ('c, 'ct, 'co, 'cd, 'ci, 'v, 'm, 'w, 'k) system
   \<Rightarrow> (reconciled \<times> ('c, 'ct, 'co, 'cd, 'ci, 'v, 'm, 'w, 'k) system) option" where
  "termination_run E (ForNodeClass nc) s = (let (r, k) = Termination_Reconcile E nc (sy_kube s) in Some (r, s\<lparr>sy_kube := k\<rparr>))"
| "termination_run E _ s = None"

fun gc_run ::
  "(int \<Rightarrow> ('q, ('c, 'ct, 'co, 'cd, 'ci, 'v, 'm, 'w, 'k) system) gc_env) \<Rightarrow> 'q request
   \<Rightarrow> ('c, 'ct, 'co, 'cd, 'ci, 'v, 'm, 'w, 'k) system
   \<Rightarrow> (reconciled \<times> ('c, 'ct, 'co, 'cd, 'ci, 'v, 'm, 'w, 'k) system) option" where
  "gc_run E RunSingleton s = map_option (\<lambda>(r, n, s). (r, s\<lparr>sy_count := n\<rparr>)) (gc_Reconcile (E (sy_now s)) (sy_count s) s)"
| "gc_run E _ s = None"

fun labeling_run ::
  "('q, ('c, 'ct, 'co, 'cd, 'ci, 'v, 'm, 'w, 'k) system) labeling_env \<Rightarrow> 'q request
   \<Rightarrow> ('c, 'ct, 'co, 'cd, 'ci, 'v, 'm, 'w, 'k) system
   \<Rightarrow> (reconciled \<times> ('c, 'ct, 'co, 'cd, 'ci, 'v, 'm, 'w, 'k) system) option" where
  "labeling_run E (ForNodeClaim nc) s = Some (Labeling_Reconcile E nc s)"
| "labeling_run E _ s = None"

fun types_run ::
  "('c, 'ct, 'co, 'cd, 'q, 'm, 'w) itp_env \<Rightarrow> 'q request \<Rightarrow> ('c, 'ct, 'co, 'cd, 'ci, 'v, 'm, 'w, 'k) system
   \<Rightarrow> (reconciled \<times> ('c, 'ct, 'co, 'cd, 'ci, 'v, 'm, 'w, 'k) system) option" where
  "types_run E RunSingleton s =
     (let (r, st, w) = InstanceType_Reconcile E (sy_types s, sy_world s) in Some (r, s\<lparr>sy_types := st, sy_world := w\<rparr>))"
| "types_run E _ s = None"

fun prices_run ::
  "f64 gomap \<Rightarrow> ('c, 'ct, 'co, 'cd, 'q, 'm, 'w) itp_env \<Rightarrow> 'q request \<Rightarrow> ('c, 'ct, 'co, 'cd, 'ci, 'v, 'm, 'w, 'k) system
   \<Rightarrow> (reconciled \<times> ('c, 'ct, 'co, 'cd, 'ci, 'v, 'm, 'w, 'k) system) option" where
  "prices_run overrides E RunSingleton s =
     (let (r, prices, st, w) = Pricing_Reconcile overrides (MachineTypeSpecs E) (sy_prices s, sy_types s, sy_world s)
      in Some (r, s\<lparr>sy_prices := prices, sy_types := st, sy_world := w\<rparr>))"
| "prices_run overrides E _ s = None"

text \<open>
  \<open>NewControllers\<close>: the options come from the context, and without them it panics (\<open>None\<close>).
  \<open>conditions\<close> is the condition controller of operatorpkg for StackitNodeClasses.
\<close>

definition NewControllers ::
  "go_context \<Rightarrow> ('q, 'k) kube \<Rightarrow> (nat \<Rightarrow> nat list) \<Rightarrow> 'w api \<Rightarrow> ('v, string list) cache_ops
   \<Rightarrow> ('q, ('c, 'ct, 'co, 'cd, 'ci, 'v, 'm, 'w, 'k) system) cloud_interface
   \<Rightarrow> ('q, ('c, 'ct, 'co, 'cd, 'ci, 'v, 'm, 'w, 'k) system) instance_provider
   \<Rightarrow> ('c, 'ct, 'co, 'cd, 'q, 'm, 'w) itp_env \<Rightarrow> f64 gomap
   \<Rightarrow> ('q, ('c, 'ct, 'co, 'cd, 'ci, 'v, 'm, 'w, 'k) system) kube_controller
   \<Rightarrow> ('q, ('c, 'ct, 'co, 'cd, 'ci, 'v, 'm, 'w, 'k) system) kube_controller list option" where
  "NewControllers ctx K order stackitClient validationCache cloudProvider instanceProvider instanceTypeProvider overrides conditions =
     (case FromContext ctx of
        Some (Some opts) \<Rightarrow>
          Some [\<lparr>ct_registration = Status_Register, ct_filter = (\<lambda>r. True),
                 ct_reconcile = status_run
                   (nodeclass_NewController K stackitClient (opt_Region opts) validationCache (opt_DisableDryRun opts))\<rparr>,
                \<lparr>ct_registration = Hash_Register, ct_filter = (\<lambda>r. True), ct_reconcile = hash_run (hash_NewController K)\<rparr>,
                \<lparr>ct_registration = Termination_Register, ct_filter = (\<lambda>r. True),
                 ct_reconcile = termination_run (termination_NewController K)\<rparr>,
                \<lparr>ct_registration = GC_Register, ct_filter = (\<lambda>r. True),
                 ct_reconcile = gc_run (\<lambda>now. gc_NewController K order now cloudProvider)\<rparr>,
                \<lparr>ct_registration = Labeling_Register,
                 ct_filter = (\<lambda>r. case r of ForNodeClaim nc \<Rightarrow> Labeling_watches nc | _ \<Rightarrow> True),
                 ct_reconcile = labeling_run (labeling_NewController K instanceProvider (opt_ClusterName opts))\<rparr>,
                \<lparr>ct_registration = InstanceType_Register, ct_filter = (\<lambda>r. True), ct_reconcile = types_run instanceTypeProvider\<rparr>,
                \<lparr>ct_registration = Pricing_Register, ct_filter = (\<lambda>r. True),
                 ct_reconcile = prices_run overrides instanceTypeProvider\<rparr>,
                conditions]
      | _ \<Rightarrow> None)"

section \<open>The process (main.go)\<close>

text \<open>
  What \<open>main\<close> starts: the cloud provider and the controllers, and the state they start in. \<open>ctx\<close>
  is the context Karpenter's operator gives it, \<open>decorate\<close> Karpenter's decorators of the cloud
  provider. Karpenter's own controllers get the cloud provider too; they are what calls it.
\<close>

datatype 'x process = ExitStatus int | Panic | Started 'x

record ('q, 's) program =
  pr_cloud :: "('q, 's) cp_env"
  pr_controllers :: "('q, 's) kube_controller list"
  pr_start :: 's

definition main ::
  "go_context \<Rightarrow> ('c, 'ct, 'co, 'cd, 'ci, 'v, 'q, 'm, 'w) packages \<Rightarrow> ('q, 'k) kube \<Rightarrow> (nat \<Rightarrow> nat list)
   \<Rightarrow> (('q, ('c, 'ct, 'co, 'cd, 'ci, 'v, 'm, 'w, 'k) system) cloud_interface
        \<Rightarrow> ('q, ('c, 'ct, 'co, 'cd, 'ci, 'v, 'm, 'w, 'k) system) cloud_interface)
   \<Rightarrow> ('q, ('c, 'ct, 'co, 'cd, 'ci, 'v, 'm, 'w, 'k) system) kube_controller \<Rightarrow> int \<Rightarrow> 'w \<Rightarrow> 'k
   \<Rightarrow> ('q, ('c, 'ct, 'co, 'cd, 'ci, 'v, 'm, 'w, 'k) system) program process" where
  "main ctx P K order decorate conditions now w k =
     (case FromContext ctx of
        Some (Some opts) \<Rightarrow>
          (case NewOperator P opts None w of
             (Inl err, w) \<Rightarrow> ExitStatus 1
           | (Inr op, w) \<Rightarrow>
               let stackitCloudProvider = cp_New op K opts;
                   cloudProvider = decorate (cloud_of stackitCloudProvider)
               in (case NewControllers ctx K order (op_StackitClient op) (pk_validation P) cloudProvider
                          (cpe_instances stackitCloudProvider) (op_types_env op) (op_overrides op) conditions of
                     None \<Rightarrow> Panic
                   | Some cs \<Rightarrow>
                       Started \<lparr>pr_cloud = stackitCloudProvider, pr_controllers = cs,
                         pr_start = \<lparr>sy_types = op_types_state op, sy_prices = op_prices op,
                           sy_uo = op_UnavailableOfferingsCache op, sy_instances = op_instances_cache op,
                           sy_validation = op_ValidationCache op, sy_count = 0, sy_now = now, sy_world = w, sy_kube = k\<rparr>\<rparr>))
      | _ \<Rightarrow> Panic)"

section \<open>Facts\<close>

lemma instances_part_laws: "part_laws instances_part put_instances"
  by (simp add: part_laws_def instances_part_def put_instances_def)

text \<open>No two controllers have the same name, which the manager would refuse.\<close>

lemma NewControllers_names:
  assumes "NewControllers ctx K order A V C I T overrides conditions = Some cs"
    and "reg_name (ct_registration conditions) \<notin> reg_name ` {Status_Register, Hash_Register, Termination_Register,
      GC_Register, Labeling_Register, InstanceType_Register, Pricing_Register}"
  shows "distinct (map (reg_name \<circ> ct_registration) cs)"
  using assms
  by (auto simp: NewControllers_def Status_Register_def Hash_Register_def Termination_Register_def GC_Register_def
      Labeling_Register_def InstanceType_Register_def Pricing_Register_def split: option.splits)

text \<open>The controllers one by one.\<close>

lemma NewControllers_cases:
  assumes "NewControllers ctx K order A V CI IP T overrides conditions = Some cs" "c \<in> set cs"
  obtains opts where "FromContext ctx = Some (Some opts)" "ct_registration c = Status_Register"
      "ct_reconcile c = status_run (nodeclass_NewController K A (opt_Region opts) V (opt_DisableDryRun opts))"
  | "ct_registration c = Hash_Register" "ct_reconcile c = hash_run (hash_NewController K)"
  | "ct_registration c = Termination_Register" "ct_reconcile c = termination_run (termination_NewController K)"
  | "ct_registration c = GC_Register" "ct_reconcile c = gc_run (\<lambda>now. gc_NewController K order now CI)"
  | opts where "FromContext ctx = Some (Some opts)" "ct_registration c = Labeling_Register"
      "ct_reconcile c = labeling_run (labeling_NewController K IP (opt_ClusterName opts))"
  | "ct_registration c = InstanceType_Register" "ct_reconcile c = types_run T"
  | "ct_registration c = Pricing_Register" "ct_reconcile c = prices_run overrides T"
  | "c = conditions"
  using assms by (auto simp: NewControllers_def split: option.splits)

text \<open>The process panics only without options, and exits only when the operator is not built.\<close>

lemma main_started:
  "main ctx P K order decorate conditions now w k = Started prog \<longleftrightarrow>
     (\<exists>opts op w' cs. FromContext ctx = Some (Some opts) \<and> NewOperator P opts None w = (Inr op, w')
        \<and> NewControllers ctx K order (op_StackitClient op) (pk_validation P) (decorate (cloud_of (cp_New op K opts)))
            (cpe_instances (cp_New op K opts)) (op_types_env op) (op_overrides op) conditions = Some cs
        \<and> prog = \<lparr>pr_cloud = cp_New op K opts, pr_controllers = cs,
                   pr_start = \<lparr>sy_types = op_types_state op, sy_prices = op_prices op,
                     sy_uo = op_UnavailableOfferingsCache op, sy_instances = op_instances_cache op,
                     sy_validation = op_ValidationCache op, sy_count = 0, sy_now = now, sy_world = w', sy_kube = k\<rparr>\<rparr>)"
  by (auto simp: main_def Let_def split: option.splits prod.splits sum.splits)

lemma main_panics: "main ctx P K order decorate conditions now w k = Panic \<longleftrightarrow> (\<forall>opts. FromContext ctx \<noteq> Some (Some opts))"
  by (auto simp: main_def NewControllers_def Let_def split: option.splits prod.splits sum.splits)

end
