(* ===== verification/System.thy ===== *)
theory System
  imports Controllers
begin

text \<open>
  The running program: Karpenter calls the cloud provider, the manager runs the controllers, time
  passes in every cache, the caches are cleaned, and STACKIT and the cluster change, in any order.
  Each call and each reconcile is one step here; the theories \<open>LaunchRace\<close>, \<open>NodeClassTermination\<close> and
  \<open>NodeClassControllers\<close> look into the ones whose interleaving matters. The interfaces of this
  theory say what an invariant has to survive, first for what only lists, then for what deletes,
  then for everything.
\<close>

section \<open>The steps\<close>

text \<open>The caches that have no callbacks. Cleaning drops entries that have expired.\<close>

datatype plain_cache = TypesCache | OffersCache | DiscoveredCache | InstancesCache | ZonesCache

fun sweep ::
  "('c, 'ct, 'co, 'cd, 'ci, 'v, 'q, 'm, 'w) packages \<Rightarrow> plain_cache
   \<Rightarrow> ('c, 'ct, 'co, 'cd, 'ci, 'v, 'm, 'w, 'k) system \<Rightarrow> ('c, 'ct, 'co, 'cd, 'ci, 'v, 'm, 'w, 'k) system" where
  "sweep P TypesCache s =
     s\<lparr>sy_types := (sy_types s)\<lparr>itp_types := fst (c_janitor (pk_type_cache P) (itp_types (sy_types s)))\<rparr>\<rparr>"
| "sweep P OffersCache s =
     s\<lparr>sy_types := (sy_types s)\<lparr>itp_offers := (itp_offers (sy_types s))
         \<lparr>off_cache := fst (c_janitor (pk_offer_cache P) (off_cache (itp_offers (sy_types s))))\<rparr>\<rparr>\<rparr>"
| "sweep P DiscoveredCache s =
     s\<lparr>sy_types := (sy_types s)\<lparr>itp_discovered := fst (c_janitor (pk_discovered P) (itp_discovered (sy_types s)))\<rparr>\<rparr>"
| "sweep P InstancesCache s = s\<lparr>sy_instances := fst (c_janitor (pk_instance_cache P) (sy_instances s))\<rparr>"
| "sweep P ZonesCache s = s\<lparr>sy_validation := fst (c_janitor (pk_validation P) (sy_validation s))\<rparr>"

definition pass_time ::
  "('c, 'ct, 'co, 'cd, 'ci, 'v, 'q, 'm, 'w) packages \<Rightarrow> int
   \<Rightarrow> ('c, 'ct, 'co, 'cd, 'ci, 'v, 'm, 'w, 'k) system \<Rightarrow> ('c, 'ct, 'co, 'cd, 'ci, 'v, 'm, 'w, 'k) system" where
  "pass_time P d s =
     s\<lparr>sy_now := sy_now s + d, sy_uo := uo_tick (pk_uo_cache P) d (sy_uo s),
       sy_types := (sy_types s)\<lparr>itp_types := c_tick (pk_type_cache P) d (itp_types (sy_types s)),
         itp_offers := (itp_offers (sy_types s))\<lparr>off_cache := c_tick (pk_offer_cache P) d (off_cache (itp_offers (sy_types s)))\<rparr>,
         itp_discovered := c_tick (pk_discovered P) d (itp_discovered (sy_types s))\<rparr>,
       sy_instances := c_tick (pk_instance_cache P) d (sy_instances s),
       sy_validation := c_tick (pk_validation P) d (sy_validation s)\<rparr>"

text \<open>
  The number of a step is how many changes of availability it may report to the sequence numbers:
  one for a launch, one for each entry that a cleaning of the availability record evicts.
\<close>

inductive sys_step ::
  "('c, 'ct, 'co, 'cd, 'ci, 'v, 'q, 'm, 'w) packages
   \<Rightarrow> ('q, ('c, 'ct, 'co, 'cd, 'ci, 'v, 'm, 'w, 'k) system) program \<Rightarrow> nat
   \<Rightarrow> ('c, 'ct, 'co, 'cd, 'ci, 'v, 'm, 'w, 'k) system \<Rightarrow> ('c, 'ct, 'co, 'cd, 'ci, 'v, 'm, 'w, 'k) system \<Rightarrow> bool"
  for P prog where
  controller_runs: "c \<in> set (pr_controllers prog) \<Longrightarrow> handles c r \<Longrightarrow> ct_reconcile c r s = Some (res, s') \<Longrightarrow>
    sys_step P prog 0 s s'"
| creates: "cp_Create (pr_cloud prog) nc s = Some (created, s') \<Longrightarrow> sys_step P prog 1 s s'"
| deletes: "cp_Delete (pr_cloud prog) nc s = (e, s') \<Longrightarrow> sys_step P prog 0 s s'"
| gets: "cp_Get (pr_cloud prog) p s = Some (got, s') \<Longrightarrow> sys_step P prog 0 s s'"
| lists: "cp_List (pr_cloud prog) s = Some (listed, s') \<Longrightarrow> sys_step P prog 0 s s'"
| types: "GetInstanceTypes (pr_cloud prog) np s = Some (its, s') \<Longrightarrow> sys_step P prog 0 s s'"
| drift: "IsDrifted (pr_cloud prog) nc s = (reason, s') \<Longrightarrow> sys_step P prog 0 s s'"
| time_passes: "sys_step P prog 0 s (pass_time P d s)"
| swept: "sys_step P prog 0 s (sweep P c s)"
| offerings_swept: "uo_offering_janitor (pk_uo_cache P) (sy_uo s) = Some u \<Longrightarrow>
    sys_step P prog (length (snd (c_janitor (pk_uo_cache P) (uo_offerings (sy_uo s))))) s (s\<lparr>sy_uo := u\<rparr>)"
| zones_swept: "sys_step P prog (length (snd (c_janitor (pk_uo_cache P) (uo_zones (sy_uo s))))) s
    (s\<lparr>sy_uo := uo_zone_janitor (pk_uo_cache P) (sy_uo s)\<rparr>)"
| outside: "sys_step P prog 0 s (s\<lparr>sy_world := w, sy_kube := k\<rparr>)"

text \<open>A run from the start, with the sum of the numbers.\<close>

inductive sys_run ::
  "('c, 'ct, 'co, 'cd, 'ci, 'v, 'q, 'm, 'w) packages
   \<Rightarrow> ('q, ('c, 'ct, 'co, 'cd, 'ci, 'v, 'm, 'w, 'k) system) program \<Rightarrow> nat
   \<Rightarrow> ('c, 'ct, 'co, 'cd, 'ci, 'v, 'm, 'w, 'k) system \<Rightarrow> bool"
  for P prog where
  sys_start: "sys_run P prog 0 (pr_start prog)"
| sys_next: "sys_run P prog m s \<Longrightarrow> sys_step P prog n s s' \<Longrightarrow> sys_run P prog (m + n) s'"

text \<open>What is used of the decorators and of the condition controller: they do not touch the program's state.\<close>

definition transparent :: "(('q, 's) cloud_interface \<Rightarrow> ('q, 's) cloud_interface) \<Rightarrow> bool" where
  "transparent decorate \<longleftrightarrow> (\<forall>ci. decorate ci = ci)"

definition reports_only ::
  "('q, ('c, 'ct, 'co, 'cd, 'ci, 'v, 'm, 'w, 'k) system) kube_controller \<Rightarrow> bool" where
  "reports_only c \<longleftrightarrow> (\<forall>r s res s'. ct_reconcile c r s = Some (res, s') \<longrightarrow> (\<exists>k. s' = s\<lparr>sy_kube := k\<rparr>))"

text \<open>A cloud provider on these two providers, in a cluster with these NodeClasses.\<close>

definition built_on ::
  "('c, 'ct, 'co, 'cd, 'q, 'm, 'w) itp_env \<Rightarrow> ('c, 'ci, 'q, 'w) ip_env \<Rightarrow> (nodeclass \<Rightarrow> bool)
   \<Rightarrow> ('q, ('c, 'ct, 'co, 'cd, 'ci, 'v, 'm, 'w, 'k) system) cp_env \<Rightarrow> bool" where
  "built_on TE IE classes CE \<longleftrightarrow>
     cpe_types CE = default_type_provider TE (\<lambda>s. Some (Price (sy_prices s))) sy_uo sy_types (\<lambda>st s. s\<lparr>sy_types := st\<rparr>)
     \<and> cpe_instances CE = lift_provider instances_part put_instances (default_provider IE)
     \<and> (\<forall>ev s. \<exists>k. cpe_publish CE ev s = s\<lparr>sy_kube := k\<rparr>)
     \<and> (\<forall>name s nc. cpe_get_nodeclass CE name s = Inr nc \<longrightarrow> classes nc)"

text \<open>A program whose cloud provider and controllers are put together from these parts.\<close>

definition assembled ::
  "('c, 'ct, 'co, 'cd, 'q, 'm, 'w) itp_env \<Rightarrow> ('c, 'ci, 'q, 'w) ip_env \<Rightarrow> (nodeclass \<Rightarrow> bool) \<Rightarrow> f64 gomap
   \<Rightarrow> ('q, ('c, 'ct, 'co, 'cd, 'ci, 'v, 'm, 'w, 'k) system) program \<Rightarrow> bool" where
  "assembled TE IE classes overrides prog \<longleftrightarrow> built_on TE IE classes (pr_cloud prog)
     \<and> (\<exists>ctx (K :: ('q, 'k) kube) order A V conditions.
          NewControllers ctx K order A V (cloud_of (pr_cloud prog)) (cpe_instances (pr_cloud prog)) TE overrides conditions
            = Some (pr_controllers prog)
          \<and> reports_only conditions)"

section \<open>What only lists\<close>

text \<open>
  The contract of an invariant \<open>I\<close> that listing keeps; \<open>classes\<close> holds of the NodeClasses of the
  cluster. The number is the one of the steps.
\<close>

locale listing_keeps =
  fixes TE :: "('c, 'ct, 'co, 'cd, 'q, 'm, 'w) itp_env"
    and IE :: "('c, 'ci, 'q, 'w) ip_env"
    and classes :: "nodeclass \<Rightarrow> bool"
    and I :: "nat \<Rightarrow> ('c, 'ct, 'co, 'cd, 'ci, 'v, 'm, 'w, 'k) system \<Rightarrow> bool"
  assumes kube_keeps: "I b s \<Longrightarrow> I b (s\<lparr>sy_kube := k\<rparr>)"
    and types_keep: "I b s \<Longrightarrow> classes nc \<Longrightarrow>
      itp_List TE (Some (Price (sy_prices s))) (sy_uo s) nc (sy_types s) = Some (r, st) \<Longrightarrow> I b (s\<lparr>sy_types := st\<rparr>)"
    and ip_List_keeps: "I b s \<Longrightarrow> ip_List IE (instances_part s) = (is, a) \<Longrightarrow> I b (put_instances a s)"
    and ip_Get_keeps: "I b s \<Longrightarrow> ip_Get IE skip sid (instances_part s) = (i, a) \<Longrightarrow> I b (put_instances a s)"
begin

lemma tpr_List_keeps:
  assumes "built_on TE IE classes CE" "I b s" "classes nc" "tpr_List (cpe_types CE) nc s = Some (r, s')"
  shows "I b s'"
  using assms types_keep by (auto simp: built_on_def default_type_provider_def)

lemma publish_keeps: "built_on TE IE classes CE \<Longrightarrow> I b s \<Longrightarrow> I b (cpe_publish CE ev s)"
  using kube_keeps unfolding built_on_def by metis

lemma pool_class: "built_on TE IE classes CE \<Longrightarrow> resolveNodeClassFromNodePool CE np s = Inr nc \<Longrightarrow> classes nc"
  by (auto simp: built_on_def resolveNodeClassFromNodePool_def split: option.splits sum.splits if_splits)

lemma claim_class: "built_on TE IE classes CE \<Longrightarrow> resolveNodeClassFromNodeClaim CE c s = Inr nc \<Longrightarrow> classes nc"
  by (auto simp: built_on_def resolveNodeClassFromNodeClaim_def split: option.splits sum.splits if_splits)

lemma GetInstanceTypes_keeps:
  assumes "built_on TE IE classes CE" "I b s" "GetInstanceTypes CE np s = Some (r, s')"
  shows "I b s'"
  using assms(3) publish_keeps [OF assms(1,2)] assms(2) tpr_List_keeps [OF assms(1,2) pool_class [OF assms(1)]]
  by (auto simp: GetInstanceTypes_def Let_def split: sum.splits if_splits)

lemma resolve_type_keeps:
  assumes "built_on TE IE classes CE" "I b s" "resolveInstanceTypeFromInstance CE i s = Some (r, s')"
  shows "I b s'"
  using assms(2,3) GetInstanceTypes_keeps [OF assms(1,2)]
  by (auto simp: resolveInstanceTypeFromInstance_def split: sum.splits option.splits prod.splits)

lemma cp_list_loop_keeps:
  assumes "built_on TE IE classes CE"
  shows "I b s \<Longrightarrow> cp_list_loop CE is s = Some (r, s') \<Longrightarrow> I b s'"
proof (induction "is" arbitrary: s r)
  case (Cons i "is")
  obtain it t where t: "resolveInstanceTypeFromInstance CE i s = Some (it, t)"
    using Cons.prems(2) by (auto split: option.splits)
  have "I b t" by (rule resolve_type_keeps [OF assms Cons.prems(1) t])
  with Cons.IH [of t] Cons.prems(2) t show ?case by (auto split: sum.splits option.splits)
qed simp

lemma lifted_Get_keeps:
  assumes "built_on TE IE classes CE" "I b s" "ipr_Get (cpe_instances CE) skip sid s = (r, s')"
  shows "I b s'"
  using assms ip_Get_keeps by (auto simp: built_on_def lift_provider_def default_provider_def on_part_Inr)

lemma cp_List_keeps:
  assumes "built_on TE IE classes CE" "I b s" "cp_List CE s = Some (r, s')"
  shows "I b s'"
proof -
  obtain "is" t where l: "ipr_List (cpe_instances CE) s = (is, t)" by force
  then have "I b t"
    using assms(1,2) ip_List_keeps by (auto simp: built_on_def lift_provider_def default_provider_def on_part_Inr)
  with assms(3) l cp_list_loop_keeps [OF assms(1)] show ?thesis by (auto simp: cp_List_def split: sum.splits)
qed

lemma cp_Get_keeps:
  assumes "built_on TE IE classes CE" "I b s" "cp_Get CE p s = Some (r, s')"
  shows "I b s'"
proof (cases "ParseInstanceID p")
  case (Inr sid)
  obtain i t where g: "ipr_Get (cpe_instances CE) False sid s = (i, t)" by force
  have "I b t" by (rule lifted_Get_keeps [OF assms(1,2) g])
  with assms(3) Inr g resolve_type_keeps [OF assms(1)] show ?thesis
    by (auto simp: cp_Get_def split: sum.splits option.splits)
qed (use assms(2,3) in \<open>simp add: cp_Get_def\<close>)

lemma IsDrifted_keeps:
  assumes "built_on TE IE classes CE" "I b s" "IsDrifted CE nc s = (r, s')"
  shows "I b s'"
proof -
  have "I b (snd (isNodeClassDrifted CE nc cl s))" for cl
    using assms(2) lifted_Get_keeps [OF assms(1,2)]
    by (auto simp: isNodeClassDrifted_def isAvailabilityZoneDrifted_def Let_def split: sum.splits prod.splits)
  with assms(2,3) publish_keeps [OF assms(1,2)] show ?thesis
    by (auto simp: IsDrifted_def Let_def split: option.splits sum.splits if_splits prod.splits) (metis snd_conv)+
qed

end

section \<open>What deletes\<close>

locale deletes_keep = listing_keeps TE IE classes I
  for TE :: "('c, 'ct, 'co, 'cd, 'q, 'm, 'w) itp_env"
    and IE :: "('c, 'ci, 'q, 'w) ip_env"
    and classes :: "nodeclass \<Rightarrow> bool"
    and I :: "nat \<Rightarrow> ('c, 'ct, 'co, 'cd, 'ci, 'v, 'm, 'w, 'k) system \<Rightarrow> bool" +
  assumes ip_Delete_keeps: "I b s \<Longrightarrow> ip_Delete IE sid (instances_part s) = (e, a) \<Longrightarrow> I b (put_instances a s)"
begin

lemma cp_Delete_keeps:
  assumes "built_on TE IE classes CE" "I b s" "cp_Delete CE nc s = (r, s')"
  shows "I b s'"
  using assms ip_Delete_keeps
  by (auto simp: cp_Delete_def built_on_def lift_provider_def default_provider_def on_part_Inr split: sum.splits)

lemma gc_item_keeps:
  assumes "built_on TE IE classes CE" "I b s" "gc_item (gc_NewController K order now (cloud_of CE)) ids nodes claims i s = (e, s')"
  shows "I b s'"
proof -
  let ?E = "gc_NewController K order now (cloud_of CE)"
  have n: "I b t \<Longrightarrow> gc_delete_node ?E node t = (e, t') \<Longrightarrow> I b t'" for node t e t'
    using kube_keeps by (auto simp: gc_NewController_def on_part_Inr)
  have "garbageCollect ?E nc nodes s = (e, t) \<Longrightarrow> I b t" for nc e t
    using cp_Delete_keeps [OF assms(1,2), of nc] n
    by (auto simp: garbageCollect_def gc_NewController_def cloud_of_def split: prod.splits option.splits)
  with assms(2,3) show ?thesis by (auto simp: gc_item_def Let_def split: if_splits)
qed

lemma gc_items_keeps:
  assumes "built_on TE IE classes CE"
  shows "I b s \<Longrightarrow> gc_items (gc_NewController K order now (cloud_of CE)) ids nodes claims todo errs s = (errs', s') \<Longrightarrow> I b s'"
proof (induction todo arbitrary: errs s)
  case (Cons i todo)
  obtain e t where g: "gc_item (gc_NewController K order now (cloud_of CE)) ids nodes claims i s = (e, t)" by force
  with Cons.prems(2) have "gc_items (gc_NewController K order now (cloud_of CE)) ids nodes claims todo (errs[i := e]) t = (errs', s')"
    by simp
  with Cons.IH [OF gc_item_keeps [OF assms Cons.prems(1) g]] show ?case .
qed simp

lemma gc_keeps:
  assumes "built_on TE IE classes CE" "I b s" "gc_Reconcile (gc_NewController K order now (cloud_of CE)) n s = Some (r, n', s')"
  shows "I b s'"
proof -
  let ?E = "gc_NewController K order now (cloud_of CE)"
  obtain listed t where l: "cp_List CE s = Some (listed, t)"
    using assms(3) by (auto simp: gc_Reconcile_def gc_NewController_def cloud_of_def split: option.splits)
  have "I b t" by (rule cp_List_keeps [OF assms(1,2) l])
  moreover have "gc_list ?E s = Some (listed, t)" using l by (simp add: gc_NewController_def cloud_of_def)
  ultimately show ?thesis
    using assms(3) gc_items_keeps [OF assms(1)]
    by (auto simp: gc_Reconcile_def Let_def split: sum.splits prod.splits option.splits)
qed

end

section \<open>Everything\<close>

locale program_keeps = deletes_keep TE IE classes I
  for TE :: "('c, 'ct, 'co, 'cd, 'q, 'm, 'w) itp_env"
    and IE :: "('c, 'ci, 'q, 'w) ip_env"
    and classes :: "nodeclass \<Rightarrow> bool"
    and I :: "nat \<Rightarrow> ('c, 'ct, 'co, 'cd, 'ci, 'v, 'm, 'w, 'k) system \<Rightarrow> bool" +
  fixes P :: "('c, 'ct, 'co, 'cd, 'ci, 'v, 'q, 'm, 'w) packages"
    and overrides :: "f64 gomap"
  assumes later: "I b s \<Longrightarrow> b \<le> b' \<Longrightarrow> I b' s"
    and outside_keeps: "I b s \<Longrightarrow> I b (s\<lparr>sy_validation := v, sy_count := n, sy_world := w, sy_kube := k\<rparr>)"
    and create_keeps: "I b s \<Longrightarrow> classes nc \<Longrightarrow>
      itp_List TE (Some (Price (sy_prices s))) (sy_uo s) nc (sy_types s) = Some (Inr its, st) \<Longrightarrow>
      ip_Create IE nc claim labels its (instances_part (s\<lparr>sy_types := st\<rparr>)) = (i, a) \<Longrightarrow>
      I (Suc b) (put_instances a (s\<lparr>sy_types := st\<rparr>))"
    and labels_keep: "I b s \<Longrightarrow> ip_UpdateLabels IE sid labels (instances_part s) = (e, a) \<Longrightarrow> I b (put_instances a s)"
    and types_refresh_keeps: "I b s \<Longrightarrow> InstanceType_Reconcile TE (sy_types s, sy_world s) = (r, st, w) \<Longrightarrow>
      I b (s\<lparr>sy_types := st, sy_world := w\<rparr>)"
    and prices_refresh_keeps: "I b s \<Longrightarrow>
      Pricing_Reconcile overrides (MachineTypeSpecs TE) (sy_prices s, sy_types s, sy_world s) = (r, prices, st, w) \<Longrightarrow>
      I b (s\<lparr>sy_prices := prices, sy_types := st, sy_world := w\<rparr>)"
    and time_keeps: "I b s \<Longrightarrow> I b (pass_time P d s)"
    and sweep_keeps: "I b s \<Longrightarrow> I b (sweep P c s)"
    and offerings_sweep_keeps: "I b s \<Longrightarrow> uo_offering_janitor (pk_uo_cache P) (sy_uo s) = Some u \<Longrightarrow>
      I (b + length (snd (c_janitor (pk_uo_cache P) (uo_offerings (sy_uo s))))) (s\<lparr>sy_uo := u\<rparr>)"
    and zones_sweep_keeps: "I b s \<Longrightarrow>
      I (b + length (snd (c_janitor (pk_uo_cache P) (uo_zones (sy_uo s))))) (s\<lparr>sy_uo := uo_zone_janitor (pk_uo_cache P) (sy_uo s)\<rparr>)"
begin

lemma world_keeps: "I b s \<Longrightarrow> I b (s\<lparr>sy_validation := v, sy_world := w, sy_kube := k\<rparr>)"
  using outside_keeps [where b = b and s = s and v = v and n = "sy_count s" and w = w and k = k] by simp

lemma cp_Create_keeps:
  assumes "built_on TE IE classes CE" "I b s" "cp_Create CE nc s = Some (r, s')"
  shows "I (Suc b) s'"
proof (cases "resolveNodeClassFromNodeClaim CE nc s")
  case (Inl err)
  then show ?thesis
    using assms(3) publish_keeps [OF assms(1,2)] later [OF _ le_SucI [OF order_refl]] assms(2)
    by (auto simp: cp_Create_def split: if_splits)
next
  case (Inr cl)
  have cl: "classes cl" by (rule claim_class [OF assms(1) Inr])
  have keep: "I (Suc b) t" if "I b t" for t using later [OF that] by simp
  have listed: "I (Suc b) (put_instances a (s\<lparr>sy_types := st\<rparr>))"
    if "itp_List TE (Some (Price (sy_prices s))) (sy_uo s) cl (sy_types s) = Some (Inr its, st)"
      "ip_Create IE cl nc labels its (instances_part (s\<lparr>sy_types := st\<rparr>)) = (i, a)" for its st labels i a
    by (rule create_keeps [OF assms(2) cl that])
  show ?thesis
    using assms(3) Inr keep [OF assms(2)] keep [OF tpr_List_keeps [OF assms(1,2) cl]] listed assms(1)
    by (auto simp: cp_Create_def Let_def built_on_def default_type_provider_def lift_provider_def default_provider_def
        on_part_Inr split: if_splits option.splits sum.splits prod.splits)
qed

lemma labeling_keeps:
  assumes "built_on TE IE classes CE" "I b s" "Labeling_Reconcile (labeling_NewController K (cpe_instances CE) cluster) nc s = (r, s')"
  shows "I b s'"
proof -
  let ?E = "labeling_NewController K (cpe_instances CE) cluster"
  have g: "ipr_Get (lab_instances ?E) False sid s = (i, t) \<Longrightarrow> I b t" for sid i t
    using lifted_Get_keeps [OF assms(1,2)] by (simp add: labeling_NewController_def)
  have u: "I b t \<Longrightarrow> ipr_UpdateLabels (lab_instances ?E) sid labels t = (e, t') \<Longrightarrow> I b t'" for sid labels t e t'
    using assms(1) labels_keep
    by (auto simp: labeling_NewController_def built_on_def lift_provider_def default_provider_def on_part_Inr)
  have gu: "ipr_Get (lab_instances ?E) False sid s = (i, t) \<Longrightarrow>
      ipr_UpdateLabels (lab_instances ?E) sid labels t = (e, t') \<Longrightarrow> I b t'" for sid i t labels e t'
    using u [OF g] by blast
  show ?thesis
    using assms(2,3) g gu
    by (auto simp: Labeling_Reconcile_def Let_def split: if_splits sum.splits option.splits prod.splits)
qed

lemma controller_keeps:
  assumes "assembled TE IE classes overrides prog" "I b s" "c \<in> set (pr_controllers prog)" "ct_reconcile c r s = Some (res, s')"
  shows "I b s'"
proof -
  have CE: "built_on TE IE classes (pr_cloud prog)" using assms(1) by (simp add: assembled_def)
  obtain ctx K order A V conditions where new: "NewControllers ctx K order A V (cloud_of (pr_cloud prog))
      (cpe_instances (pr_cloud prog)) TE overrides conditions = Some (pr_controllers prog)" "reports_only conditions"
    using assms(1) unfolding assembled_def by blast
  have status: "status_run E r s = Some (res, s') \<Longrightarrow> I b s'" for E
    using world_keeps [OF assms(2)] by (cases r) (auto simp: put_zones_part_def split: prod.splits)
  have hash: "hash_run E r s = Some (res, s') \<Longrightarrow> I b s'" for E
    using kube_keeps [OF assms(2)] by (cases r) (auto split: prod.splits)
  have term_run: "termination_run E r s = Some (res, s') \<Longrightarrow> I b s'" for E
    using kube_keeps [OF assms(2)] by (cases r) (auto split: prod.splits)
  have count: "I b t \<Longrightarrow> I b (t\<lparr>sy_count := n\<rparr>)" for t n
    using outside_keeps [where b = b and s = t and v = "sy_validation t" and n = n and w = "sy_world t" and k = "sy_kube t"] by simp
  have gc: "gc_run (\<lambda>now. gc_NewController K order now (cloud_of (pr_cloud prog))) r s = Some (res, s') \<Longrightarrow> I b s'"
    using gc_keeps [OF CE assms(2)] count by (cases r) (auto split: prod.splits)
  have labeling: "labeling_run (labeling_NewController K (cpe_instances (pr_cloud prog)) cl) r s = Some (res, s') \<Longrightarrow> I b s'" for cl
    using labeling_keeps [OF CE assms(2)] by (cases r) auto
  have types: "types_run TE r s = Some (res, s') \<Longrightarrow> I b s'"
    using types_refresh_keeps [OF assms(2)] by (cases r) (auto split: prod.splits)
  have prices: "prices_run overrides TE r s = Some (res, s') \<Longrightarrow> I b s'"
    using prices_refresh_keeps [OF assms(2)] by (cases r) (auto split: prod.splits)
  have cond: "ct_reconcile conditions r s = Some (res, s') \<Longrightarrow> I b s'"
    using new(2) kube_keeps [OF assms(2)] unfolding reports_only_def by blast
  from new(1) assms(3) show ?thesis
    by (cases rule: NewControllers_cases)
       (use assms(4) status hash term_run gc labeling types prices cond in simp_all)
qed

lemma step_keeps:
  assumes "assembled TE IE classes overrides prog" "sys_step P prog n s s'" "I b s"
  shows "I (b + n) s'"
proof -
  have CE: "built_on TE IE classes (pr_cloud prog)" using assms(1) by (simp add: assembled_def)
  show ?thesis using assms(2)
  proof cases
    case (controller_runs c r res)
    then show ?thesis using controller_keeps [OF assms(1,3)] by simp
  next
    case (creates nc created)
    then show ?thesis using cp_Create_keeps [OF CE assms(3)] by simp
  next
    case (outside w k)
    then show ?thesis using world_keeps [OF assms(3), where v = "sy_validation s"] by simp
  qed (use cp_Delete_keeps [OF CE assms(3)] cp_Get_keeps [OF CE assms(3)] cp_List_keeps [OF CE assms(3)]
        GetInstanceTypes_keeps [OF CE assms(3)] IsDrifted_keeps [OF CE assms(3)] time_keeps [OF assms(3)]
        sweep_keeps [OF assms(3)] offerings_sweep_keeps [OF assms(3)] zones_sweep_keeps [OF assms(3)] in simp_all)
qed

lemma run_keeps:
  assumes "assembled TE IE classes overrides prog" "I 0 (pr_start prog)" "sys_run P prog n s"
  shows "I n s"
  using assms(3)
proof induction
  case sys_start
  then show ?case by (rule assms(2))
next
  case (sys_next m s n s')
  then show ?case using step_keeps [OF assms(1)] by blast
qed

end

end
