(* ===== verification/Running.thy ===== *)
theory Running
  imports System
begin

text \<open>
  What the running program keeps to: it never loses the machine types it started with, and which
  of its parts change anything at STACKIT. The calls are seen by an SDK that records them.
\<close>

section \<open>The started program\<close>

lemma cp_New_sel:
  "cpe_types (cp_New op K opts) =
     default_type_provider (op_types_env op) (\<lambda>s. Some (Price (sy_prices s))) sy_uo sy_types (\<lambda>st s. s\<lparr>sy_types := st\<rparr>)"
  "cpe_instances (cp_New op K opts) = lift_provider instances_part put_instances (default_provider (op_instances_env op))"
  "cpe_publish (cp_New op K opts) ev s = s\<lparr>sy_kube := kb_publish K ev (sy_kube s)\<rparr>"
  "cpe_get_nodeclass (cp_New op K opts) name s = kb_get_nodeclass K name (sy_kube s)"
  by (simp_all add: cp_New_def)

lemma NewOperator_parts:
  assumes "NewOperator P opts c w = (Inr op, w')"
  shows "\<exists>client. operator_client P opts c = Inr client \<and> op_StackitClient op = client \<and> op_types_env op = types_env P opts client
     \<and> op_instances_env op = instances_env P opts client \<and> op_overrides op = opt_PricingOverrides opts
     \<and> op_UnavailableOfferingsCache op = NewUnavailableOfferings (pk_uo_cache P)"
  using assms by (auto simp: NewOperator_def Let_def split: sum.splits prod.splits option.splits)

section \<open>The catalogue\<close>

lemma itp_List_types:
  assumes "itp_List E pricing u nc st = Some (r, st')"
  shows "itp_machine_types st' = itp_machine_types st"
  using assms by (auto simp: itp_List_def Let_def split_beta split: option.splits if_splits bind_splits)

interpretation catalogue: program_keeps TE IE "\<lambda>_. True"
  "\<lambda>_ s. loaded (sy_prices s, sy_types s, sy_world s)" P overrides
  for TE :: "('c, 'ct, 'co, 'cd, 'q, 'm, 'w) itp_env" and IE :: "('c, 'ci, 'q, 'w) ip_env"
    and P :: "('c, 'ct, 'co, 'cd, 'ci, 'v, 'q, 'm, 'w) packages" and overrides :: "f64 gomap"
proof (unfold_locales, goal_cases)
  case (10 b s r st w)
  have "loaded (sy_prices s, snd (InstanceType_Reconcile TE (sy_types s, sy_world s)))" by (rule types_refresh_loaded [OF 10(1)])
  then show ?case using 10(2) by (simp add: loaded_def)
next
  case (11 b s r prices st w)
  then show ?case using price_refresh [OF 11(1), of overrides TE] by (simp add: loaded_def)
next
  case (13 b s c)
  then show ?case by (cases c) (simp_all add: loaded_def)
qed (auto simp: loaded_def itp_List_types put_instances_def pass_time_def)

lemma started_assembled:
  assumes "main ctx P K order decorate conditions now w k = Started prog" "transparent decorate" "reports_only conditions"
  obtains opts op w' where "FromContext ctx = Some (Some opts)" "NewOperator P opts None w = (Inr op, w')"
    "pr_cloud prog = cp_New op K opts" "pr_start prog = \<lparr>sy_types = op_types_state op, sy_prices = op_prices op,
       sy_uo = op_UnavailableOfferingsCache op, sy_instances = op_instances_cache op,
       sy_validation = op_ValidationCache op, sy_count = 0, sy_now = now, sy_world = w', sy_kube = k\<rparr>"
    "NewControllers ctx K order (op_StackitClient op) (pk_validation P) (cloud_of (pr_cloud prog)) (cpe_instances (pr_cloud prog))
       (op_types_env op) (op_overrides op) conditions = Some (pr_controllers prog)"
  using assms by (auto simp: main_started transparent_def)

lemma catalogue_kept:
  assumes "main ctx P K order decorate conditions now w k = Started prog" "transparent decorate" "reports_only conditions"
    and "cache_laws (pk_type_cache P)" "sys_run P prog n s"
  shows "loaded (sy_prices s, sy_types s, sy_world s)"
proof -
  obtain opts op w' where p: "NewOperator P opts None w = (Inr op, w')" "pr_cloud prog = cp_New op K opts"
      "pr_start prog = \<lparr>sy_types = op_types_state op, sy_prices = op_prices op,
       sy_uo = op_UnavailableOfferingsCache op, sy_instances = op_instances_cache op,
       sy_validation = op_ValidationCache op, sy_count = 0, sy_now = now, sy_world = w', sy_kube = k\<rparr>"
      "NewControllers ctx K order (op_StackitClient op) (pk_validation P) (cloud_of (pr_cloud prog)) (cpe_instances (pr_cloud prog))
       (op_types_env op) (op_overrides op) conditions = Some (pr_controllers prog)"
    using started_assembled [OF assms(1-3)] by metis
  obtain client w2 where u: "UpdateMachineTypes (types_env P opts client) (types_state P, w) = (None, op_types_state op, w2)"
    using NewOperator_loaded [OF p(1)] by blast
  have start: "loaded (sy_prices (pr_start prog), sy_types (pr_start prog), sy_world (pr_start prog))"
    using hydrate(1) [OF u assms(4)] machine_type_map_ok UpdateMachineTypes_nonempty [OF u] by (auto simp: loaded_def p(3))
  have "assembled (op_types_env op) (op_instances_env op) (\<lambda>_. True) (op_overrides op) prog"
    unfolding assembled_def
  proof
    show "built_on (op_types_env op) (op_instances_env op) (\<lambda>_. True) (pr_cloud prog)"
      by (auto simp: built_on_def p(2) cp_New_sel)
  qed (use p(4) assms(3) in blast)
  from catalogue.run_keeps [OF this start assms(5)] show ?thesis .
qed

section \<open>Who changes anything at STACKIT\<close>

text \<open>An SDK that records the calls that change something, with the project and region they name.\<close>

datatype sdk_call =
    SdkCreate string string create_payload
  | SdkDelete string string string
  | SdkUpdate string string string "api_value gomap option"
  | SdkDeleteVolume string string string

definition spied :: "'w sdk \<Rightarrow> ('w \<times> sdk_call list) sdk" where
  "spied A =
     \<lparr>sdk_create_server = (\<lambda>p r pl (w, l). (let (x, w) = sdk_create_server A p r pl w in (x, w, l @ [SdkCreate p r pl]))),
      sdk_get_server = (\<lambda>p r i (w, l). (let (x, w) = sdk_get_server A p r i w in (x, w, l))),
      sdk_delete_server = (\<lambda>p r i (w, l). (let (x, w) = sdk_delete_server A p r i w in (x, w, l @ [SdkDelete p r i]))),
      sdk_list_servers = (\<lambda>p r d sel (w, l). (let (x, w) = sdk_list_servers A p r d sel w in (x, w, l))),
      sdk_update_server = (\<lambda>p r i ls (w, l). (let (x, w) = sdk_update_server A p r i ls w in (x, w, l @ [SdkUpdate p r i ls]))),
      sdk_list_machine_types = (\<lambda>p r (w, l). (let (x, w) = sdk_list_machine_types A p r w in (x, w, l))),
      sdk_list_availability_zones = (\<lambda>r (w, l). (let (x, w) = sdk_list_availability_zones A r w in (x, w, l))),
      sdk_delete_volume = (\<lambda>p r i (w, l). (let (x, w) = sdk_delete_volume A p r i w in (x, w, l @ [SdkDeleteVolume p r i])))\<rparr>"

definition spied_client :: "'w sdk \<Rightarrow> options \<Rightarrow> ('w \<times> sdk_call list) api" where
  "spied_client A opts =
     client_as_api \<lparr>client_api = spied A, client_projectID = opt_ProjectID opts, client_region = opt_Region opts\<rparr>"

lemma wrap_world [simp]:
  "snd (wrap_result f a rw) = snd rw" "snd (wrap_error f a ew) = snd ew" "snd (items xs) = snd xs"
proof -
  show "snd (wrap_result f a rw) = snd rw" by (cases rw; cases "fst rw"; simp add: wrap_result_def)
  show "snd (wrap_error f a ew) = snd ew" by (cases ew; cases "fst ew"; simp add: wrap_error_def)
  show "snd (items xs) = snd xs" by (cases xs; cases "fst xs"; auto simp: items_def split: option.split)
qed

lemma spied_calls:
  "snd (snd (api_CreateServer (spied_client A opts) pl wl)) = snd wl @ [SdkCreate (opt_ProjectID opts) (opt_Region opts) pl]"
  "snd (snd (api_GetServer (spied_client A opts) sid wl)) = snd wl"
  "snd (snd (api_DeleteServer (spied_client A opts) sid wl)) = snd wl @ [SdkDelete (opt_ProjectID opts) (opt_Region opts) sid]"
  "snd (snd (api_ListServers (spied_client A opts) sel wl)) = snd wl"
  "snd (snd (api_UpdateServerLabels (spied_client A opts) sid labels wl))
     = snd wl @ [SdkUpdate (opt_ProjectID opts) (opt_Region opts) sid (LabelsToAPI labels)]"
  "snd (snd (api_ListMachineTypes (spied_client A opts) wl)) = snd wl"
  "snd (snd (api_ListAvailabilityZones (spied_client A opts) wl)) = snd wl"
  by (simp_all add: spied_client_def client_as_api_def CreateServer_def GetServer_def DeleteServer_def ListServers_def
      UpdateServerLabels_def ListMachineTypes_def ListAvailabilityZones_def spied_def split_beta)

text \<open>The calls since a given point, all of one kind.\<close>

definition only_calls ::
  "sdk_call list \<Rightarrow> (sdk_call \<Rightarrow> bool) \<Rightarrow> ('c, 'ct, 'co, 'cd, 'ci, 'v, 'm, 'w \<times> sdk_call list, 'k) system \<Rightarrow> bool" where
  "only_calls start ok s \<longleftrightarrow> (\<exists>new. snd (sy_world s) = start @ new \<and> list_all ok new)"

definition is_delete :: "options \<Rightarrow> sdk_call \<Rightarrow> bool" where
  "is_delete opts c \<longleftrightarrow> (\<exists>sid. c = SdkDelete (opt_ProjectID opts) (opt_Region opts) sid)"

lemma only_calls_same: "snd (sy_world s') = snd (sy_world s) \<Longrightarrow> only_calls start ok s \<Longrightarrow> only_calls start ok s'"
  by (simp add: only_calls_def)

lemma only_calls_start: "only_calls (snd (sy_world s)) ok s"
  by (simp add: only_calls_def)

lemma ip_Get_calls:
  "ip_Get (instances_env P opts (spied_client A o2)) skip sid st = (i, a) \<Longrightarrow> snd (ips_world a) = snd (ips_world st)"
  using spied_calls(2) [of A o2 sid "ips_world st"]
  by (auto simp: ip_Get_def instances_env_def cache_put_def cache_drop_def Let_def split: option.splits prod.splits sum.splits if_splits)

lemma list_loop_calls: "snd (ips_world (snd (list_loop E servers st))) = snd (ips_world st)"
  by (induction servers arbitrary: st) (simp_all add: Let_def split_beta cache_put_def)

lemma ip_List_calls:
  "ip_List (instances_env P opts (spied_client A o2)) st = (is, a) \<Longrightarrow> snd (ips_world a) = snd (ips_world st)"
proof -
  let ?E = "instances_env P opts (spied_client A o2)"
  assume run: "ip_List ?E st = (is, a)"
  obtain r w where api: "api_ListServers (ip_client ?E) (LabelSelector [(LabelKeyManagedBy, ip_clusterName ?E)]) (ips_world st) = (r, w)"
    by (rule prod.exhaust)
  have w: "snd w = snd (ips_world st)"
    using spied_calls(4) [of A o2 "LabelSelector [(LabelKeyManagedBy, ip_clusterName ?E)]" "ips_world st"] api
    by (simp add: instances_env_def)
  show ?thesis
  proof (cases r)
    case (Inr servers)
    then have "a = snd (list_loop ?E servers (st\<lparr>ips_world := w\<rparr>))" using run api by (auto simp: ip_List_def split: prod.splits)
    then show ?thesis using list_loop_calls [of ?E servers "st\<lparr>ips_world := w\<rparr>"] w by simp
  qed (use run api w in \<open>auto simp: ip_List_def\<close>)
qed

lemma ip_Delete_calls:
  assumes "ip_Delete (instances_env P opts (spied_client A opts)) sid st = (e, a)"
  shows "snd (ips_world a) = snd (ips_world st)
     \<or> snd (ips_world a) = snd (ips_world st) @ [SdkDelete (opt_ProjectID opts) (opt_Region opts) sid]"
proof -
  let ?E = "instances_env P opts (spied_client A opts)"
  obtain i st1 where g: "ip_Get ?E True sid st = (i, st1)" by (rule prod.exhaust)
  note w1 = ip_Get_calls [OF g]
  obtain e2 w2 where d: "api_DeleteServer (ip_client ?E) sid (ips_world st1) = (e2, w2)" by (rule prod.exhaust)
  have "snd w2 = snd (ips_world st1) @ [SdkDelete (opt_ProjectID opts) (opt_Region opts) sid]"
    using spied_calls(3) [of A opts sid "ips_world st1"] d by (simp add: instances_env_def)
  then show ?thesis
    using assms g d w1
    by (auto simp: ip_Delete_def Let_def cache_drop_def split: sum.splits option.splits if_splits)
qed

lemma ip_Create_calls:
  assumes "ip_Create (instances_env P opts (spied_client A opts)) nc claim labels its st = (i, a)"
  shows "snd (ips_world a) = snd (ips_world st)
     \<or> (\<exists>it zone payload. cheapestOffering (pk_quantity P) (pk_sched P) its claim = Inr (it, zone)
          \<and> createPayload nc claim it zone labels = Inr payload
          \<and> snd (ips_world a) = snd (ips_world st) @ [SdkCreate (opt_ProjectID opts) (opt_Region opts) payload])"
proof -
  let ?E = "instances_env P opts (spied_client A opts)"
  have w: "snd (snd (api_CreateServer (ip_client ?E) payload (ips_world st)))
      = snd (ips_world st) @ [SdkCreate (opt_ProjectID opts) (opt_Region opts) payload]" for payload
    using spied_calls(1) [of A opts payload "ips_world st"] by (simp add: instances_env_def)
  have f: "ips_world (recordLaunchFailure ?E err t z st') = ips_world st'" for err t z st'
    by (simp add: recordLaunchFailure_def)
  show ?thesis
  proof (cases "cheapestOffering (ip_quantity ?E) (ip_sched ?E) its claim")
    case (Inl err)
    then show ?thesis using assms by (simp add: ip_Create_def)
  next
    case (Inr c)
    obtain it zone where c: "c = (it, zone)" by force
    show ?thesis
    proof (cases "createPayload nc claim it zone labels")
      case (Inl err)
      then show ?thesis using assms Inr c by (simp add: ip_Create_def)
    next
      case (Inr payload)
      obtain r w' where api: "api_CreateServer (ip_client ?E) payload (ips_world st) = (r, w')" by (rule prod.exhaust)
      then have "ips_world a = w'"
        using assms Inr c \<open>cheapestOffering (ip_quantity ?E) (ip_sched ?E) its claim = Inr c\<close> f
        by (cases r) (auto simp: ip_Create_def Let_def cache_put_def)
      with w [of payload] api Inr c \<open>cheapestOffering (ip_quantity ?E) (ip_sched ?E) its claim = Inr c\<close>
      show ?thesis by (auto simp: instances_env_def)
    qed
  qed
qed

lemma ip_UpdateLabels_calls:
  assumes "ip_UpdateLabels (instances_env P opts (spied_client A opts)) sid labels st = (e, a)"
  shows "snd (ips_world a) = snd (ips_world st)
     @ [SdkUpdate (opt_ProjectID opts) (opt_Region opts) sid (LabelsToAPI labels)]"
proof -
  let ?E = "instances_env P opts (spied_client A opts)"
  obtain r w where api: "api_UpdateServerLabels (ip_client ?E) sid labels (ips_world st) = (r, w)" by (rule prod.exhaust)
  have "snd w = snd (ips_world st) @ [SdkUpdate (opt_ProjectID opts) (opt_Region opts) sid (LabelsToAPI labels)]"
    using spied_calls(5) [of A opts sid labels "ips_world st"] api by (simp add: instances_env_def)
  then show ?thesis
    using assms api by (auto simp: ip_UpdateLabels_def cache_drop_def split: option.splits if_splits)
qed

text \<open>Listing calls nothing that changes anything; the garbage collector's part calls only deletions.\<close>

interpretation quiet: listing_keeps "types_env P opts (spied_client A opts)" "instances_env P opts (spied_client A opts)"
  "\<lambda>_. True" "\<lambda>_. only_calls start ok"
  for P :: "('c, 'ct, 'co, 'cd, 'ci, 'v, 'q, 'm, 'w \<times> sdk_call list) packages" and opts A start ok
  by unfold_locales
     (auto elim!: only_calls_same [rotated] simp: put_instances_def instances_part_def dest: ip_Get_calls ip_List_calls)

interpretation collecting: deletes_keep "types_env P opts (spied_client A opts)" "instances_env P opts (spied_client A opts)"
  "\<lambda>_. True" "\<lambda>_. only_calls start (is_delete opts)"
  for P :: "('c, 'ct, 'co, 'cd, 'ci, 'v, 'q, 'm, 'w \<times> sdk_call list) packages" and opts A start
proof (unfold_locales, goal_cases)
  case (1 b s sid e a)
  with ip_Delete_calls [OF 1(2)] show ?case
    by (auto simp: only_calls_def put_instances_def instances_part_def is_delete_def)
qed

text \<open>The client of the operator is the SDK's, and every SDK can be one that records.\<close>

definition spies :: "('c, 'ct, 'co, 'cd, 'ci, 'v, 'q, 'm, 'w \<times> sdk_call list) packages \<Rightarrow> bool" where
  "spies P \<longleftrightarrow> (\<forall>region sdk. pk_client P region = Inr sdk \<longrightarrow> (\<exists>A. sdk = spied A))"

lemma spied_operator:
  assumes "spies P" "NewOperator P opts None w = (Inr op, w')"
  shows "\<exists>A. op_StackitClient op = spied_client A opts \<and> op_types_env op = types_env P opts (spied_client A opts)
     \<and> op_instances_env op = instances_env P opts (spied_client A opts)"
proof -
  obtain client where c: "operator_client P opts None = Inr client" "op_StackitClient op = client"
      "op_types_env op = types_env P opts client" "op_instances_env op = instances_env P opts client"
    using NewOperator_parts [OF assms(2)] by blast
  then obtain sdk where "pk_client P (opt_Region opts) = Inr sdk"
      "client = client_as_api \<lparr>client_api = sdk, client_projectID = opt_ProjectID opts, client_region = opt_Region opts\<rparr>"
    by (auto simp: operator_client_def NewClient_def split: sum.splits if_splits)
  with assms(1) c show ?thesis unfolding spies_def spied_client_def by metis
qed

lemma status_calls:
  assumes "NodeClass_Reconcile (nodeclass_NewController K (spied_client A opts) region V d) nc st = (r, nc', a)"
  shows "snd (ncs_world a) = snd (ncs_world st)"
proof -
  let ?E = "nodeclass_NewController K (spied_client A opts) region V d"
  have l: "snd (ncs_world (snd (listAvailabilityZones ?E st))) = snd (ncs_world st)"
    using spied_calls(7) [of A opts "ncs_world st"]
    by (auto simp: listAvailabilityZones_def nodeclass_NewController_def split: option.splits prod.splits sum.splits)
  have "snd (ncs_world (snd (snd (resolveAvailabilityZones ?E nc st)))) = snd (ncs_world st)"
    using l by (auto simp: resolveAvailabilityZones_def Let_def split: prod.splits sum.splits if_splits)
  then show ?thesis
    using assms by (auto simp: NodeClass_Reconcile_def Let_def split: if_splits prod.splits option.splits)
qed

lemma UpdateMachineTypes_calls:
  assumes "UpdateMachineTypes (types_env P opts (spied_client A o2)) (st, wl) = (e, st', wl')"
  shows "snd wl' = snd wl"
proof -
  obtain r w where api: "api_ListMachineTypes (spied_client A o2) wl = (r, w)" by (rule prod.exhaust)
  then have "snd w = snd wl" using spied_calls(6) [of A o2 wl] by simp
  then show ?thesis using assms api
    by (cases r) (auto simp: UpdateMachineTypes_def Let_def split: if_splits prod.splits)
qed

lemma refresh_calls:
  assumes "Pricing_Reconcile overrides (MachineTypeSpecs (types_env P opts (spied_client A o2))) (prices, st, wl) = (r, prices', st', wl')"
  shows "snd wl' = snd wl"
proof -
  obtain x st1 w1 where s: "MachineTypeSpecs (types_env P opts (spied_client A o2)) (st, wl) = (x, st1, w1)" by (rule prod_cases3)
  have "snd w1 = snd wl"
    using s UpdateMachineTypes_calls [of P opts A o2 st wl]
    by (auto simp: MachineTypeSpecs_def split: if_splits prod.splits option.splits)
  then show ?thesis
    using assms s by (auto simp: Pricing_Reconcile_def UpdatePrices_def split: prod.splits option.splits sum.splits if_splits)
qed

lemma labeling_calls:
  assumes "built_on (types_env P opts (spied_client A opts)) (instances_env P opts (spied_client A opts)) (\<lambda>_. True) CE"
    and "Labeling_Reconcile (labeling_NewController K (cpe_instances CE) cluster) nc s = (r, s')"
  shows "snd (sy_world s') = snd (sy_world s)
     \<or> (\<exists>sid cl. ParseInstanceID (claim_provider_id nc) = Inr sid
          \<and> snd (sy_world s') = snd (sy_world s)
              @ [SdkUpdate (opt_ProjectID opts) (opt_Region opts) sid (LabelsToAPI (Some (ManagedLabels cl nc cluster)))])"
proof -
  let ?E = "labeling_NewController K (cpe_instances CE) cluster"
  have i: "lab_instances ?E = lift_provider instances_part put_instances (default_provider (instances_env P opts (spied_client A opts)))"
    using assms(1) by (simp add: labeling_NewController_def built_on_def)
  have g: "snd (sy_world t) = snd (sy_world s)" if "ipr_Get (lab_instances ?E) False sid s = (x, t)" for sid x t
    using that ip_Get_calls by (fastforce simp: i lift_provider_def default_provider_def on_part_Inr put_instances_def instances_part_def)
  have u: "snd (sy_world t') = snd (sy_world t) @ [SdkUpdate (opt_ProjectID opts) (opt_Region opts) sid (LabelsToAPI labels)]"
    if "ipr_UpdateLabels (lab_instances ?E) sid labels t = (e, t')" for sid labels t e t'
    using that ip_UpdateLabels_calls
    by (fastforce simp: i lift_provider_def default_provider_def on_part_Inr put_instances_def instances_part_def)
  have gu: "snd (sy_world t') = snd (sy_world s) @ [SdkUpdate (opt_ProjectID opts) (opt_Region opts) sid (LabelsToAPI labels)]"
    if "ipr_Get (lab_instances ?E) False sid s = (Inr x, t)" "ipr_UpdateLabels (lab_instances ?E) sid labels t = (e, t')" for sid x t labels e t'
    using g [OF that(1)] u [OF that(2)] by simp
  have c: "lab_clusterName ?E = cluster" by (simp add: labeling_NewController_def)
  show ?thesis
    using assms(2) unfolding Labeling_Reconcile_def c Let_def
    by (auto dest: g gu split: if_splits sum.splits option.splits prod.splits)
qed

definition adds ::
  "('c, 'ct, 'co, 'cd, 'ci, 'v, 'm, 'w \<times> sdk_call list, 'k) system
   \<Rightarrow> ('c, 'ct, 'co, 'cd, 'ci, 'v, 'm, 'w \<times> sdk_call list, 'k) system \<Rightarrow> sdk_call list \<Rightarrow> bool" where
  "adds s s' new \<longleftrightarrow> snd (sy_world s') = snd (sy_world s) @ new"

lemma adds_none: "only_calls (snd (sy_world s)) (\<lambda>_. False) s' \<Longrightarrow> adds s s' []"
  by (auto simp: only_calls_def adds_def list_all_iff)

lemma adds_some: "only_calls (snd (sy_world s)) ok s' \<Longrightarrow> \<exists>new. adds s s' new \<and> list_all ok new"
  by (auto simp: only_calls_def adds_def)

lemma reports_only_world: "reports_only c \<Longrightarrow> ct_reconcile c r s = Some (res, s') \<Longrightarrow> sy_world s' = sy_world s"
  unfolding reports_only_def by fastforce

lemma controller_calls:
  assumes "built_on (types_env P opts (spied_client A opts)) (instances_env P opts (spied_client A opts)) (\<lambda>_. True) CE"
    and "NewControllers ctx K order (spied_client A opts) V (cloud_of CE) (cpe_instances CE)
           (types_env P opts (spied_client A opts)) overrides conditions = Some cs"
    and "reports_only conditions" "FromContext ctx = Some (Some opts)" "c \<in> set cs" "ct_reconcile c r s = Some (res, s')"
  shows "adds s s' []
     \<or> ct_registration c = GC_Register \<and> (\<exists>new. adds s s' new \<and> list_all (is_delete opts) new)
     \<or> ct_registration c = Labeling_Register \<and> (\<exists>nc sid cl. r = ForNodeClaim nc \<and> ParseInstanceID (claim_provider_id nc) = Inr sid
          \<and> adds s s' [SdkUpdate (opt_ProjectID opts) (opt_Region opts) sid
               (LabelsToAPI (Some (ManagedLabels cl nc (opt_ClusterName opts))))])"
  using assms(2,5)
proof (cases rule: NewControllers_cases)
  case (1 o1)
  then have "adds s s' []" using assms(6)
    by (cases r) (auto simp: adds_def zones_part_def put_zones_part_def dest: status_calls split: prod.splits)
  then show ?thesis ..
next
  case 2
  then have "adds s s' []" using assms(6) by (cases r) (auto simp: adds_def split: prod.splits)
  then show ?thesis ..
next
  case 3
  then have "adds s s' []" using assms(6) by (cases r) (auto simp: adds_def split: prod.splits)
  then show ?thesis ..
next
  case 4
  then obtain x n s1 where g: "gc_Reconcile (gc_NewController K order (sy_now s) (cloud_of CE)) (sy_count s) s = Some (x, n, s1)"
      "s' = s1\<lparr>sy_count := n\<rparr>"
    using assms(6) by (cases r) auto
  have "only_calls (snd (sy_world s)) (is_delete opts) s1"
    by (rule collecting.gc_keeps [OF assms(1) only_calls_start g(1)])
  then have "\<exists>new. adds s s' new \<and> list_all (is_delete opts) new" using adds_some g(2) by (fastforce simp: adds_def)
  then show ?thesis using 4(1) by blast
next
  case (5 o1)
  then obtain nc where r: "r = ForNodeClaim nc" "Labeling_Reconcile (labeling_NewController K (cpe_instances CE) (opt_ClusterName opts)) nc s = (res, s')"
    using assms(4,6) by (cases r) auto
  with labeling_calls [OF assms(1) r(2)] 5(2) show ?thesis by (auto simp: adds_def)
next
  case 6
  then have "adds s s' []" using assms(6)
    by (cases r) (auto simp: adds_def InstanceType_Reconcile_def dest: UpdateMachineTypes_calls split: prod.splits option.splits)
  then show ?thesis ..
next
  case 7
  then have "adds s s' []" using assms(6)
    by (cases r) (auto simp: adds_def dest: refresh_calls split: prod.splits)
  then show ?thesis ..
next
  case 8
  then have "adds s s' []" using reports_only_world [OF assms(3)] assms(6) by (simp add: adds_def)
  then show ?thesis ..
qed

lemma cloud_calls:
  assumes "built_on (types_env P opts (spied_client A opts)) (instances_env P opts (spied_client A opts)) (\<lambda>_. True) CE"
  shows "cp_Get CE p s = Some (got, s') \<Longrightarrow> adds s s' []"
    and "cp_List CE s = Some (listed, s') \<Longrightarrow> adds s s' []"
    and "GetInstanceTypes CE np s = Some (its, s') \<Longrightarrow> adds s s' []"
    and "IsDrifted CE nc s = (reason, s') \<Longrightarrow> adds s s' []"
  using quiet.cp_Get_keeps [OF assms only_calls_start] quiet.cp_List_keeps [OF assms only_calls_start]
    quiet.GetInstanceTypes_keeps [OF assms only_calls_start] quiet.IsDrifted_keeps [OF assms only_calls_start]
  by (auto intro!: adds_none)

lemma cp_Delete_calls:
  assumes "built_on (types_env P opts (spied_client A opts)) (instances_env P opts (spied_client A opts)) (\<lambda>_. True) CE"
    and "cp_Delete CE nc s = (e, s')"
  shows "adds s s' [] \<or> (\<exists>sid. ParseInstanceID (claim_provider_id nc) = Inr sid
     \<and> adds s s' [SdkDelete (opt_ProjectID opts) (opt_Region opts) sid])"
proof (cases "ParseInstanceID (claim_provider_id nc)")
  case (Inr sid)
  obtain a where "ip_Delete (instances_env P opts (spied_client A opts)) sid (instances_part s) = (e, a)" "s' = put_instances a s"
    using assms Inr by (auto simp: cp_Delete_def built_on_def lift_provider_def default_provider_def on_part_Inr)
  with ip_Delete_calls [OF this(1)] Inr show ?thesis by (auto simp: adds_def put_instances_def instances_part_def)
qed (use assms(2) in \<open>simp add: cp_Delete_def adds_def\<close>)

lemma cp_Create_calls:
  assumes "built_on (types_env P opts (spied_client A opts)) (instances_env P opts (spied_client A opts)) (\<lambda>_. True) CE"
    and "cp_Create CE nc s = Some (created, s')"
  shows "adds s s' [] \<or> (\<exists>cl its st it zone payload. resolveNodeClassFromNodeClaim CE nc s = Inr cl
     \<and> itp_List (types_env P opts (spied_client A opts)) (Some (Price (sy_prices s))) (sy_uo s) cl (sy_types s) = Some (Inr its, st)
     \<and> cheapestOffering (pk_quantity P) (pk_sched P) its nc = Inr (it, zone)
     \<and> createPayload cl nc it zone (Some (ManagedLabels cl nc (cpe_clusterName CE))) = Inr payload
     \<and> adds s s' [SdkCreate (opt_ProjectID opts) (opt_Region opts) payload])"
proof (cases "resolveNodeClassFromNodeClaim CE nc s")
  case (Inl err)
  have "sy_world (cpe_publish CE ev s) = sy_world s" for ev
  proof -
    obtain k where "cpe_publish CE ev s = s\<lparr>sy_kube := k\<rparr>" using assms(1) unfolding built_on_def by blast
    then show ?thesis by simp
  qed
  then show ?thesis using assms(2) Inl by (auto simp: cp_Create_def adds_def split: if_splits)
next
  case (Inr cl)
  let ?TE = "types_env P opts (spied_client A opts)" and ?IE = "instances_env P opts (spied_client A opts)"
  have c: "cpe_types CE = default_type_provider ?TE (\<lambda>s. Some (Price (sy_prices s))) sy_uo sy_types (\<lambda>st s. s\<lparr>sy_types := st\<rparr>)"
      "cpe_instances CE = lift_provider instances_part put_instances (default_provider ?IE)"
    using assms(1) by (simp_all add: built_on_def)
  show ?thesis
  proof (cases "\<exists>its st. itp_List ?TE (Some (Price (sy_prices s))) (sy_uo s) cl (sy_types s) = Some (Inr its, st)
      \<and> (\<exists>i s2. ipr_Create (cpe_instances CE) cl nc (Some (ManagedLabels cl nc (cpe_clusterName CE))) its (s\<lparr>sy_types := st\<rparr>) = (i, s2) \<and> s' = s2)")
    case True
    then obtain its st i a where l: "itp_List ?TE (Some (Price (sy_prices s))) (sy_uo s) cl (sy_types s) = Some (Inr its, st)"
        "ip_Create ?IE cl nc (Some (ManagedLabels cl nc (cpe_clusterName CE))) its (instances_part (s\<lparr>sy_types := st\<rparr>)) = (i, a)"
        "s' = put_instances a (s\<lparr>sy_types := st\<rparr>)"
      by (auto simp: c lift_provider_def default_provider_def on_part_Inr)
    with ip_Create_calls [OF l(2)] Inr show ?thesis
      by (fastforce simp: adds_def put_instances_def instances_part_def)
  next
    case False
    then have "sy_world s' = sy_world s"
      using assms(2) Inr
      by (auto simp: cp_Create_def Let_def c(1) default_type_provider_def split: if_splits option.splits sum.splits prod.splits)
    then show ?thesis by (simp add: adds_def)
  qed
qed

lemma spied_started:
  assumes "main ctx P K order decorate conditions now w k = Started prog" "transparent decorate" "reports_only conditions"
    and "spies P" "FromContext ctx = Some (Some opts)"
  obtains A where
    "built_on (types_env P opts (spied_client A opts)) (instances_env P opts (spied_client A opts)) (\<lambda>_. True) (pr_cloud prog)"
    "NewControllers ctx K order (spied_client A opts) (pk_validation P) (cloud_of (pr_cloud prog)) (cpe_instances (pr_cloud prog))
       (types_env P opts (spied_client A opts)) (opt_PricingOverrides opts) conditions = Some (pr_controllers prog)"
    "cpe_clusterName (pr_cloud prog) = opt_ClusterName opts" "operator_client P opts None = Inr (spied_client A opts)"
proof -
  obtain o2 op w' where o2: "FromContext ctx = Some (Some o2)" "NewOperator P o2 None w = (Inr op, w')" "pr_cloud prog = cp_New op K o2"
      and p: "NewControllers ctx K order (op_StackitClient op) (pk_validation P) (cloud_of (pr_cloud prog)) (cpe_instances (pr_cloud prog))
       (op_types_env op) (op_overrides op) conditions = Some (pr_controllers prog)"
    by (rule started_assembled [OF assms(1-3)])
  then have p: "NewOperator P opts None w = (Inr op, w')" "pr_cloud prog = cp_New op K opts"
      "NewControllers ctx K order (op_StackitClient op) (pk_validation P) (cloud_of (pr_cloud prog)) (cpe_instances (pr_cloud prog))
       (op_types_env op) (op_overrides op) conditions = Some (pr_controllers prog)"
    using assms(5) by simp_all
  obtain A where A: "op_StackitClient op = spied_client A opts" "op_types_env op = types_env P opts (spied_client A opts)"
      "op_instances_env op = instances_env P opts (spied_client A opts)"
    using spied_operator [OF assms(4) p(1)] by blast
  have o: "op_overrides op = opt_PricingOverrides opts" "operator_client P opts None = Inr (spied_client A opts)"
    using NewOperator_parts [OF p(1)] A(1) by auto
  show thesis
  proof (rule that)
    show "built_on (types_env P opts (spied_client A opts)) (instances_env P opts (spied_client A opts)) (\<lambda>_. True) (pr_cloud prog)"
      by (auto simp: built_on_def p(2) cp_New_sel A)
    show "NewControllers ctx K order (spied_client A opts) (pk_validation P) (cloud_of (pr_cloud prog)) (cpe_instances (pr_cloud prog))
       (types_env P opts (spied_client A opts)) (opt_PricingOverrides opts) conditions = Some (pr_controllers prog)"
      using p(3) by (simp only: A o)
    show "cpe_clusterName (pr_cloud prog) = opt_ClusterName opts" by (simp add: p(2) cp_New_def)
    show "operator_client P opts None = Inr (spied_client A opts)" by (rule o(2))
  qed
qed

section \<open>Properties\<close>

text \<open>
  C6 The running program never goes blind: from the start on, whatever Karpenter calls, whatever
  the controllers, the caches, STACKIT and the cluster do, asking for the instance types of a
  NodePool reports an error only when its NodeClass cannot be resolved or has no resolved zone,
  and a launch fails to resolve instance types only in the latter case.
\<close>

theorem System_serves:
  assumes "main ctx P K order decorate conditions now w k = Started prog" "transparent decorate" "reports_only conditions"
    and "cache_laws (pk_type_cache P)" "sys_run P prog n s"
  shows "(GetInstanceTypes (pr_cloud prog) np s = Some (Inl err, s1) \<longrightarrow>
        \<not> is_ok (resolveNodeClassFromNodePool (pr_cloud prog) np s)
        \<or> (\<exists>cl. resolveNodeClassFromNodePool (pr_cloud prog) np s = Inr cl \<and> availability_zone_ids cl = []))
     \<and> (cp_Create (pr_cloud prog) nc s = Some (Inl (CreateError e ''InstanceTypeResolutionFailed'' m), s2) \<longrightarrow>
        (\<exists>cl. resolveNodeClassFromNodeClaim (pr_cloud prog) nc s = Inr cl \<and> availability_zone_ids cl = []))"
proof -
  have l: "itp_machine_types (sy_types s) \<noteq> []" using catalogue_kept [OF assms] by (simp add: loaded_def)
  obtain op opts where CE: "pr_cloud prog = cp_New op K opts" using started_assembled [OF assms(1-3)] by metis
  have list: "availability_zone_ids cl = []" if "tpr_List (cpe_types (pr_cloud prog)) cl s = Some (Inl err, s1)" for cl err s1
    using that l
    by (auto simp: CE cp_New_sel default_type_provider_def itp_List_def Let_def split_beta split: if_splits option.splits bind_splits)
  show ?thesis
    using list
    by (auto simp: GetInstanceTypes_def cp_Create_def Let_def split: sum.splits if_splits option.splits prod.splits)
qed

text \<open>
  C5 What the program changes at STACKIT is accounted for. A reconcile of a controller changes
  nothing, except that garbage collection deletes servers and that labeling updates the labels of
  the server of the NodeClaim it was run for, at most once; \<open>Create\<close> makes at most one server;
  \<open>Delete\<close> at most deletes the server of its NodeClaim; the other operations change nothing. And
  every change is in the project and the region of the options.
\<close>

theorem Calls_accounted:
  assumes "main ctx P K order decorate conditions now w k = Started prog" "transparent decorate" "reports_only conditions"
    and "spies P" "FromContext ctx = Some (Some opts)"
  shows "(c \<in> set (pr_controllers prog) \<longrightarrow> ct_reconcile c r s = Some (res, s') \<longrightarrow>
       adds s s' []
       \<or> ct_registration c = GC_Register \<and> (\<exists>new. adds s s' new \<and> list_all (is_delete opts) new)
       \<or> ct_registration c = Labeling_Register \<and> (\<exists>nc sid cl. r = ForNodeClaim nc \<and> ParseInstanceID (claim_provider_id nc) = Inr sid
            \<and> adds s s' [SdkUpdate (opt_ProjectID opts) (opt_Region opts) sid
                 (LabelsToAPI (Some (ManagedLabels cl nc (opt_ClusterName opts))))]))
   \<and> (cp_Create (pr_cloud prog) nc s = Some (created, s') \<longrightarrow>
       adds s s' [] \<or> (\<exists>payload. adds s s' [SdkCreate (opt_ProjectID opts) (opt_Region opts) payload]))
   \<and> (cp_Delete (pr_cloud prog) nc s = (e, s') \<longrightarrow>
       adds s s' [] \<or> (\<exists>sid. ParseInstanceID (claim_provider_id nc) = Inr sid
         \<and> adds s s' [SdkDelete (opt_ProjectID opts) (opt_Region opts) sid]))
   \<and> (cp_Get (pr_cloud prog) p s = Some (got, s') \<or> cp_List (pr_cloud prog) s = Some (listed, s')
       \<or> GetInstanceTypes (pr_cloud prog) np s = Some (its, s') \<or> IsDrifted (pr_cloud prog) nc s = (reason, s') \<longrightarrow> adds s s' [])"
proof -
  obtain A where A:
      "built_on (types_env P opts (spied_client A opts)) (instances_env P opts (spied_client A opts)) (\<lambda>_. True) (pr_cloud prog)"
      "NewControllers ctx K order (spied_client A opts) (pk_validation P) (cloud_of (pr_cloud prog)) (cpe_instances (pr_cloud prog))
         (types_env P opts (spied_client A opts)) (opt_PricingOverrides opts) conditions = Some (pr_controllers prog)"
    using spied_started [OF assms] by metis
  show ?thesis
  proof (intro conjI impI)
    assume "c \<in> set (pr_controllers prog)" "ct_reconcile c r s = Some (res, s')"
    then show "adds s s' []
       \<or> ct_registration c = GC_Register \<and> (\<exists>new. adds s s' new \<and> list_all (is_delete opts) new)
       \<or> ct_registration c = Labeling_Register \<and> (\<exists>nc sid cl. r = ForNodeClaim nc \<and> ParseInstanceID (claim_provider_id nc) = Inr sid
            \<and> adds s s' [SdkUpdate (opt_ProjectID opts) (opt_Region opts) sid
                 (LabelsToAPI (Some (ManagedLabels cl nc (opt_ClusterName opts))))])"
      by (rule controller_calls [OF A assms(3,5)])
  next
    assume "cp_Create (pr_cloud prog) nc s = Some (created, s')"
    from cp_Create_calls [OF A(1) this]
    show "adds s s' [] \<or> (\<exists>payload. adds s s' [SdkCreate (opt_ProjectID opts) (opt_Region opts) payload])" by blast
  next
    assume "cp_Delete (pr_cloud prog) nc s = (e, s')"
    from cp_Delete_calls [OF A(1) this]
    show "adds s s' [] \<or> (\<exists>sid. ParseInstanceID (claim_provider_id nc) = Inr sid
         \<and> adds s s' [SdkDelete (opt_ProjectID opts) (opt_Region opts) sid])" .
  next
    assume "cp_Get (pr_cloud prog) p s = Some (got, s') \<or> cp_List (pr_cloud prog) s = Some (listed, s')
       \<or> GetInstanceTypes (pr_cloud prog) np s = Some (its, s') \<or> IsDrifted (pr_cloud prog) nc s = (reason, s')"
    then show "adds s s' []" using cloud_calls [OF A(1)] by blast
  qed
qed

section \<open>A program\<close>

definition spied_packages ::
  "machine_type list \<Rightarrow>
   (unit timed, rat instance_type list timed, offering list timed, rat timed, server_instance timed, string list timed,
    rat, machine_type list, unit \<times> sdk_call list) packages" where
  "spied_packages mts =
     \<lparr>pk_client = (\<lambda>region. Inr (spied (sample_sdk mts))), pk_quantity = rat_quantity, pk_sched = simple_sched, pk_lower = id,
      pk_oor = (\<lambda>_. 0), pk_key_hash = (\<lambda>_. 7), pk_zone_hash = (\<lambda>zs. int (length zs)), pk_uo_cache = timed_cache,
      pk_type_cache = timed_cache, pk_offer_cache = timed_cache, pk_discovered = timed_cache,
      pk_instance_cache = timed_cache, pk_validation = timed_cache, pk_changed = (\<lambda>_ mts m. (mts \<noteq> m, mts)), pk_monitor = []\<rparr>"

definition sample_kube :: "nodeclass \<Rightarrow> (rat, unit) kube" where
  "sample_kube nodeClass =
     \<lparr>kb_get_nodeclass = (\<lambda>name k. Inr nodeClass), kb_get_nodepool = (\<lambda>name k. Inl (newNotFound ''nodepools.karpenter.sh'' name)),
      kb_list_managed = (\<lambda>k. Inr []), kb_list_for = (\<lambda>nc k. (Inr [], k)), kb_list_nodes = (\<lambda>k. Inr []),
      kb_delete_node = (\<lambda>node k. (None, k)), kb_patch_claim = (\<lambda>old new k. (None, k)), kb_patch_class = (\<lambda>old new k. (None, k)),
      kb_patch_status = (\<lambda>old new k. (None, k)), kb_publish = (\<lambda>ev k. k), kb_eventf = (\<lambda>nc reason message n k. k),
      kb_set_condition = simple_set, kb_ready = (\<lambda>_. sample_ready), kb_text = (\<lambda>_. []), kb_hash = (\<lambda>_. ''42''),
      kb_allocatable = it_capacity\<rparr>"

definition sample_conditions :: "('q, 's) kube_controller" where
  "sample_conditions =
     \<lparr>ct_registration = \<lparr>reg_name = ''operatorpkg.stackitnodeclass.status'', reg_source = NodeClassSource, reg_max = Some 10,
        reg_limited = False\<rparr>, ct_filter = (\<lambda>r. True), ct_reconcile = (\<lambda>r s. Some (Inr 0, s))\<rparr>"

definition sample_ctx :: go_context where
  "sample_ctx = ToContext Background (Some sample_options)"

lemma sample_ctx [simp]: "FromContext sample_ctx = Some (Some sample_options)"
  by (simp add: sample_ctx_def)

lemma spied_packages_sel:
  "spies (spied_packages mts)" "pk_type_cache (spied_packages mts) = timed_cache" "pk_offer_cache (spied_packages mts) = timed_cache"
  "pk_uo_cache (spied_packages mts) = timed_cache" "pk_sched (spied_packages mts) = simple_sched"
  "pk_client (spied_packages mts) region = Inr (spied (sample_sdk mts))"
  by (auto simp: spies_def spied_packages_def)

lemma sample_parts:
  "transparent id"
  "reports_only (sample_conditions :: ('q, ('c, 'ct, 'co, 'cd, 'ci, 'v, 'm, 'w, 'k) system) kube_controller)"
proof -
  show "reports_only (sample_conditions :: ('q, ('c, 'ct, 'co, 'cd, 'ci, 'v, 'm, 'w, 'k) system) kube_controller)"
    unfolding reports_only_def
  proof (intro allI impI)
    fix r :: "'q request" and res and s s' :: "('c, 'ct, 'co, 'cd, 'ci, 'v, 'm, 'w, 'k) system"
    assume "ct_reconcile sample_conditions r s = Some (res, s')"
    then have "s' = s\<lparr>sy_kube := sy_kube s\<rparr>" by (simp add: sample_conditions_def)
    then show "\<exists>k. s' = s\<lparr>sy_kube := k\<rparr>" by blast
  qed
qed (simp add: transparent_def)

lemma sample_started:
  "\<exists>prog. main sample_ctx (spied_packages [sample_type]) (sample_kube cl) (\<lambda>n. [0..<n]) id sample_conditions 0 ((), []) () = Started prog"
proof -
  have api: "ListMachineTypes \<lparr>client_api = spied (sample_sdk [sample_type]), client_projectID = p, client_region = r\<rparr> ((), [])
      = (Inr [sample_type], (), [])" for p r
    by (simp add: ListMachineTypes_def spied_def sample_sdk_def items_def wrap_result_def)
  have "is_ok (fst (NewOperator (spied_packages [sample_type]) sample_options None ((), [])))"
    by (simp add: NewOperator_ok_iff operator_client_def NewClient_def client_as_api_def sample_options_def api spied_packages_sel)
  then obtain op where "fst (NewOperator (spied_packages [sample_type]) sample_options None ((), [])) = Inr op"
    by (auto simp: is_ok_iff)
  then obtain w where "NewOperator (spied_packages [sample_type]) sample_options None ((), []) = (Inr op, w)"
    by (metis prod.collapse)
  then show ?thesis by (cases w) (auto simp: main_started NewControllers_def)
qed

theorem System_serves_witness:
  "\<exists>prog. main sample_ctx (spied_packages [sample_type]) (sample_kube sample_nodeclass) (\<lambda>n. [0..<n]) id sample_conditions 0 ((), []) ()
       = Started prog
     \<and> (\<forall>s1 e m. cp_Create (pr_cloud prog) sample_claim (pr_start prog)
          \<noteq> Some (Inl (CreateError e ''InstanceTypeResolutionFailed'' m), s1))"
proof -
  obtain prog where prog: "main sample_ctx (spied_packages [sample_type]) (sample_kube sample_nodeclass) (\<lambda>n. [0..<n]) id
      sample_conditions 0 ((), []) () = Started prog"
    using sample_started by blast
  obtain op where CE: "pr_cloud prog = cp_New op (sample_kube sample_nodeclass) sample_options"
    using prog by (auto simp: main_started)
  have "\<forall>cl. resolveNodeClassFromNodeClaim (pr_cloud prog) sample_claim (pr_start prog) = Inr cl \<longrightarrow> cl = sample_nodeclass"
    by (auto simp: resolveNodeClassFromNodeClaim_def CE cp_New_sel sample_kube_def split: option.splits if_splits)
  moreover have "availability_zone_ids sample_nodeclass \<noteq> []" by (simp add: availability_zone_ids_def sample_nodeclass_def)
  moreover have "cache_laws (pk_type_cache (spied_packages [sample_type]))" by (simp add: spied_packages_sel timed_cache_laws)
  ultimately show ?thesis
    using System_serves [OF prog sample_parts _ sys_start] prog by blast
qed

theorem Calls_accounted_witness:
  "\<exists>prog. main sample_ctx (spied_packages [sample_type]) (sample_kube sample_nodeclass) (\<lambda>n. [0..<n]) id sample_conditions 0 ((), []) ()
       = Started prog
     \<and> (\<forall>c r s res s'. c \<in> set (pr_controllers prog) \<longrightarrow> ct_reconcile c r s = Some (res, s') \<longrightarrow>
          ct_registration c = Status_Register \<longrightarrow> adds s s' [])"
proof -
  obtain prog where prog: "main sample_ctx (spied_packages [sample_type]) (sample_kube sample_nodeclass) (\<lambda>n. [0..<n]) id
      sample_conditions 0 ((), []) () = Started prog"
    using sample_started by blast
  have "Status_Register \<noteq> GC_Register" "Status_Register \<noteq> Labeling_Register"
    by (simp_all add: Status_Register_def GC_Register_def Labeling_Register_def)
  then show ?thesis
    using Calls_accounted [OF prog sample_parts spied_packages_sel(1) sample_ctx] prog by (intro exI [of _ prog]) metis
qed

end
