(* ===== verification/LaunchSafety.thy ===== *)
theory LaunchSafety
  imports Running
begin

text \<open>
  The running program and what is known to be unavailable. The record of unavailable offerings is
  shared by the launches, which mark, and by the offerings of the instance types, which are cached
  under the record's sequence numbers; entries expire, and the cleanup of expired entries moves
  the numbers too. With one set of zones a launch is never sent for what is marked.
\<close>

section \<open>Cached offerings\<close>

lemma InjectOfferings_ok:
  assumes "cache_laws OC"
  shows "offers_ok C OC zh region zones b u st \<Longrightarrow> InjectOfferings C OC zh price u its region zones st = (its', st') \<Longrightarrow>
     offers_ok C OC zh region zones b u st'
     \<and> (list_all (no_colon \<circ> it_name) its \<longrightarrow> list_all (no_colon \<circ> it_name) its'
          \<and> (b < 2 ^ 64 \<longrightarrow> (\<forall>it \<in> set its'. safe_offers C u (it_name it) (it_offerings it))))"
proof (induction its arbitrary: st its')
  case (Cons it its)
  obtain os st1 where c: "createOfferings C OC zh price u (it_name it) region zones st = (os, st1)" by force
  obtain rest where r: "InjectOfferings C OC zh price u its region zones st1 = (rest, st')"
      "its' = it\<lparr>it_offerings := os\<rparr> # rest"
    using Cons.prems(2) c by (auto simp: Let_def split: prod.splits)
  note o = createOfferings_ok [OF assms Cons.prems(1) c]
  from Cons.IH [OF conjunct1 [OF o] r(1)] o r(2) show ?case by auto
qed simp

section \<open>The invariant\<close>

text \<open>No machine type of the catalogue, or of a cached listing, has a colon in its name.\<close>

definition typed_catalogue :: "('ct, 'q instance_type list) cache_ops \<Rightarrow> ('ct, 'co, 'cd, 'm) itp_state \<Rightarrow> bool" where
  "typed_catalogue TC st \<longleftrightarrow>
     (\<forall>(name, mt) \<in> set (itp_machine_types st). no_colon (mt_name mt))
     \<and> (\<forall>key its. c_get TC (itp_types st) key = Some its \<longrightarrow> list_all (no_colon \<circ> it_name) its)"

definition typed_names :: "'w api \<Rightarrow> bool" where
  "typed_names A \<longleftrightarrow> (\<forall>w mts w'. api_ListMachineTypes A w = (Inr mts, w') \<longrightarrow> (\<forall>mt \<in> set mts. no_colon (mt_name mt)))"

definition launch_laws :: "('c, 'ct, 'co, 'cd, 'ci, 'v, 'q, 'm, 'w) packages \<Rightarrow> 'w api \<Rightarrow> bool" where
  "launch_laws P client \<longleftrightarrow> cache_laws (pk_uo_cache P) \<and> cache_laws (pk_type_cache P) \<and> cache_laws (pk_offer_cache P)
     \<and> sched_laws (pk_sched P) \<and> typed_names client"

definition launch_inv ::
  "('c, 'ct, 'co, 'cd, 'ci, 'v, 'q, 'm, 'w) packages \<Rightarrow> options \<Rightarrow> string list \<Rightarrow> nat
   \<Rightarrow> ('c, 'ct, 'co, 'cd, 'ci, 'v, 'm, 'w, 'k) system \<Rightarrow> bool" where
  "launch_inv P opts zones b s \<longleftrightarrow> typed_catalogue (pk_type_cache P) (sy_types s)
     \<and> offers_ok (pk_uo_cache P) (pk_offer_cache P) (pk_zone_hash P) (opt_Region opts) zones b (sy_uo s) (itp_offers (sy_types s))"

lemma itp_all_typed:
  "\<forall>(name, mt) \<in> set (itp_machine_types st). no_colon (mt_name mt) \<Longrightarrow> itp_all E nc st names = Some its \<Longrightarrow>
     list_all (no_colon \<circ> it_name) its"
proof (induction names arbitrary: its)
  case (Cons name names)
  then obtain r rest where r: "itp_get E nc name st = Some r" "itp_all E nc st names = Some rest"
      "its = (case r of Inl _ \<Rightarrow> rest | Inr it \<Rightarrow> it # rest)"
    by (auto split: bind_splits)
  have "no_colon (it_name it)" if ok: "r = Inr it" for it
  proof -
    obtain mt it0 where mt: "map_of (itp_machine_types st) name = Some mt" "it_name it = it_name it0"
        "Resolve (env_quantity E) (env_lower E) (env_oor E) (env_share E) (env_region E) mt nc = Some it0"
      using r(1) ok by (auto simp: itp_get_def split: option.splits bind_splits)
    from map_of_SomeD [OF mt(1)] Cons.prems(1) have "no_colon (mt_name mt)" by fastforce
    with mt(2) Resolve_name [OF mt(3)] show ?thesis by simp
  qed
  with Cons.IH [OF Cons.prems(1) r(2)] r(3) show ?case by (cases r) simp_all
qed simp

lemma itp_List_ok:
  assumes laws: "launch_laws P client" and cat: "typed_catalogue (pk_type_cache P) st"
    and off: "offers_ok (pk_uo_cache P) (pk_offer_cache P) (pk_zone_hash P) (opt_Region opts) zones b u (itp_offers st)"
    and nc: "availability_zone_ids nc \<in> {[], zones}"
    and run: "itp_List (types_env P opts client) (Some price) u nc st = Some (r, st')"
  shows "typed_catalogue (pk_type_cache P) st'
     \<and> offers_ok (pk_uo_cache P) (pk_offer_cache P) (pk_zone_hash P) (opt_Region opts) zones b u (itp_offers st')
     \<and> (\<forall>its. r = Inr its \<longrightarrow> list_all (no_colon \<circ> it_name) its
          \<and> (b < 2 ^ 64 \<longrightarrow> (\<forall>it \<in> set its. safe_offers (pk_uo_cache P) u (it_name it) (it_offerings it))))"
proof (cases "itp_machine_types st = [] \<or> availability_zone_ids nc = []")
  case True
  then show ?thesis using run cat off by (auto simp: itp_List_def Let_def split: if_splits)
next
  case False
  let ?E = "types_env P opts client"
  let ?key = "Resolver_CacheKey (env_key_hash ?E) (env_region ?E) nc"
  have z: "availability_zone_ids nc = zones" using nc False by simp
  have E: "env_type_cache ?E = pk_type_cache P" "env_offer_cache ?E = pk_offer_cache P" "env_uo_cache ?E = pk_uo_cache P"
      "env_zone_hash ?E = pk_zone_hash P" "env_region ?E = opt_Region opts" by simp_all
  have laws': "cache_laws (pk_type_cache P)" "cache_laws (pk_offer_cache P)" using laws by (simp_all add: launch_laws_def)
  obtain its st1 where its: "list_all (no_colon \<circ> it_name) its" "typed_catalogue (pk_type_cache P) st1" "itp_offers st1 = itp_offers st"
    and run1: "(let (its', offers) = InjectOfferings (pk_uo_cache P) (pk_offer_cache P) (pk_zone_hash P) price u its
          (opt_Region opts) zones (itp_offers st1) in Some (Inr its', st1\<lparr>itp_offers := offers\<rparr>)) = Some (r, st')"
  proof (cases "c_get (pk_type_cache P) (itp_types st) ?key")
    case (Some item)
    moreover from this have "list_all (no_colon \<circ> it_name) item" using cat unfolding typed_catalogue_def by blast
    ultimately show thesis using that [of item st] run False cat z by (simp add: itp_List_def Let_def E)
  next
    case None
    then obtain its where all: "itp_all ?E nc st (keys (itp_machine_types st)) = Some its"
      using run False by (auto simp: itp_List_def Let_def E split: bind_splits)
    have n: "list_all (no_colon \<circ> it_name) its"
      using itp_all_typed [OF _ all] cat unfolding typed_catalogue_def by blast
    have "typed_catalogue (pk_type_cache P) (st\<lparr>itp_types := c_set (pk_type_cache P) ?key its (itp_types st)\<rparr>)"
      using cat n laws'(1) by (auto simp: typed_catalogue_def)
    then show thesis
      using that [of its "st\<lparr>itp_types := c_set (pk_type_cache P) ?key its (itp_types st)\<rparr>"] n run False None all z
      by (simp add: itp_List_def Let_def E)
  qed
  obtain its' offers where inj: "InjectOfferings (pk_uo_cache P) (pk_offer_cache P) (pk_zone_hash P) price u its
      (opt_Region opts) zones (itp_offers st1) = (its', offers)" by force
  then have "r = Inr its'" "st' = st1\<lparr>itp_offers := offers\<rparr>" using run1 by simp_all
  with InjectOfferings_ok [OF laws'(2) off [folded its(3)] inj] its(1,2) show ?thesis by (simp add: typed_catalogue_def)
qed

text \<open>A launch marks at most the machine type and the zone that were chosen.\<close>

lemma ip_Create_marks:
  assumes "sched_laws (ip_sched E)" "list_all (no_colon \<circ> it_name) its" "ip_Create E nc claim labels its st = (i, a)"
  shows "ips_uo a = ips_uo st \<or> (\<exists>m. mark_typed no_colon m \<and> ips_uo a = uo_apply_mark (ip_uo_ops E) m (ips_uo st))"
proof (cases "cheapestOffering (ip_quantity E) (ip_sched E) its claim")
  case (Inl err)
  then show ?thesis using assms(3) by (simp add: ip_Create_def)
next
  case (Inr c)
  obtain it zone where c: "c = (it, zone)" by force
  obtain x where "(it, x) \<in> candidates (ip_quantity E) (ip_sched E) claim its"
    using chosen_candidate [OF assms(1)] Inr c by blast
  from candidates_available [OF assms(1) this] assms(2) have it: "no_colon (it_name it)" by (simp add: list_all_iff)
  show ?thesis
    using assms(3) Inr c it
    by (auto simp: ip_Create_def recordLaunchFailure_def cache_put_def Let_def uo_apply_mark_def split: sum.splits prod.splits if_splits
        intro: exI [of _ "MarkOffering (it_name it) zone"] exI [of _ "MarkZone zone"])
qed

lemma ip_uo_same:
  "ip_Get E skip sid st = (i, a) \<Longrightarrow> ips_uo a = ips_uo st"
  "ip_UpdateLabels E sid labels st = (e, a) \<Longrightarrow> ips_uo a = ips_uo st"
  by (auto simp: ip_Get_def ip_UpdateLabels_def cache_put_def cache_drop_def Let_def
      split: option.splits prod.splits sum.splits if_splits)

lemma list_loop_uo: "ips_uo (snd (list_loop E servers st)) = ips_uo st"
  by (induction servers arbitrary: st) (simp_all add: Let_def split_beta cache_put_def)

lemma ip_List_uo:
  assumes "ip_List E st = (is, a)"
  shows "ips_uo a = ips_uo st"
proof -
  obtain r w where api: "api_ListServers (ip_client E) (LabelSelector [(LabelKeyManagedBy, ip_clusterName E)]) (ips_world st) = (r, w)"
    by (rule prod.exhaust)
  show ?thesis
  proof (cases r)
    case (Inr servers)
    then have "a = snd (list_loop E servers (st\<lparr>ips_world := w\<rparr>))" using assms api by (auto simp: ip_List_def split: prod.splits)
    then show ?thesis using list_loop_uo [of E servers "st\<lparr>ips_world := w\<rparr>"] by simp
  qed (use assms api in \<open>auto simp: ip_List_def\<close>)
qed

lemma ip_Delete_uo: "ip_Delete E sid st = (e, a) \<Longrightarrow> ips_uo a = ips_uo st"
  using ip_uo_same(1) [of E True sid st]
  by (auto simp: ip_Delete_def cache_drop_def Let_def split: option.splits prod.splits sum.splits if_splits)

lemma UpdateMachineTypes_ok:
  assumes "cache_laws (pk_type_cache P)" "typed_names client" "typed_catalogue (pk_type_cache P) st"
    and "UpdateMachineTypes (types_env P opts client) (st, w) = (e, st', w')"
  shows "typed_catalogue (pk_type_cache P) st' \<and> itp_offers st' = itp_offers st"
proof (cases "api_ListMachineTypes client w")
  case (Pair r w1)
  show ?thesis
  proof (cases r)
    case (Inl err)
    with Pair assms(3,4) show ?thesis by (simp add: UpdateMachineTypes_def)
  next
    case (Inr mts)
    have listed: "\<forall>mt \<in> set mts. no_colon (mt_name mt)" using assms(2) Pair Inr unfolding typed_names_def by blast
    have "no_colon (mt_name mt)" if "(name, mt) \<in> set (machine_type_map mts)" for name mt
    proof -
      have "name = mt_name mt" using machine_type_map_ok [of mts] that by (auto simp: catalogue_ok_def list_all_iff)
      moreover have "name \<in> mt_name ` set mts" using machine_type_map_keys [of mts] that by force
      ultimately show ?thesis using listed by auto
    qed
    with Pair Inr assms(1,3,4) show ?thesis
      by (auto simp: UpdateMachineTypes_def Let_def typed_catalogue_def split: if_splits prod.splits)
  qed
qed

text \<open>Entries that go away do no harm.\<close>

lemma offers_ok_fewer:
  assumes "offers_ok C OC zh region zones b u st" "\<And>k v. c_get OC c k = Some v \<Longrightarrow> c_get OC (off_cache st) k = Some v"
  shows "offers_ok C OC zh region zones b u (st\<lparr>off_cache := c\<rparr>)"
  using assms unfolding offers_ok_def offer_ok_def by auto

lemma typed_catalogue_fewer:
  assumes "typed_catalogue TC st" "\<And>k v. c_get TC c k = Some v \<Longrightarrow> c_get TC (itp_types st) k = Some v"
  shows "typed_catalogue TC (st\<lparr>itp_types := c\<rparr>)"
proof -
  have "list_all (no_colon \<circ> it_name) its" if "c_get TC c key = Some its" for key its
    using assms(1) assms(2) [OF that] unfolding typed_catalogue_def by blast
  with assms(1) show ?thesis by (simp add: typed_catalogue_def)
qed

lemma typed_catalogue_cong:
  "itp_machine_types st' = itp_machine_types st \<Longrightarrow> itp_types st' = itp_types st \<Longrightarrow> typed_catalogue TC st' = typed_catalogue TC st"
  by (simp add: typed_catalogue_def)

lemma tick_fewer: "cache_laws C \<Longrightarrow> c_get C (c_tick C n c) k = Some v \<Longrightarrow> c_get C c k = Some v"
  using cache_get_tick [of C n c k] by simp

lemma launch_inv_same:
  "sy_types s' = sy_types s \<Longrightarrow> sy_uo s' = sy_uo s \<Longrightarrow> launch_inv P opts zones b s' = launch_inv P opts zones b s"
  by (simp add: launch_inv_def)

lemma launch_inv_uo:
  assumes "launch_inv P opts zones b s" "uo_moved (pk_uo_cache P) n (sy_uo s) u"
  shows "launch_inv P opts zones (b + n) (s\<lparr>sy_uo := u\<rparr>)"
  using assms offers_ok_moved by (simp add: launch_inv_def) blast

lemma launch_inv_parts:
  assumes "launch_laws P client" "launch_inv P opts zones b s"
  shows "cache_laws (pk_uo_cache P)" "cache_laws (pk_type_cache P)" "cache_laws (pk_offer_cache P)" "sched_laws (pk_sched P)"
    "typed_catalogue (pk_type_cache P) (sy_types s)"
    "offers_ok (pk_uo_cache P) (pk_offer_cache P) (pk_zone_hash P) (opt_Region opts) zones b (sy_uo s) (itp_offers (sy_types s))"
  using assms by (simp_all add: launch_laws_def launch_inv_def)

lemma launch_inv_time:
  assumes "launch_laws P client" "launch_inv P opts zones b s"
  shows "launch_inv P opts zones b (pass_time P d s)"
proof -
  note parts = launch_inv_parts [OF assms]
  let ?st = "(itp_offers (sy_types s))\<lparr>off_cache := c_tick (pk_offer_cache P) d (off_cache (itp_offers (sy_types s)))\<rparr>"
  have "offers_ok (pk_uo_cache P) (pk_offer_cache P) (pk_zone_hash P) (opt_Region opts) zones b (sy_uo s) ?st"
    by (rule offers_ok_fewer [OF parts(6)], erule tick_fewer [OF parts(3)])
  from offers_ok_moved [OF this moved_tick [OF parts(1), where d = d]]
  have off: "offers_ok (pk_uo_cache P) (pk_offer_cache P) (pk_zone_hash P) (opt_Region opts) zones b
      (uo_tick (pk_uo_cache P) d (sy_uo s)) ?st" by simp
  have "typed_catalogue (pk_type_cache P) ((sy_types s)\<lparr>itp_types := c_tick (pk_type_cache P) d (itp_types (sy_types s))\<rparr>)"
    by (rule typed_catalogue_fewer [OF parts(5)], erule tick_fewer [OF parts(2)])
  with off show ?thesis by (simp add: launch_inv_def pass_time_def typed_catalogue_def)
qed

lemma launch_inv_sweep:
  assumes "launch_laws P client" "launch_inv P opts zones b s"
  shows "launch_inv P opts zones b (sweep P c s)"
proof -
  note parts = launch_inv_parts [OF assms]
  show ?thesis
  proof (cases c)
    case TypesCache
    have "typed_catalogue (pk_type_cache P)
        ((sy_types s)\<lparr>itp_types := fst (c_janitor (pk_type_cache P) (itp_types (sy_types s)))\<rparr>)"
      by (rule typed_catalogue_fewer [OF parts(5)]) (simp add: cache_get_janitor [OF parts(2)])
    with TypesCache parts(6) show ?thesis by (simp add: launch_inv_def)
  next
    case OffersCache
    have "offers_ok (pk_uo_cache P) (pk_offer_cache P) (pk_zone_hash P) (opt_Region opts) zones b (sy_uo s)
        ((itp_offers (sy_types s))\<lparr>off_cache := fst (c_janitor (pk_offer_cache P) (off_cache (itp_offers (sy_types s))))\<rparr>)"
      by (rule offers_ok_fewer [OF parts(6)]) (simp add: cache_get_janitor [OF parts(3)])
    with OffersCache parts(5) show ?thesis by (simp add: launch_inv_def typed_catalogue_def)
  qed (use parts(5,6) in \<open>simp_all add: launch_inv_def typed_catalogue_def\<close>)
qed

lemma launch_inv_create:
  assumes "launch_laws P client" "launch_inv P opts zones b s" "availability_zone_ids nc \<in> {[], zones}"
    and "itp_List (types_env P opts client) (Some (Price (sy_prices s))) (sy_uo s) nc (sy_types s) = Some (Inr its, st)"
    and "ip_Create (instances_env P opts client) nc claim labels its (instances_part (s\<lparr>sy_types := st\<rparr>)) = (i, a)"
  shows "launch_inv P opts zones (Suc b) (put_instances a (s\<lparr>sy_types := st\<rparr>))"
proof -
  note parts = launch_inv_parts [OF assms(1,2)]
  have l: "launch_inv P opts zones b (s\<lparr>sy_types := st\<rparr>)" "list_all (no_colon \<circ> it_name) its"
    using itp_List_ok [OF assms(1) parts(5,6) assms(3,4)] by (simp_all add: launch_inv_def)
  have E: "ip_sched (instances_env P opts client) = pk_sched P" "ip_uo_ops (instances_env P opts client) = pk_uo_cache P"
    by (simp_all add: instances_env_def)
  have "uo_moved (pk_uo_cache P) 1 (sy_uo s) (ips_uo a)"
    using ip_Create_marks [OF parts(4) [folded E(1)] l(2) assms(5)] moved_mark [OF parts(1)] moved_refl
    by (auto simp: E instances_part_def)
  then have "launch_inv P opts zones (b + 1) ((s\<lparr>sy_types := st\<rparr>)\<lparr>sy_uo := ips_uo a\<rparr>)"
    using launch_inv_uo [OF l(1), where n = 1 and u = "ips_uo a"] by simp
  then show ?thesis by (simp add: launch_inv_def put_instances_def)
qed

interpretation launching: program_keeps "types_env P opts client" "instances_env P opts client"
  "\<lambda>nc. availability_zone_ids nc \<in> {[], zones}" "\<lambda>b s. launch_laws P client \<longrightarrow> launch_inv P opts zones b s" P overrides
  for P :: "('c, 'ct, 'co, 'cd, 'ci, 'v, 'q, 'm, 'w) packages" and opts client zones overrides
proof (unfold_locales, goal_cases)
  case (2 b s nc r st)
  then show ?case using itp_List_ok [of P client "sy_types s" opts zones b "sy_uo s" nc] by (auto simp: launch_inv_def)
next
  case (6 b s b')
  then show ?case using launch_inv_uo [of P opts zones b s "b' - b" "sy_uo s"] moved_refl by fastforce
next
  case (8 b s nc its st claim labels i a)
  then show ?case using launch_inv_create by blast
next
  case (10 b s r st w)
  obtain e st' w' where u: "UpdateMachineTypes (types_env P opts client) (sy_types s, sy_world s) = (e, st', w')" by (rule prod_cases3)
  with 10 UpdateMachineTypes_ok [of P client "sy_types s" opts "sy_world s" e st' w'] show ?case
    by (auto simp: launch_inv_def launch_laws_def InstanceType_Reconcile_def split: option.splits)
next
  case (11 b s r prices st w)
  obtain e st' w' where u: "UpdateMachineTypes (types_env P opts client) (sy_types s, sy_world s) = (e, st', w')" by (rule prod_cases3)
  then have "st = sy_types s \<or> st = st'"
    using 11(2) by (auto simp: Pricing_Reconcile_def UpdatePrices_def MachineTypeSpecs_def split: if_splits option.splits prod.splits sum.splits)
  with 11(1) u UpdateMachineTypes_ok [of P client "sy_types s" opts "sy_world s" e st' w'] show ?case
    by (auto simp: launch_inv_def launch_laws_def)
next
  case (12 b s d)
  then show ?case using launch_inv_time by blast
next
  case (13 b s c)
  then show ?case using launch_inv_sweep by blast
next
  case (14 b s u)
  then show ?case using launch_inv_uo [OF _ moved_offering_janitor] by (auto simp: launch_laws_def)
next
  case (15 b s)
  then show ?case using launch_inv_uo [OF _ moved_zone_janitor] by (auto simp: launch_laws_def)
qed (auto simp: launch_inv_def put_instances_def instances_part_def dest: ip_uo_same ip_List_uo ip_Delete_uo)

section \<open>Properties\<close>

text \<open>A program whose NodeClasses all have the same zones, or none yet.\<close>

definition one_zone_set :: "('q, 'k) kube \<Rightarrow> string list \<Rightarrow> bool" where
  "one_zone_set K zones \<longleftrightarrow>
     (\<forall>name k nc. kb_get_nodeclass K name k = Inr nc \<longrightarrow> availability_zone_ids nc \<in> {[], zones})"

lemma launch_started:
  assumes "main ctx P K order decorate conditions now w k = Started prog" "transparent decorate" "reports_only conditions"
    and "spies P" "FromContext ctx = Some (Some opts)" "one_zone_set K zones"
    and "cache_laws (pk_uo_cache P)" "cache_laws (pk_type_cache P)" "cache_laws (pk_offer_cache P)" "sched_laws (pk_sched P)"
    and "\<forall>client. operator_client P opts None = Inr client \<longrightarrow> typed_names client"
    and "sys_run P prog b s"
  obtains A where "launch_laws P (spied_client A opts)" "launch_inv P opts zones b s"
    "built_on (types_env P opts (spied_client A opts)) (instances_env P opts (spied_client A opts))
       (\<lambda>nc. availability_zone_ids nc \<in> {[], zones}) (pr_cloud prog)"
proof -
  obtain o2 op w' where p: "FromContext ctx = Some (Some o2)" "NewOperator P o2 None w = (Inr op, w')" "pr_cloud prog = cp_New op K o2"
      "pr_start prog = \<lparr>sy_types = op_types_state op, sy_prices = op_prices op,
       sy_uo = op_UnavailableOfferingsCache op, sy_instances = op_instances_cache op,
       sy_validation = op_ValidationCache op, sy_count = 0, sy_now = now, sy_world = w', sy_kube = k\<rparr>"
      "NewControllers ctx K order (op_StackitClient op) (pk_validation P) (cloud_of (pr_cloud prog)) (cpe_instances (pr_cloud prog))
       (op_types_env op) (op_overrides op) conditions = Some (pr_controllers prog)"
    by (rule started_assembled [OF assms(1-3)])
  then have op: "NewOperator P opts None w = (Inr op, w')" "pr_cloud prog = cp_New op K opts" using assms(5) by simp_all
  obtain client w2 where c: "operator_client P opts None = Inr client"
      "UpdateMachineTypes (types_env P opts client) (types_state P, w) = (None, op_types_state op, w2)"
    using NewOperator_loaded [OF op(1)] by blast
  obtain A where A: "op_StackitClient op = spied_client A opts" "op_types_env op = types_env P opts (spied_client A opts)"
      "op_instances_env op = instances_env P opts (spied_client A opts)"
    using spied_operator [OF assms(4) op(1)] by blast
  have cl: "client = spied_client A opts" using NewOperator_parts [OF op(1)] c(1) A(1) by auto
  have laws: "launch_laws P (spied_client A opts)" using assms(7-11) c(1) cl by (simp add: launch_laws_def)
  have empty: "typed_catalogue (pk_type_cache P) (types_state P)"
    using assms(8) by (simp add: typed_catalogue_def types_state_def)
  have "typed_names client" using assms(11) c(1) by blast
  from UpdateMachineTypes_ok [OF assms(8) this empty c(2)]
  have start: "launch_inv P opts zones 0 (pr_start prog)"
    using assms(9) by (simp add: launch_inv_def p(4) offers_ok_def offer_ok_def types_state_def)
  have built: "built_on (types_env P opts (spied_client A opts)) (instances_env P opts (spied_client A opts))
       (\<lambda>nc. availability_zone_ids nc \<in> {[], zones}) (pr_cloud prog)"
    using assms(6) unfolding one_zone_set_def by (auto simp: built_on_def op(2) cp_New_sel A)
  have "assembled (types_env P opts (spied_client A opts)) (instances_env P opts (spied_client A opts))
      (\<lambda>nc. availability_zone_ids nc \<in> {[], zones}) (op_overrides op) prog"
    unfolding assembled_def using built p(5) [unfolded A(2)] assms(3) by blast
  from launching.run_keeps [OF this _ assms(12)] laws start have "launch_inv P opts zones b s" by blast
  from that [OF laws this built] show thesis .
qed

text \<open>
  C3 A launch is sent only for what is not known to be unavailable. Whatever has happened since the
  start, with fewer than 2^64 changes of availability and one set of zones, a \<open>Create\<close> either
  changes nothing at STACKIT or makes one server, of a machine type and in a zone that are not
  marked as unavailable at that moment, for all that the offerings come from caches.
\<close>

theorem Launches_available:
  assumes "main ctx P K order decorate conditions now w k = Started prog" "transparent decorate" "reports_only conditions"
    and "spies P" "FromContext ctx = Some (Some opts)" "one_zone_set K zones"
    and "cache_laws (pk_uo_cache P)" "cache_laws (pk_type_cache P)" "cache_laws (pk_offer_cache P)" "sched_laws (pk_sched P)"
    and "\<forall>client. operator_client P opts None = Inr client \<longrightarrow> typed_names client"
    and "sys_run P prog b s" "b < 2 ^ 64" "cp_Create (pr_cloud prog) nc s = Some (created, s')"
  shows "adds s s' [] \<or> (\<exists>payload zone. adds s s' [SdkCreate (opt_ProjectID opts) (opt_Region opts) payload]
     \<and> cp_availability_zone payload = Some zone \<and> \<not> IsUnavailable (pk_uo_cache P) (sy_uo s) (cp_machine_type payload) zone)"
proof -
  obtain A where A: "launch_laws P (spied_client A opts)" "launch_inv P opts zones b s"
    "built_on (types_env P opts (spied_client A opts)) (instances_env P opts (spied_client A opts))
       (\<lambda>nc. availability_zone_ids nc \<in> {[], zones}) (pr_cloud prog)"
    by (rule launch_started [OF assms(1-12)])
  note parts = launch_inv_parts [OF A(1,2)]
  have built: "built_on (types_env P opts (spied_client A opts)) (instances_env P opts (spied_client A opts)) (\<lambda>_. True) (pr_cloud prog)"
    using A(3) by (simp add: built_on_def)
  show ?thesis
  proof (cases "adds s s' []")
    case False
    then obtain cl its st it zone payload where
        res: "resolveNodeClassFromNodeClaim (pr_cloud prog) nc s = Inr cl" and
        l: "itp_List (types_env P opts (spied_client A opts)) (Some (Price (sy_prices s))) (sy_uo s) cl (sy_types s) = Some (Inr its, st)"
        and ch: "cheapestOffering (pk_quantity P) (pk_sched P) its nc = Inr (it, zone)"
        and pl: "createPayload cl nc it zone (Some (ManagedLabels cl nc (cpe_clusterName (pr_cloud prog)))) = Inr payload"
        and new: "adds s s' [SdkCreate (opt_ProjectID opts) (opt_Region opts) payload]"
      using cp_Create_calls [OF built assms(14)] by blast
    have zs: "availability_zone_ids cl \<in> {[], zones}"
      using res A(3) by (auto simp: built_on_def resolveNodeClassFromNodeClaim_def split: option.splits sum.splits if_splits)
    have safe: "\<forall>it \<in> set its. safe_offers (pk_uo_cache P) (sy_uo s) (it_name it) (it_offerings it)"
      using itp_List_ok [OF A(1) parts(5,6) zs l] assms(13) by blast
    obtain x where x: "(it, x) \<in> candidates (pk_quantity P) (pk_sched P) nc its"
        "zone = sc_any (pk_sched P) (of_requirements x) LabelTopologyZone"
      using chosen_candidate [OF parts(4) ch] by blast
    from candidates_available [OF parts(4) x(1)] safe obtain z where
        z: "map_of (of_requirements x) LabelTopologyZone = Some [z]" "\<not> IsUnavailable (pk_uo_cache P) (sy_uo s) (it_name it) z"
      unfolding safe_offers_def by blast
    have "zone = z" using x(2) z(1) parts(4) by (simp add: sched_laws_def slaw_any_def)
    moreover have "cp_machine_type payload = it_name it" "cp_availability_zone payload = Some zone"
      using pl by (auto simp: createPayload_def Let_def split: sum.splits)
    ultimately show ?thesis using new z(2) by auto
  qed simp
qed

lemma sample_creates:
  assumes "main sample_ctx (spied_packages [sample_type]) (sample_kube sample_nodeclass) order id sample_conditions 0 ((), []) ()
      = Started prog"
  shows "\<exists>created s'. cp_Create (pr_cloud prog) sample_claim (pr_start prog) = Some (created, s')"
proof -
  let ?P = "spied_packages [sample_type]"
  obtain opts op w' where o: "FromContext sample_ctx = Some (Some opts)" "NewOperator ?P opts None ((), []) = (Inr op, w')"
      "pr_cloud prog = cp_New op (sample_kube sample_nodeclass) opts"
      "pr_start prog = \<lparr>sy_types = op_types_state op, sy_prices = op_prices op,
         sy_uo = op_UnavailableOfferingsCache op, sy_instances = op_instances_cache op,
         sy_validation = op_ValidationCache op, sy_count = 0, sy_now = 0, sy_world = w', sy_kube = ()\<rparr>"
    by (rule started_assembled [OF assms sample_parts])
  then have run: "NewOperator ?P sample_options None ((), []) = (Inr op, w')" by simp
  obtain client w1 where op: "operator_client ?P sample_options None = Inr client" "op_types_env op = types_env ?P sample_options client"
      "UpdateMachineTypes (types_env ?P sample_options client) (types_state ?P, ((), [])) = (None, op_types_state op, w1)"
    using NewOperator_loaded [OF run] by blast
  have laws: "cache_laws (pk_type_cache ?P)" by (simp add: spied_packages_sel timed_cache_laws)
  have client: "client = client_as_api \<lparr>client_api = spied (sample_sdk [sample_type]), client_projectID = ''p-1'', client_region = ''eu01''\<rparr>"
    using op(1) by (simp add: operator_client_def NewClient_def sample_options_def spied_packages_sel)
  have types: "itp_machine_types (op_types_state op) = [(''g1.2'', sample_type)]"
    using hydrate(1) [OF op(3) laws]
    by (auto simp: client client_as_api_def ListMachineTypes_def spied_def sample_sdk_def items_def wrap_result_def
        machine_type_map_def sample_type_def)
  have disc: "c_get timed_cache (itp_discovered (op_types_state op)) key = None" for key
    by (simp add: hydrate(2) [OF op(3) laws] types_state_def spied_packages_def timed_cache_laws)
  obtain it where "Resolve rat_quantity id (\<lambda>_. 0) (Fin 0) ''eu01'' sample_type sample_nodeclass = Some it"
    using sample_resolves by blast
  then have "itp_all (op_types_env op) sample_nodeclass (op_types_state op) [''g1.2''] = Some [it]"
    by (simp add: itp_get_def types op(2) types_env_def spied_packages_def sample_options_def disc)
  moreover have "availability_zone_ids sample_nodeclass \<noteq> []" by (simp add: availability_zone_ids_def sample_nodeclass_def)
  ultimately have "\<exists>r st'. itp_List (op_types_env op) (Some (Price (op_prices op))) (op_UnavailableOfferingsCache op)
      sample_nodeclass (op_types_state op) = Some (r, st')"
    by (auto simp: itp_List_def types Let_def split_beta split: option.split)
  then have "tpr_List (cpe_types (pr_cloud prog)) sample_nodeclass (pr_start prog) \<noteq> None"
    by (auto simp: o(3,4) cp_New_sel default_type_provider_def)
  moreover have "cpe_get_nodeclass (pr_cloud prog) name t = Inr sample_nodeclass" for name t
    by (simp add: o(3) cp_New_sel sample_kube_def)
  then have "resolveNodeClassFromNodeClaim (pr_cloud prog) sample_claim (pr_start prog) = Inr sample_nodeclass"
    by (simp add: resolveNodeClassFromNodeClaim_def sample_claim_def sample_nodeclass_def is_zero_time_def)
  ultimately show ?thesis
    by (auto simp: cp_Create_def Let_def split: option.splits prod.splits sum.splits)
qed

theorem Launches_available_witness:
  "\<exists>prog created s'. main sample_ctx (spied_packages [sample_type]) (sample_kube sample_nodeclass) (\<lambda>n. [0..<n]) id sample_conditions
         0 ((), []) () = Started prog
     \<and> cp_Create (pr_cloud prog) sample_claim (pr_start prog) = Some (created, s')
     \<and> (adds (pr_start prog) s' [] \<or> (\<exists>payload zone. adds (pr_start prog) s' [SdkCreate (opt_ProjectID sample_options)
              (opt_Region sample_options) payload]
            \<and> cp_availability_zone payload = Some zone
            \<and> \<not> IsUnavailable timed_cache (sy_uo (pr_start prog)) (cp_machine_type payload) zone))"
proof -
  obtain prog where prog: "main sample_ctx (spied_packages [sample_type]) (sample_kube sample_nodeclass) (\<lambda>n. [0..<n]) id
      sample_conditions 0 ((), []) () = Started prog"
    using sample_started by blast
  obtain created s' where c: "cp_Create (pr_cloud prog) sample_claim (pr_start prog) = Some (created, s')"
    using sample_creates [OF prog] by blast
  have zones: "one_zone_set (sample_kube sample_nodeclass) (availability_zone_ids sample_nodeclass)"
    by (simp add: one_zone_set_def sample_kube_def)
  have names: "\<forall>client. operator_client (spied_packages [sample_type]) sample_options None = Inr client \<longrightarrow> typed_names client"
    by (auto simp: operator_client_def NewClient_def spied_packages_sel sample_options_def typed_names_def client_as_api_def
        ListMachineTypes_def spied_def sample_sdk_def items_def wrap_result_def sample_type_def no_colon_def split: sum.splits)
  show ?thesis
    using prog c
      Launches_available [OF prog sample_parts spied_packages_sel(1) sample_ctx zones _ _ _ _ names sys_start _ c,
        unfolded spied_packages_sel, OF timed_cache_laws timed_cache_laws timed_cache_laws simple_sched_laws]
    by (intro exI [of _ prog] exI [of _ created] exI [of _ s'] conjI) simp_all
qed

end
