(* ===== verification/Accounts.thy ===== *)
theory Accounts
  imports LaunchSafety
begin

text \<open>
  The life of a server, across the running program: whoever creates or relabels a server marks it
  as this cluster's, in the terms of the selector that the listings use, and when garbage
  collection finds one that nobody names, its deletion is requested.
\<close>

section \<open>What a request is marked with\<close>

text \<open>A server with these labels is one that a listing with this selector asks for.\<close>

definition selected :: "string \<Rightarrow> api_value gomap option \<Rightarrow> bool" where
  "selected sel labels \<longleftrightarrow> list_all (\<lambda>(k, v). map_of (get_or [] labels) k = Some (APIString v)) (parse_selector sel)"

definition cluster_selector :: "options \<Rightarrow> string" where
  "cluster_selector opts = LabelSelector [(LabelKeyManagedBy, opt_ClusterName opts)]"

lemma LabelsToAPI_lookup: "map_of (get_or [] (LabelsToAPI (Some m))) k = map_option APIString (map_of m k)"
  by (simp add: LabelsToAPI_def get_or_def map_of_map)

lemma marked:
  assumes "CHR '','' \<notin> set (opt_ClusterName opts)"
    and labels: "labels = LabelsToAPI (Some (ManagedLabels nodeClass nodeClaim (opt_ClusterName opts)))"
  shows "selected (cluster_selector opts) labels"
    "map_of (LabelsFromAPI (get_or [] labels)) LabelKeyNodeClass = Some (nc_name nodeClass)"
    "map_of (LabelsFromAPI (get_or [] labels)) LabelKeyNodeClaim = Some (claim_name nodeClaim)"
proof -
  have "parse_selector (cluster_selector opts) = [(LabelKeyManagedBy, opt_ClusterName opts)]"
    unfolding cluster_selector_def
    by (rule parse_selector_single) (use assms(1) in \<open>simp_all add: LabelKeyManagedBy_def\<close>)
  then show "selected (cluster_selector opts) labels"
    by (simp add: labels selected_def LabelsToAPI_lookup ManagedLabels_lookup)
  have "LabelsFromAPI (get_or [] labels) = ManagedLabels nodeClass nodeClaim (opt_ClusterName opts)"
    using LabelsFromAPI_ToAPI [of "ManagedLabels nodeClass nodeClaim (opt_ClusterName opts)"]
    by (simp add: labels get_or_def split: option.splits)
  moreover have "LabelKeyNodeClass \<noteq> LabelKeyManagedBy" "LabelKeyNodeClaim \<noteq> LabelKeyManagedBy" "LabelKeyNodeClaim \<noteq> LabelKeyNodeClass"
    using managed_keys_distinct by (auto simp: ManagedLabelKeys_def)
  ultimately show "map_of (LabelsFromAPI (get_or [] labels)) LabelKeyNodeClass = Some (nc_name nodeClass)"
    "map_of (LabelsFromAPI (get_or [] labels)) LabelKeyNodeClaim = Some (claim_name nodeClaim)"
    by (simp_all add: ManagedLabels_lookup)
qed

lemma payload_labels: "createPayload nodeClass nodeClaim it zone labels = Inr payload \<Longrightarrow> cp_labels payload = LabelsToAPI labels"
  by (auto simp: createPayload_def Let_def split: sum.splits)

text \<open>A listing gives the servers that STACKIT selects with that selector.\<close>

lemma ip_List_selects:
  assumes "fst (api_ListServers client (cluster_selector opts) (ips_world st)) = Inr servers"
  shows "fst (ip_List (instances_env P opts client) st) = Inr (map NewInstance servers)"
proof -
  obtain w where "api_ListServers client (cluster_selector opts) (ips_world st) = (Inr servers, w)"
    using assms by (metis prod.collapse)
  then show ?thesis
    by (simp add: ip_List_def instances_env_def cluster_selector_def split_beta list_loop_spec)
qed

section \<open>What garbage collection requests\<close>

text \<open>A server that STACKIT keeps finding, and that is not on its way out.\<close>

definition stands :: "'w api \<Rightarrow> string \<Rightarrow> bool" where
  "stands client sid \<longleftrightarrow> (\<forall>w. \<exists>server w'. api_GetServer client sid w = (Inr server, w') \<and> \<not> Terminating (NewInstance server))"

lemma ip_Delete_requests:
  assumes "stands (spied_client A opts) sid" "ip_Delete (instances_env P opts (spied_client A opts)) sid st = (e, a)"
  shows "snd (ips_world a) = snd (ips_world st) @ [SdkDelete (opt_ProjectID opts) (opt_Region opts) sid]"
proof -
  let ?E = "instances_env P opts (spied_client A opts)"
  obtain server w where g: "api_GetServer (spied_client A opts) sid (ips_world st) = (Inr server, w)" "\<not> Terminating (NewInstance server)"
    using assms(1) unfolding stands_def by blast
  obtain e2 w2 where d: "api_DeleteServer (spied_client A opts) sid w = (e2, w2)" by (rule prod.exhaust)
  have "snd w = snd (ips_world st)" using spied_calls(2) [of A opts sid "ips_world st"] g(1) by simp
  then have "snd w2 = snd (ips_world st) @ [SdkDelete (opt_ProjectID opts) (opt_Region opts) sid]"
    using spied_calls(3) [of A opts sid w] d by simp
  then show ?thesis
    using assms(2) g d
    by (auto simp: ip_Delete_def ip_Get_def instances_env_def Let_def cache_put_def cache_drop_def split: option.splits if_splits)
qed

lemma cp_Delete_requests:
  assumes "built_on (types_env P opts (spied_client A opts)) (instances_env P opts (spied_client A opts)) (\<lambda>_. True) CE"
    and "stands (spied_client A opts) sid" "ParseInstanceID (claim_provider_id nc) = Inr sid" "cp_Delete CE nc s = (e, s')"
  shows "adds s s' [SdkDelete (opt_ProjectID opts) (opt_Region opts) sid]"
proof -
  obtain a where "ip_Delete (instances_env P opts (spied_client A opts)) sid (instances_part s) = (e, a)" "s' = put_instances a s"
    using assms by (auto simp: cp_Delete_def built_on_def lift_provider_def default_provider_def on_part_Inr)
  with ip_Delete_requests [OF assms(2) this(1)] show ?thesis by (simp add: adds_def put_instances_def instances_part_def)
qed

lemma adds_trans: "adds s t new1 \<Longrightarrow> adds t u new2 \<Longrightarrow> adds s u (new1 @ new2)"
  by (simp add: adds_def)

lemma gc_item_requests:
  assumes "built_on (types_env P opts (spied_client A opts)) (instances_env P opts (spied_client A opts)) (\<lambda>_. True) CE"
    and "stands (spied_client A opts) sid" "ParseInstanceID (claim_provider_id (claims ! i)) = Inr sid"
    and "orphan managed (\<lambda>_. now) claims i"
    and "gc_item (gc_NewController K order now (cloud_of CE)) (filter (\<lambda>p. p \<noteq> []) (map claim_provider_id managed)) nodes claims i s
           = (e, s')"
  shows "adds s s' [SdkDelete (opt_ProjectID opts) (opt_Region opts) sid]"
proof -
  let ?E = "gc_NewController K order now (cloud_of CE)"
  have "garbageCollect ?E (claims ! i) nodes s = (e, s')"
    using assms(4,5) unfolding gc_item_orphan by (simp add: gc_NewController_def)
  moreover obtain e1 s1 where d: "cp_Delete CE (claims ! i) s = (e1, s1)" by (rule prod.exhaust)
  moreover have "sy_world (snd (gc_delete_node ?E node t)) = sy_world t" for node t
    by (simp add: gc_NewController_def on_part_def split_beta)
  ultimately have "sy_world s' = sy_world s1"
    by (auto simp: garbageCollect_def gc_NewController_def cloud_of_def split: prod.splits option.splits) (metis snd_conv)+
  with cp_Delete_requests [OF assms(1-3) d] show ?thesis by (simp add: adds_def)
qed

lemma gc_items_requests:
  fixes CE :: "('q, ('c, 'ct, 'co, 'cd, 'ci, 'v, 'm, 'w \<times> sdk_call list, 'k) system) cp_env"
    and P :: "('c, 'ct, 'co, 'cd, 'ci, 'v, 'q, 'm, 'w \<times> sdk_call list) packages"
  assumes built: "built_on (types_env P opts (spied_client A opts)) (instances_env P opts (spied_client A opts)) (\<lambda>_. True) CE"
    and sid: "stands (spied_client A opts) sid" "ParseInstanceID (claim_provider_id (claims ! i)) = Inr sid"
    and orphan: "orphan managed (\<lambda>_. now) claims i"
  shows "i \<in> set todo \<Longrightarrow>
    gc_items (gc_NewController K order now (cloud_of CE)) (filter (\<lambda>p. p \<noteq> []) (map claim_provider_id managed)) nodes claims todo errs s
      = (errs', s') \<Longrightarrow>
    \<exists>new. adds s s' new \<and> SdkDelete (opt_ProjectID opts) (opt_Region opts) sid \<in> set new"
proof (induction todo arbitrary: errs s)
  case (Cons j todo)
  let ?E = "gc_NewController K order now (cloud_of CE)" and ?ids = "filter (\<lambda>p. p \<noteq> []) (map claim_provider_id managed)"
  obtain e t where item: "gc_item ?E ?ids nodes claims j s = (e, t)" by (rule prod.exhaust)
  with Cons.prems(2) have rest: "gc_items ?E ?ids nodes claims todo (errs[j := e]) t = (errs', s')" by simp
  obtain new1 where new1: "adds s t new1"
    using adds_some [OF collecting.gc_item_keeps [OF built only_calls_start item]] by blast
  obtain new2 where new2: "adds t s' new2"
    using adds_some [OF collecting.gc_items_keeps [OF built only_calls_start rest]] by blast
  show ?case
  proof (cases "i = j")
    case True
    from gc_item_requests [OF built sid orphan] item True
    have "adds s t [SdkDelete (opt_ProjectID opts) (opt_Region opts) sid]" by blast
    from adds_trans [OF this new2] show ?thesis by fastforce
  next
    case False
    with Cons.IH [OF _ rest] Cons.prems(1) obtain new where "adds t s' new" "SdkDelete (opt_ProjectID opts) (opt_Region opts) sid \<in> set new"
      by auto
    with adds_trans [OF new1 this(1)] show ?thesis by fastforce
  qed
qed simp

section \<open>Properties\<close>

text \<open>
  C8 What the program creates it can find again, when the cluster name has no comma; the flags
  accept one with a comma, which a label selector cannot express. A server that a launch asks for carries this
  cluster's name and the names of its NodeClaim and its NodeClass in its labels, so the selector of
  the listings selects it; labeling later replaces its labels only by ones the selector selects
  too, whatever labels the user asked for; and a listing gives exactly the servers that STACKIT
  answers to this selector with.
\<close>

theorem Servers_recognised:
  assumes "main ctx P K order decorate conditions now w k = Started prog" "transparent decorate" "reports_only conditions"
    and "spies P" "FromContext ctx = Some (Some opts)" "CHR '','' \<notin> set (opt_ClusterName opts)"
  shows "(cp_Create (pr_cloud prog) nc s = Some (created, s') \<longrightarrow>
       adds s s' [] \<or> (\<exists>payload cl. adds s s' [SdkCreate (opt_ProjectID opts) (opt_Region opts) payload]
          \<and> resolveNodeClassFromNodeClaim (pr_cloud prog) nc s = Inr cl
          \<and> selected (cluster_selector opts) (cp_labels payload)
          \<and> map_of (LabelsFromAPI (get_or [] (cp_labels payload))) LabelKeyNodeClass = Some (nc_name cl)
          \<and> map_of (LabelsFromAPI (get_or [] (cp_labels payload))) LabelKeyNodeClaim = Some (claim_name nc)))
   \<and> (c \<in> set (pr_controllers prog) \<longrightarrow> ct_registration c = Labeling_Register \<longrightarrow> ct_reconcile c r s = Some (res, s') \<longrightarrow>
       adds s s' [] \<or> (\<exists>sid labels. adds s s' [SdkUpdate (opt_ProjectID opts) (opt_Region opts) sid labels]
          \<and> selected (cluster_selector opts) labels))
   \<and> (operator_client P opts None = Inr client \<longrightarrow>
       fst (api_ListServers client (cluster_selector opts) (sy_world s)) = Inr servers \<longrightarrow>
       fst (ipr_List (cpe_instances (pr_cloud prog)) s) = Inr (map NewInstance servers))"
proof -
  obtain A where A:
      "built_on (types_env P opts (spied_client A opts)) (instances_env P opts (spied_client A opts)) (\<lambda>_. True) (pr_cloud prog)"
      "NewControllers ctx K order (spied_client A opts) (pk_validation P) (cloud_of (pr_cloud prog)) (cpe_instances (pr_cloud prog))
         (types_env P opts (spied_client A opts)) (opt_PricingOverrides opts) conditions = Some (pr_controllers prog)"
      "cpe_clusterName (pr_cloud prog) = opt_ClusterName opts" "operator_client P opts None = Inr (spied_client A opts)"
    by (rule spied_started [OF assms(1-5)])
  show ?thesis
  proof (intro conjI impI)
    assume "cp_Create (pr_cloud prog) nc s = Some (created, s')"
    from cp_Create_calls [OF A(1) this]
    show "adds s s' [] \<or> (\<exists>payload cl. adds s s' [SdkCreate (opt_ProjectID opts) (opt_Region opts) payload]
          \<and> resolveNodeClassFromNodeClaim (pr_cloud prog) nc s = Inr cl
          \<and> selected (cluster_selector opts) (cp_labels payload)
          \<and> map_of (LabelsFromAPI (get_or [] (cp_labels payload))) LabelKeyNodeClass = Some (nc_name cl)
          \<and> map_of (LabelsFromAPI (get_or [] (cp_labels payload))) LabelKeyNodeClaim = Some (claim_name nc))"
    proof (elim disjE exE conjE)
      fix cl its st it zone payload
      assume res: "resolveNodeClassFromNodeClaim (pr_cloud prog) nc s = Inr cl"
        and "createPayload cl nc it zone (Some (ManagedLabels cl nc (cpe_clusterName (pr_cloud prog)))) = Inr payload"
        and new: "adds s s' [SdkCreate (opt_ProjectID opts) (opt_Region opts) payload]"
      then have "cp_labels payload = LabelsToAPI (Some (ManagedLabels cl nc (opt_ClusterName opts)))"
        using payload_labels A(3) by simp
      from res new marked [OF assms(6) this] show ?thesis by blast
    qed simp
  next
    assume "c \<in> set (pr_controllers prog)" "ct_registration c = Labeling_Register" "ct_reconcile c r s = Some (res, s')"
    moreover have "Labeling_Register \<noteq> GC_Register" by (simp add: Labeling_Register_def GC_Register_def)
    ultimately show "adds s s' [] \<or> (\<exists>sid labels. adds s s' [SdkUpdate (opt_ProjectID opts) (opt_Region opts) sid labels]
          \<and> selected (cluster_selector opts) labels)"
      using controller_calls [OF A(1,2) assms(3,5)] marked(1) [OF assms(6) refl] by metis
  next
    assume "operator_client P opts None = Inr client" "fst (api_ListServers client (cluster_selector opts) (sy_world s)) = Inr servers"
    then have "fst (ip_List (instances_env P opts (spied_client A opts)) (instances_part s)) = Inr (map NewInstance servers)"
      using ip_List_selects [of client opts "instances_part s" servers] A(4) by (simp add: instances_part_def)
    with A(1) show "fst (ipr_List (cpe_instances (pr_cloud prog)) s) = Inr (map NewInstance servers)"
      by (simp add: built_on_def lift_provider_def default_provider_def on_part_def split_beta)
  qed
qed

text \<open>
  C7 No server is left behind. When garbage collection runs with all its listings answered, in
  whatever order its workers take the items, and STACKIT keeps finding a listed server that no
  NodeClaim names, that is not being deleted and that is at least two minutes old, then it
  requests the deletion of that server, whatever became of the others.
\<close>

theorem Orphans_collected:
  assumes "main ctx P K order decorate conditions now w k = Started prog" "transparent decorate" "reports_only conditions"
    and "spies P" "FromContext ctx = Some (Some opts)" "ct_registration conditions \<noteq> GC_Register" "orders_all order"
    and "c \<in> set (pr_controllers prog)" "ct_registration c = GC_Register" "ct_reconcile c r s = Some (res, s')"
    and "cp_List (pr_cloud prog) s = Some (Inr listed, s1)" "kb_list_managed K (sy_kube s1) = Inr managed"
    and "kb_list_nodes K (sy_kube s1) = Inr nodes"
    and "nc \<in> set listed" "is_zero_time (claim_deletion_timestamp nc)" "claim_provider_id nc \<notin> claim_provider_id ` set managed"
    and "claim_creation_timestamp nc \<noteq> 0" "claim_creation_timestamp nc + 2 * Minute \<le> sy_now s"
    and "ParseInstanceID (claim_provider_id nc) = Inr sid"
    and "\<forall>client. operator_client P opts None = Inr client \<longrightarrow> stands client sid"
  shows "\<exists>new. adds s s' new \<and> SdkDelete (opt_ProjectID opts) (opt_Region opts) sid \<in> set new"
proof -
  obtain A where A:
      "built_on (types_env P opts (spied_client A opts)) (instances_env P opts (spied_client A opts)) (\<lambda>_. True) (pr_cloud prog)"
      "NewControllers ctx K order (spied_client A opts) (pk_validation P) (cloud_of (pr_cloud prog)) (cpe_instances (pr_cloud prog))
         (types_env P opts (spied_client A opts)) (opt_PricingOverrides opts) conditions = Some (pr_controllers prog)"
      "operator_client P opts None = Inr (spied_client A opts)"
    by (rule spied_started [OF assms(1-5)])
  let ?E = "gc_NewController K order (sy_now s) (cloud_of (pr_cloud prog))"
  let ?claims = "filter (\<lambda>nc. is_zero_time (claim_deletion_timestamp nc)) listed"
  have "ct_reconcile c = gc_run (\<lambda>now. gc_NewController K order now (cloud_of (pr_cloud prog)))"
    using A(2) assms(8) by (cases rule: NewControllers_cases)
      (use assms(6,9) in \<open>simp_all add: Status_Register_def Hash_Register_def Termination_Register_def GC_Register_def
        Labeling_Register_def InstanceType_Register_def Pricing_Register_def\<close>)
  then obtain n t where run: "gc_Reconcile ?E (sy_count s) s = Some (res, n, t)" "s' = t\<lparr>sy_count := n\<rparr>"
    using assms(10) by (cases r) auto
  have lists: "gc_list ?E s = Some (Inr listed, s1)" "gc_list_managed ?E s1 = Inr managed" "gc_list_nodes ?E s1 = Inr nodes"
    using assms(11-13) by (simp_all add: gc_NewController_def cloud_of_def)
  obtain errs where items: "gc_items ?E (filter (\<lambda>p. p \<noteq> []) (map claim_provider_id managed)) nodes ?claims
      (gc_order ?E (length ?claims)) (replicate (length ?claims) None) s1 = (errs, t)"
    using gc_Reconcile_items [OF lists run(1)] by (auto simp: Let_def split: prod.splits)
  have "nc \<in> set ?claims" using assms(14,15) by simp
  then obtain i where i: "i < length ?claims" "?claims ! i = nc" by (metis in_set_conv_nth)
  have "i \<in> set (gc_order ?E (length ?claims))"
  proof -
    have "mset (gc_order ?E (length ?claims)) = mset [0..<length ?claims]" using assms(7) by (simp add: gc_NewController_def orders_all_def)
    from mset_eq_setD [OF this] show ?thesis using i(1) by simp
  qed
  moreover have "orphan managed (\<lambda>_. sy_now s) ?claims i"
    using assms(16-18) by (auto simp: orphan_def i(2))
  moreover have "stands (spied_client A opts) sid" using assms(20) A(3) by blast
  ultimately obtain new where "adds s1 t new" "SdkDelete (opt_ProjectID opts) (opt_Region opts) sid \<in> set new"
    using gc_items_requests [OF A(1), of sid ?claims i managed "sy_now s"] items assms(19) i(2) by metis
  moreover have "adds s s1 []" using cloud_calls(2) [OF A(1) assms(11)] .
  ultimately show ?thesis using run(2) by (auto simp: adds_def)
qed

section \<open>A server that is left behind\<close>

theorem Servers_recognised_witness:
  "\<exists>prog created s'. main sample_ctx (spied_packages [sample_type]) (sample_kube sample_nodeclass) (\<lambda>n. [0..<n]) id sample_conditions
         0 ((), []) () = Started prog
     \<and> cp_Create (pr_cloud prog) sample_claim (pr_start prog) = Some (created, s')
     \<and> (adds (pr_start prog) s' [] \<or> (\<exists>payload. adds (pr_start prog) s' [SdkCreate ''p-1'' ''eu01'' payload]
          \<and> map_of (LabelsFromAPI (get_or [] (cp_labels payload))) LabelKeyNodeClaim = Some ''default-abcde''))"
proof -
  obtain prog where prog: "main sample_ctx (spied_packages [sample_type]) (sample_kube sample_nodeclass) (\<lambda>n. [0..<n]) id
      sample_conditions 0 ((), []) () = Started prog"
    using sample_started by blast
  obtain created s' where c: "cp_Create (pr_cloud prog) sample_claim (pr_start prog) = Some (created, s')"
    using sample_creates [OF prog] by blast
  have "CHR '','' \<notin> set (opt_ClusterName sample_options)" by (simp add: sample_options_def)
  note r = Servers_recognised [OF prog sample_parts spied_packages_sel(1) sample_ctx this, THEN conjunct1, rule_format, OF c]
  have "opt_ProjectID sample_options = ''p-1''" "opt_Region sample_options = ''eu01''" "claim_name sample_claim = ''default-abcde''"
    by (simp_all add: sample_options_def sample_claim_def)
  with r show ?thesis
    using prog c by (intro exI [of _ prog] exI [of _ created] exI [of _ s'] conjI) auto
qed

definition orphan_server :: server where
  "orphan_server = (listed_server ''s-1'' ''prod'')\<lparr>srv_created_at := Some 1\<rparr>"

definition orphan_sdk :: "unit sdk" where
  "orphan_sdk = (sample_sdk [sample_type])
     \<lparr>sdk_list_servers := (\<lambda>p r d sel w. (Inr (Some [orphan_server]), w)), sdk_get_server := (\<lambda>p r i w. (Inr orphan_server, w))\<rparr>"

definition orphan_packages ::
  "(unit timed, rat instance_type list timed, offering list timed, rat timed, server_instance timed, string list timed,
    rat, machine_type list, unit \<times> sdk_call list) packages" where
  "orphan_packages = (spied_packages [sample_type])\<lparr>pk_client := (\<lambda>region. Inr (spied orphan_sdk))\<rparr>"

lemma orphan_packages_sel:
  "spies orphan_packages" "pk_client orphan_packages region = Inr (spied orphan_sdk)"
  by (auto simp: spies_def orphan_packages_def)

lemma orphan_client:
  "operator_client orphan_packages sample_options None = Inr client \<longleftrightarrow> client = spied_client orphan_sdk sample_options"
  by (auto simp: operator_client_def NewClient_def orphan_packages_sel sample_options_def spied_client_def)

lemma orphan_started:
  "\<exists>prog. main sample_ctx orphan_packages (sample_kube cl) (\<lambda>n. [0..<n]) id sample_conditions (5 * Minute) ((), []) () = Started prog"
proof -
  have api: "ListMachineTypes \<lparr>client_api = spied orphan_sdk, client_projectID = p, client_region = r\<rparr> ((), [])
      = (Inr [sample_type], (), [])" for p r
    by (simp add: ListMachineTypes_def spied_def orphan_sdk_def sample_sdk_def items_def wrap_result_def)
  have "is_ok (fst (NewOperator orphan_packages sample_options None ((), [])))"
    by (simp add: NewOperator_ok_iff operator_client_def NewClient_def client_as_api_def sample_options_def api orphan_packages_sel)
  then obtain op w where "NewOperator orphan_packages sample_options None ((), []) = (Inr op, w)"
    by (metis is_ok_iff prod.collapse)
  then show ?thesis by (cases w) (auto simp: main_started NewControllers_def)
qed

lemma orphan_api:
  "api_GetServer (spied_client orphan_sdk sample_options) sid w = (Inr orphan_server, w)"
  "api_ListServers (spied_client orphan_sdk sample_options) sel w = (Inr [orphan_server], w)"
  by (cases w; simp add: spied_client_def client_as_api_def GetServer_def ListServers_def spied_def orphan_sdk_def
      wrap_result_def items_def)+

lemma orphan_instance:
  "inst_id (NewInstance orphan_server) = ''s-1''" "inst_created_at (NewInstance orphan_server) = 1"
  "map_of (inst_labels (NewInstance orphan_server)) LabelKeyNodePool = None" "\<not> Terminating (NewInstance orphan_server)"
  by (simp_all add: NewInstance_def orphan_server_def listed_server_def get_or_def LabelsFromAPI_def LabelKeyManagedBy_def
      LabelKeyNodePool_def NodePoolLabelKey_def Terminating_def StatusDeleting_def StatusDeleted_def)

lemma orphan_listed:
  assumes "main sample_ctx orphan_packages (sample_kube cl) order id sample_conditions now ((), []) () = Started prog"
  shows "\<exists>nc s1. cp_List (pr_cloud prog) (pr_start prog) = Some (Inr [nc], s1) \<and> claim_provider_id nc = ProviderID ''s-1''
     \<and> claim_creation_timestamp nc = 1 \<and> claim_deletion_timestamp nc = None"
proof -
  obtain A where A: "built_on (types_env orphan_packages sample_options (spied_client A sample_options))
      (instances_env orphan_packages sample_options (spied_client A sample_options)) (\<lambda>_. True) (pr_cloud prog)"
      "operator_client orphan_packages sample_options None = Inr (spied_client A sample_options)"
    by (rule spied_started [OF assms sample_parts orphan_packages_sel(1) sample_ctx])
  let ?E = "instances_env orphan_packages sample_options (spied_client A sample_options)"
  have "fst (api_ListServers (spied_client A sample_options) (cluster_selector sample_options) (ips_world (instances_part (pr_start prog))))
      = Inr [orphan_server]"
    using A(2) by (simp add: orphan_client orphan_api)
  from ip_List_selects [OF this, of orphan_packages]
  have "fst (ipr_List (cpe_instances (pr_cloud prog)) (pr_start prog)) = Inr [NewInstance orphan_server]"
    using A(1) by (simp add: built_on_def lift_provider_def default_provider_def on_part_def split_beta)
  then obtain s1 where l: "ipr_List (cpe_instances (pr_cloud prog)) (pr_start prog) = (Inr [NewInstance orphan_server], s1)"
    by (metis prod.collapse)
  moreover have "resolveInstanceTypeFromInstance (pr_cloud prog) (NewInstance orphan_server) s1 = Some (Inr None, s1)"
    by (simp add: resolveInstanceTypeFromInstance_def resolveNodePoolFromInstance_def orphan_instance ignore_kube_not_found_def newNotFound_def)
  ultimately show ?thesis
    by (simp add: cp_List_def instanceToNodeClaim_def inst_ProviderID_def orphan_instance Let_def)
qed

lemma runs_gc:
  assumes "NewControllers ctx K order A V CI IP T overrides conditions = Some cs"
  shows "\<exists>c. c \<in> set cs \<and> ct_registration c = GC_Register \<and> ct_reconcile c = gc_run (\<lambda>now. gc_NewController K order now CI)"
  by (rule exI [of _ "\<lparr>ct_registration = GC_Register, ct_filter = (\<lambda>r. True),
        ct_reconcile = gc_run (\<lambda>now. gc_NewController K order now CI)\<rparr>"])
     (use assms in \<open>auto simp: NewControllers_def split: option.splits\<close>)

theorem Orphans_collected_witness:
  "\<exists>prog c res s' new. main sample_ctx orphan_packages (sample_kube sample_nodeclass) (\<lambda>n. [0..<n]) id sample_conditions (5 * Minute)
         ((), []) () = Started prog
     \<and> c \<in> set (pr_controllers prog) \<and> ct_reconcile c RunSingleton (pr_start prog) = Some (res, s')
     \<and> adds (pr_start prog) s' new \<and> SdkDelete ''p-1'' ''eu01'' ''s-1'' \<in> set new"
proof -
  let ?K = "sample_kube sample_nodeclass" and ?order = "\<lambda>n. [0..<n]"
  obtain prog where prog: "main sample_ctx orphan_packages ?K ?order id sample_conditions (5 * Minute) ((), []) () = Started prog"
    using orphan_started by blast
  obtain nc s1 where nc: "cp_List (pr_cloud prog) (pr_start prog) = Some (Inr [nc], s1)" "claim_provider_id nc = ProviderID ''s-1''"
      "claim_creation_timestamp nc = 1" "claim_deletion_timestamp nc = None"
    using orphan_listed [OF prog] by blast
  obtain A T overrides where "NewControllers sample_ctx ?K ?order A (pk_validation orphan_packages) (cloud_of (pr_cloud prog))
      (cpe_instances (pr_cloud prog)) T overrides sample_conditions = Some (pr_controllers prog)"
    by (rule started_assembled [OF prog sample_parts])
  then obtain c where c: "c \<in> set (pr_controllers prog)" "ct_registration c = GC_Register"
      "ct_reconcile c = gc_run (\<lambda>now. gc_NewController ?K ?order now (cloud_of (pr_cloud prog)))"
    using runs_gc by blast
  have gc: "gc_list (gc_NewController ?K ?order (sy_now (pr_start prog)) (cloud_of (pr_cloud prog))) (pr_start prog) \<noteq> None"
    using nc(1) by (simp add: gc_NewController_def cloud_of_def)
  obtain res n t where "gc_Reconcile (gc_NewController ?K ?order (sy_now (pr_start prog)) (cloud_of (pr_cloud prog)))
      (sy_count (pr_start prog)) (pr_start prog) = Some (res, n, t)"
    using gc_Reconcile_total [OF gc, of "sy_count (pr_start prog)"] by blast
  then have run: "ct_reconcile c RunSingleton (pr_start prog) = Some (res, t\<lparr>sy_count := n\<rparr>)" by (simp add: c(3))
  have now: "sy_now (pr_start prog) = 5 * Minute" using prog by (auto simp: main_started)
  have k: "kb_list_managed ?K k = Inr []" "kb_list_nodes ?K k = Inr []" for k by (simp_all add: sample_kube_def)
  have "ct_registration sample_conditions \<noteq> GC_Register" by (simp add: sample_conditions_def GC_Register_def)
  moreover have "orders_all ?order" by (simp add: orders_all_def)
  moreover have "ParseInstanceID (claim_provider_id nc) = Inr ''s-1''"
    using pid.parse_iff [of "claim_provider_id nc" "''s-1''"] by (simp add: nc(2) instance_id_ok_def)
  moreover have "\<forall>client. operator_client orphan_packages sample_options None = Inr client \<longrightarrow> stands client ''s-1''"
    by (simp add: orphan_client stands_def orphan_api orphan_instance)
  moreover have "claim_creation_timestamp nc + 2 * Minute \<le> sy_now (pr_start prog)"
    by (simp add: nc(3) now Minute_def Second_def)
  ultimately have "\<exists>new. adds (pr_start prog) (t\<lparr>sy_count := n\<rparr>) new
      \<and> SdkDelete (opt_ProjectID sample_options) (opt_Region sample_options) ''s-1'' \<in> set new"
    using Orphans_collected [OF prog sample_parts orphan_packages_sel(1) sample_ctx _ _ c(1,2) run nc(1) k, of nc "''s-1''"]
    by (simp add: nc(3,4) is_zero_time_def)
  moreover have "opt_ProjectID sample_options = ''p-1''" "opt_Region sample_options = ''eu01''" by (simp_all add: sample_options_def)
  ultimately show ?thesis using prog c(1) run by (metis (no_types, lifting))
qed

end
