(* ===== verification/Spec2Isabelle.thy ===== *)
theory Spec2Isabelle
  imports Utils StackitSdk Cache Pricing InstanceTypes Offering InstanceTypeProvider Instance CloudProvider
    GarbageCollection Labeling NodeClassStatus NodeClassHash NodeClassTermination Options Operator
    Placement DeepCopy LaunchRace NodeClassControllers Running LaunchSafety
    Accounts
begin

text \<open>
  A model of karpenter-provider-stackit, the Karpenter cloud provider for STACKIT: a controller
  that launches servers for Karpenter's NodeClaims, lists and deletes them, tells Karpenter what
  machine types there are and what they cost, and keeps its StackitNodeClass resources.

  The parts and their theories, in the order they build on each other. The paths are under
  \<open>src/pkg\<close>; a definition has the name of the Go function or type it models, with a prefix where
  the name is taken (\<open>ip_\<close> for the instance provider, \<open>itp_\<close> for the instance type provider,
  \<open>cp_\<close> for the cloud provider, \<open>gc_\<close> for garbage collection).

  \<^item> \<open>Prelude\<close>, \<open>Float64\<close>, \<open>GoStrings\<close>, \<open>GoErrors\<close>: what Go and its standard library give the
    code. A map is an association list with distinct keys, a result is a sum, a panic an outer
    option; \<open>float64\<close> is computed in rationals with IEEE rounding written out; errors are values
    that keep format, arguments and cause.
  \<^item> \<open>ApiTypes\<close> (\<open>apis/v1alpha1\<close>): StackitNodeClass with its accessors and hash, the label keys,
    and the fields of Karpenter's resources that the code touches.
  \<^item> \<open>Utils\<close> (\<open>utils\<close>): provider ids, zone names, the labels put on servers and the selector that
    finds them again.
  \<^item> \<open>StackitSdk\<close> (\<open>stackit/sdk.go\<close>): the client over the SDK, and which errors mean what.
  \<^item> \<open>Cache\<close> (\<open>cache\<close>): the record of what could not be launched, with its sequence numbers.
  \<^item> \<open>Pricing\<close> (\<open>providers/pricing\<close>): the price model, the price book and its overrides.
  \<^item> \<open>InstanceTypes\<close> and \<open>Offering\<close> (\<open>providers/instancetype/types.go\<close>, \<open>offering\<close>): capacity and
    overhead of a machine type, and its priced offerings, which are cached.
  \<^item> \<open>InstanceTypeProvider\<close> (\<open>providers/instancetype/instancetype.go\<close>): the machine type catalogue
    and its listings.
  \<^item> \<open>Instance\<close> (\<open>providers/instance\<close>): choosing the cheapest offering, launching, looking up,
    deleting and relabeling servers.
  \<^item> \<open>CloudProvider\<close> (\<open>cloudprovider\<close>, with drift and events): the interface Karpenter calls.
  \<^item> \<open>Placement\<close>: that interface on the default instance type provider in any state it comes to: the
    zones of the offerings it lists, and which servers a listing needs to succeed.
  \<^item> \<open>GarbageCollection\<close>, \<open>Labeling\<close> (\<open>controllers/nodeclaim\<close>): servers that no NodeClaim names
    are deleted, and the labels of the others are kept.
  \<^item> \<open>NodeClassStatus\<close>, \<open>NodeClassHash\<close>, \<open>NodeClassTermination\<close> (\<open>controllers/nodeclass\<close>): zones
    and validation, the hash that drift compares, and the finalizer.
  \<^item> \<open>Options\<close>, \<open>Operator\<close> (\<open>operator\<close>, \<open>controllers/providers\<close>): what the operator is started
    with, what it builds, and how catalogue and prices are refreshed.
  \<^item> \<open>GoHeap\<close>, \<open>DeepCopy\<close> (\<open>apis/v1alpha1/zz_generated.deepcopy.go\<close>): pointers, slices and maps in
    a heap, and the generated copies of the resources.
  \<^item> \<open>LaunchRace\<close>: garbage collection, split at its listings and its items, among launches and the
    provider ids that arrive later.
  \<^item> \<open>NodeClassControllers\<close>: the three NodeClass controllers with others on one object, merged patch
    by merged patch.
  \<^item> \<open>Controllers\<close> (\<open>controllers/controllers.go\<close>, the constructors and registrations of all
    controllers, \<open>cmd/controller/main.go\<close>): the state of the running program and how its parts are
    put together.
  \<^item> \<open>System\<close>, \<open>Running\<close>, \<open>LaunchSafety\<close>: the runs of the program, what an invariant of it has to
    survive, and three things it keeps to: its catalogue, its account of changes at STACKIT, and
    that it launches nothing it knows to be unavailable.
  \<^item> \<open>Accounts\<close>: the servers of the running program, which are marked so that its listings find them
    and are deleted when nobody names them.

  How they interact. The cloud provider resolves a NodeClass, asks the instance type provider for
  instance types, which injects the offerings from prices and availability, and hands them to the
  instance provider, which launches the cheapest and marks what failed as unavailable; the next
  listing reads these marks. The controllers use the same providers. State is passed explicitly:
  each provider has a record of its state, and a provider that is part of a larger state is
  lifted to it (\<open>lift_provider\<close>, \<open>default_type_provider\<close>). What runs concurrently in Go is one
  step of the model where the code holds a lock or where the steps touch different entries, and
  an explicit order or a step relation where the interleaving matters: the workers of garbage
  collection run in any order (\<open>gc_order\<close>), and the termination controller is split at its API
  calls and runs against a cluster that moves on in between (\<open>cluster_step\<close>). \<open>race_step\<close> does the
  same for garbage collection, \<open>class_step\<close> for the NodeClass controllers, whose patches meet those
  of others at the API server. \<open>sys_step\<close> is the whole program: each call of Karpenter and each
  reconcile is one step, and so is the passing of time, the cleaning of a cache, and any change of
  STACKIT or of the cluster. What happens inside one of its steps is therefore not interleaved;
  the three finer relations look at the places where that matters.

  Third-party code is a parameter: records of functions for the STACKIT SDK (\<open>sdk\<close>, \<open>api\<close>), the
  Kubernetes client, \<open>go-cache\<close> (\<open>cache_ops\<close>), \<open>resource.Quantity\<close> (\<open>quantity_ops\<close>), Karpenter's
  scheduling package (\<open>sched_ops\<close>), the condition library, hashing, and the conversion of an
  out-of-range \<open>float64\<close>. What the proofs use of them are named predicates (\<open>cache_laws\<close>,
  \<open>quantity_laws\<close>, \<open>sched_laws\<close>, \<open>cond_laws\<close>, \<open>hash_laws\<close>, \<open>honours_selector\<close>, \<open>plain_api\<close>,
  \<open>merge_laws\<close> for merge patches, \<open>copy_laws\<close> for the copies of Kubernetes' own types, \<open>transparent\<close>
  for the decorators of the cloud provider, \<open>reports_only\<close> for the condition controller,
  \<open>typed_names\<close> for the names of machine types, \<open>stands\<close> for a server that STACKIT keeps finding,
  and others); each is satisfied by a concrete
  instance in the witnesses. The Kubernetes client and what belongs to it is one record for the
  program, \<open>kube\<close>. The locales state the interfaces inside the program: provider ids, the
  availability record, the machine type lister of the pricing provider, the instance provider
  behind the cloud provider and the controllers, the listing that garbage collection acts on, the
  copy of one field (\<open>deep_copy_method\<close>), the parts of an object a controller owns (\<open>part_owner\<close>), and
  what an invariant of the program has to survive, in three stages: listing, deleting, everything
  (\<open>listing_keeps\<close>, \<open>deletes_keep\<close>, \<open>program_keeps\<close>). Each is interpreted on the model's own
  definitions.

  What the groups of properties show. For launches: the cheapest available offering is taken, the
  request says what NodeClass and NodeClaim say, a failure takes out of rotation what failed and
  is not repeated, unless it came as 401 or 403, which records nothing; a NodeClass that is not
  ready, not current or terminating launches nothing, and what was launched is not drifted. For deletion: a deletion is only reported done when the
  API says so, retries finish when STACKIT's faults are finite, and garbage collection deletes
  exactly this cluster's orphans. For listings: every server is listed when its NodeClass is
  resolved and parses or is gone, what is offered as available for one zone set is not marked, which
  fails for two zone sets, and after a successful start listing instance types does not fail. For NodeClasses: the conditions say what was found,
  validated NodeClasses can be launched from, an upgrade of the hash drifts nothing, the
  finalizer is held until no server is left, the three controllers do not undo each other's work,
  and a deep copy shares no memory with its original. For the running program: it keeps a
  catalogue, every change at STACKIT is accounted for, no launch is sent for what is marked as
  unavailable, every server it asks for is one its listings select, an orphan that a listing shows
  has its deletion requested, and garbage collection spares servers whose provider ids arrive in
  time. STACKIT's side of this is an SDK that records what it is asked (\<open>spied\<close>). Some
  properties show the code not doing what it means to, or what its comments say; their texts say
  so. A panic is the outer \<open>None\<close> of an operation, and one property says when a NodeClass that
  validates brings it about.

  Bounds and fuel. Recursion is structural, on lists, except for some string functions, the
  sorting of label keys and the logarithm of \<open>Float64\<close>, which have measures. \<open>delete_retries\<close>
  repeats a deletion a given number of times, and the property about retries gives a number that is
  enough. \<open>int64\<close> and \<open>uint64\<close> keep their width where sums are formed (\<open>i64\<close>, \<open>64 word\<close>);
  counters of events are bounded by 2 to the 64 in the statements that need it.

  Runs of the program carry the number of changes of availability, which has to stay below 2 to
  the 64 for the sequence numbers to tell them apart.

  Not modelled: metrics and log lines; the numbers behind rate limiters; Karpenter's own
  controllers, manager and flag set, which call what is modelled; \<open>GetSupportedNodeClasses\<close>, which
  returns an empty object for its type; the embedded CRD manifests and their registration with the
  scheme; charts and examples. What else the definitions leave uncovered of the Go files are
  interface declarations, imports and comments.
\<close>

section \<open>Across the components\<close>

text \<open>Listing hands out the servers of the API, with their ids and creation times.\<close>

lemma cp_list_loop_servers:
  "cp_list_loop E is s = Some (Inr claims, s') \<Longrightarrow>
     map claim_provider_id claims = map (\<lambda>i. ProviderID (inst_id i)) is
     \<and> map claim_creation_timestamp claims = map inst_created_at is"
proof (induction "is" arbitrary: s claims)
  case (Cons i "is")
  obtain it s1 claims1 where "cp_list_loop E is s1 = Some (Inr claims1, s')" "claims = instanceToNodeClaim E i it # claims1"
    using Cons.prems by (auto split: option.splits sum.splits prod.splits)
  with Cons.IH show ?case by simp
qed simp

lemma cp_List_servers:
  assumes "cp_List E s = Some (Inr claims, s')"
  shows "\<exists>is s1. ipr_List (cpe_instances E) s = (Inr is, s1)
     \<and> map (\<lambda>c. (claim_provider_id c, claim_creation_timestamp c)) claims = map (\<lambda>i. (ProviderID (inst_id i), inst_created_at i)) is"
proof -
  obtain "is" s1 where l: "ipr_List (cpe_instances E) s = (Inr is, s1)" "cp_list_loop E is s1 = Some (Inr claims, s')"
    using assms by (auto simp: cp_List_def split: prod.splits sum.splits)
  have "map (\<lambda>c. (claim_provider_id c, claim_creation_timestamp c)) claims
      = zip (map claim_provider_id claims) (map claim_creation_timestamp claims)"
    by (simp add: zip_map_map zip_same_conv_map)
  also have "\<dots> = map (\<lambda>i. (ProviderID (inst_id i), inst_created_at i)) is"
    using cp_list_loop_servers [OF l(2)] by (simp add: zip_map_map zip_same_conv_map)
  finally show ?thesis using l(1) by blast
qed

text \<open>
  The cloud provider on the STACKIT API: what it lists are the API's servers with this cluster's
  name in their managed-by label.
\<close>

definition own_listed ::
  "('c, 'ci, 'q, 'w) ip_env \<Rightarrow> ('c, 'ci, 'w) ip_state \<Rightarrow> string \<Rightarrow> int \<Rightarrow> bool" where
  "own_listed IE st p created \<longleftrightarrow>
     (\<exists>server servers.
        fst (api_ListServers (ip_client IE) (LabelSelector [(LabelKeyManagedBy, ip_clusterName IE)]) (ips_world st)) = Inr servers
        \<and> server \<in> set servers \<and> p = ProviderID (get_or [] (srv_id server))
        \<and> map_of (LabelsFromAPI (get_or [] (srv_labels server))) LabelKeyManagedBy = Some (ip_clusterName IE)
        \<and> inst_created_at (NewInstance server) = created)"

interpretation own: server_listing
  "\<lambda>(CE, IE). cp_List CE"
  "\<lambda>(CE, IE). cpe_instances CE = default_provider IE \<and> honours_selector (ip_client IE)
      \<and> cache_laws (ip_cache_ops IE) \<and> CHR '','' \<notin> set (ip_clusterName IE)"
  "\<lambda>(CE, IE). own_listed IE"
proof (unfold_locales, goal_cases)
  case (1 e st claims s' c)
  obtain CE IE where e: "e = (CE, IE)" by force
  have IE: "cpe_instances CE = default_provider IE" "honours_selector (ip_client IE)" "cache_laws (ip_cache_ops IE)"
      "CHR '','' \<notin> set (ip_clusterName IE)"
    using 1(1) e by auto
  have "cp_List CE st = Some (Inr claims, s')" using 1(2) e by simp
  from cp_List_servers [OF this] obtain "is" s1 where "is": "ip_List IE st = (Inr is, s1)"
      "map (\<lambda>c. (claim_provider_id c, claim_creation_timestamp c)) claims = map (\<lambda>i. (ProviderID (inst_id i), inst_created_at i)) is"
    using IE(1) by (auto simp: default_provider_def)
  then have "(claim_provider_id c, claim_creation_timestamp c) \<in> set (map (\<lambda>i. (ProviderID (inst_id i), inst_created_at i)) is)"
    using 1(3) by (metis (no_types, lifting) image_eqI list.set_map)
  then obtain j where j: "j \<in> set is" "claim_provider_id c = ProviderID (inst_id j)" "claim_creation_timestamp c = inst_created_at j"
    by auto
  obtain servers where s: "fst (api_ListServers (ip_client IE) (LabelSelector [(LabelKeyManagedBy, ip_clusterName IE)]) (ips_world st)) = Inr servers"
      "is = map NewInstance servers" "list_all (\<lambda>i. map_of (inst_labels i) LabelKeyManagedBy = Some (ip_clusterName IE)) is"
    using list_owned [OF IE(2-4) "is"(1)] by blast
  then obtain server where server: "server \<in> set servers" "j = NewInstance server" using j(1) by auto
  have "map_of (inst_labels j) LabelKeyManagedBy = Some (ip_clusterName IE)" using s(3) j(1) by (simp add: list_all_iff)
  then have "own_listed IE st (claim_provider_id c) (claim_creation_timestamp c)"
    using s(1) server j(2,3) unfolding own_listed_def
    by (intro exI [of _ server] exI [of _ servers]) (auto simp: NewInstance_def)
  then show ?case using e by simp
qed

text \<open>
  C1 Garbage collection reaches only servers of this cluster: with the cloud provider on the
  STACKIT API and a cluster name without a comma (the flags accept one with a comma, which a label
  selector cannot express), every server it deletes was listed by the API with this cluster's name
  in its managed-by label, is named by no NodeClaim, and was created, as the API says, at least two
  minutes before a worker looked at it.
\<close>

theorem GC_only_own_servers:
  assumes "orders_all (gc_order E)" "gc_list E = cp_List CE" "cpe_instances CE = default_provider IE"
    and "honours_selector (ip_client IE)" "cache_laws (ip_cache_ops IE)" "CHR '','' \<notin> set (ip_clusterName IE)"
    and "\<forall>s. gc_list_managed E s = Inr managed"
    and "gc_Reconcile (logged E) n (st, []) = Some (r, n', st', dels)" "p \<in> set dels"
  shows "\<exists>server servers.
     fst (api_ListServers (ip_client IE) (LabelSelector [(LabelKeyManagedBy, ip_clusterName IE)]) (ips_world st)) = Inr servers
     \<and> server \<in> set servers \<and> p = ProviderID (get_or [] (srv_id server))
     \<and> map_of (LabelsFromAPI (get_or [] (srv_labels server))) LabelKeyManagedBy = Some (ip_clusterName IE)
     \<and> p \<notin> claim_provider_id ` set managed
     \<and> (\<exists>created i. inst_created_at (NewInstance server) = created \<and> created \<noteq> 0 \<and> created + 2 * Minute \<le> gc_clock E i)"
proof -
  have e: "case (CE, IE) of (CE, IE) \<Rightarrow> cpe_instances CE = default_provider IE \<and> honours_selector (ip_client IE)
      \<and> cache_laws (ip_cache_ops IE) \<and> CHR '','' \<notin> set (ip_clusterName IE)" "gc_list E = (case (CE, IE) of (CE, IE) \<Rightarrow> cp_List CE)"
    using assms(2-6) by simp_all
  from own.collects_owned [OF e assms(1,7,8,9)] obtain created i where c: "own_listed IE st p created" "created \<noteq> 0"
      "created + 2 * Minute \<le> gc_clock E i" "p \<notin> set (filter (\<lambda>p. p \<noteq> []) (map claim_provider_id managed))"
    by auto
  have "p \<noteq> []" using c(1) by (auto simp: own_listed_def ProviderID_def ProviderIDPrefix_def)
  with c show ?thesis unfolding own_listed_def by fastforce
qed

definition own_server :: server where
  "own_server = (listed_server ''s-1'' ''prod'')\<lparr>srv_created_at := Some 1\<rparr>"

definition own_instances :: "(unit timed, server_instance timed, rat, unit) ip_env" where
  "own_instances = sample_ip_env (listing_api [own_server, listed_server ''s-2'' ''dev''])"

definition own_cp :: "(rat, (unit timed, server_instance timed, unit) ip_state) cp_env" where
  "own_cp = (sample_cp (\<lambda>_. sample_ready))\<lparr>cpe_instances := default_provider own_instances\<rparr>"

definition own_gc :: "(rat, (unit timed, server_instance timed, unit) ip_state) gc_env" where
  "own_gc =
     \<lparr>gc_list = cp_List own_cp, gc_delete = cp_Delete own_cp, gc_list_managed = (\<lambda>s. Inr []), gc_list_nodes = (\<lambda>s. Inr []),
      gc_delete_node = (\<lambda>n s. (None, s)), gc_clock = (\<lambda>_. 5 * Minute), gc_order = (\<lambda>n. [0..<n])\<rparr>"

lemma own_instances_sel:
  "ip_client own_instances = listing_api [own_server, listed_server ''s-2'' ''dev'']" "ip_clusterName own_instances = ''prod''"
  "cache_laws (ip_cache_ops own_instances)"
  by (simp_all add: own_instances_def sample_ip_env_def timed_cache_laws)

lemma own_gc_sel [simp]:
  "gc_list own_gc = cp_List own_cp" "gc_list_managed own_gc s = Inr []" "gc_list_nodes own_gc s = Inr []"
  "gc_clock own_gc = (\<lambda>_. 5 * Minute)" "gc_order own_gc = (\<lambda>n. [0..<n])" "cpe_instances own_cp = default_provider own_instances"
  by (simp_all add: own_gc_def own_cp_def)

lemma own_listing:
  "api_ListServers (ip_client own_instances) (LabelSelector [(LabelKeyManagedBy, ''prod'')]) w = (Inr [own_server], w)"
proof -
  have "parse_selector (LabelSelector [(LabelKeyManagedBy, ''prod'')]) = [(LabelKeyManagedBy, ''prod'')]"
    by (intro parse_selector_single) (simp_all add: LabelKeyManagedBy_def)
  then show ?thesis
    by (simp add: own_instances_sel listing_api_list selects_def own_server_def listed_server_def get_or_def)
qed

lemma own_list: "\<exists>s1. cp_List own_cp (sample_ip_state ()) = Some (Inr [instanceToNodeClaim own_cp (NewInstance own_server) None], s1)"
proof -
  obtain s1 where "ip_List own_instances (sample_ip_state ()) = (Inr [NewInstance own_server], s1)"
    using own_listing by (simp add: ip_List_def own_instances_sel Let_def)
  moreover have "resolveInstanceTypeFromInstance own_cp (NewInstance own_server) s1 = Some (Inr None, s1)"
    by (simp add: resolveInstanceTypeFromInstance_def resolveNodePoolFromInstance_def ignore_kube_not_found_def newNotFound_def
        NewInstance_def own_server_def listed_server_def LabelsFromAPI_def get_or_def LabelKeyManagedBy_def
        LabelKeyNodePool_def NodePoolLabelKey_def)
  ultimately show ?thesis by (simp add: cp_List_def default_provider_def)
qed

theorem GC_only_own_servers_witness:
  "\<exists>r n' st' dels. gc_Reconcile (logged own_gc) 0 (sample_ip_state (), []) = Some (r, n', st', dels)
     \<and> dels = [ProviderID ''s-1''] \<and> (\<exists>server :: server. ProviderID ''s-1'' = ProviderID (get_or [] (srv_id server))
          \<and> map_of (LabelsFromAPI (get_or [] (srv_labels server))) LabelKeyManagedBy = Some ''prod'')"
proof -
  obtain s1 where l: "cp_List own_cp (sample_ip_state ()) = Some (Inr [instanceToNodeClaim own_cp (NewInstance own_server) None], s1)"
    using own_list by blast
  obtain r n' st' dels where run: "gc_Reconcile (logged own_gc) 0 (sample_ip_state (), []) = Some (r, n', st', dels)"
    using gc_Reconcile_total [of "logged own_gc" "(sample_ip_state (), [])" 0] l by auto
  have ord: "orders_all (gc_order own_gc)" by (simp add: orders_all_def)
  have inst: "inst_id (NewInstance own_server) = ''s-1''" "inst_created_at (NewInstance own_server) = 1"
    by (simp_all add: NewInstance_def own_server_def listed_server_def get_or_def)
  from gc_deletes [OF ord run] have "mset dels = {#ProviderID ''s-1''#}"
    by (simp add: l inst orphan_def Minute_def Second_def Let_def is_zero_time_def upt_rec del: mset_upt)
  then have dels: "dels = [ProviderID ''s-1'']" by simp
  have "honours_selector (ip_client own_instances)" "CHR '','' \<notin> set (ip_clusterName own_instances)"
    by (simp_all add: own_instances_sel listing_api_honours)
  note own = GC_only_own_servers [OF ord own_gc_sel(1) own_gc_sel(6) this(1) own_instances_sel(3) this(2) _ run,
      of "[]" "ProviderID ''s-1''"]
  have "\<exists>server :: server. ProviderID ''s-1'' = ProviderID (get_or [] (srv_id server))
          \<and> map_of (LabelsFromAPI (get_or [] (srv_labels server))) LabelKeyManagedBy = Some ''prod''"
  proof -
    have "\<forall>s. gc_list_managed own_gc s = Inr []" "ProviderID ''s-1'' \<in> set dels" using dels by simp_all
    from own [OF this] show ?thesis unfolding own_instances_sel(2) by blast
  qed
  with run dels show ?thesis by blast
qed

text \<open>
  C2 When a failed launch is tried again where it failed, and when not. Where STACKIT refused the
  chosen machine type in the chosen zone for lack of capacity and with any status but 401 and 403,
  no later choice falls on that machine type in that zone, and where the API itself was failing, on
  no machine type in that zone. This is for choices from lists that offer as available nothing that
  is marked in a record which still has that failure's marks: until they expire, and not from a
  list that is stale because two zone sets are in use. After a 401 or 403, which the comment in
  sdk.go says is how quota failures arrive, nothing is marked, and asked again with the same
  instance types, the program sends the same request again.
\<close>

theorem Failed_launch_not_repeated:
  assumes "cache_laws (ip_uo_ops E)" "sched_laws (ip_sched E)" "no_colon (it_name it)" "no_colon (it_name it2)"
    and "cheapestOffering (ip_quantity E) (ip_sched E) its nodeClaim = Inr (it, zone)"
    and "createPayload nodeClass nodeClaim it zone labels = Inr payload"
    and "api_CreateServer (ip_client E) payload (ips_world st) = (Inl err, w)"
    and "snd (ip_Create E nodeClass nodeClaim labels its st) = st'"
    and "\<And>t z. no_colon t \<Longrightarrow> IsUnavailable (ip_uo_ops E) (ips_uo st') t z \<Longrightarrow> IsUnavailable (ip_uo_ops E) u2 t z"
    and "list_all (\<lambda>i. safe_offers (ip_uo_ops E) u2 (it_name i) (it_offerings i)) its2"
    and "cheapestOffering (ip_quantity E) (ip_sched E) its2 nodeClaim2 = Inr (it2, zone2)"
  shows "if IsUnauthorized err
     then ips_uo st' = ips_uo st
        \<and> ips_world (snd (ip_Create E nodeClass nodeClaim labels its st')) = snd (api_CreateServer (ip_client E) payload w)
     else (IsInsufficientCapacity (ip_lower E) err \<longrightarrow> \<not> (it_name it2 = it_name it \<and> zone2 = zone))
        \<and> (\<not> IsInsufficientCapacity (ip_lower E) err \<and> IsRetryable err \<longrightarrow> zone2 \<noteq> zone)"
proof (cases "IsUnauthorized err")
  case True
  then have st': "st' = st\<lparr>ips_world := w\<rparr>" using launch_unauthorized [OF assms(5,6,7)] assms(8) by simp
  then show ?thesis
    using True assms(5,6) by (auto simp: ip_Create_def cache_put_def Let_def split: prod.splits sum.splits)
next
  case False
  obtain x where x: "(it2, x) \<in> candidates (ip_quantity E) (ip_sched E) nodeClaim2 its2"
      "zone2 = sc_any (ip_sched E) (of_requirements x) LabelTopologyZone"
    using chosen_candidate [OF assms(2,11)] by blast
  have marks: "IsUnavailable (ip_uo_ops E) (ips_uo st') (it_name it2) z \<longleftrightarrow>
      IsUnavailable (ip_uo_ops E) (ips_uo st) (it_name it2) z
      \<or> z = zone \<and> (if IsInsufficientCapacity (ip_lower E) err then it_name it2 = it_name it else IsRetryable err)" for z
    using launch_marks [OF assms(1,3,4,5,6,7), of z] assms(8) False by (auto simp: split_beta)
  have av: "it2 \<in> set its2" "x \<in> set (it_offerings it2)" "of_available x"
    using candidates_available [OF assms(2) x(1)] by auto
  then have "safe_offers (ip_uo_ops E) u2 (it_name it2) (it_offerings it2)"
    using assms(10) by (simp add: list_all_iff)
  then obtain z where z: "map_of (of_requirements x) LabelTopologyZone = Some [z]"
      "\<not> IsUnavailable (ip_uo_ops E) u2 (it_name it2) z"
    using av(2,3) by (auto simp: safe_offers_def)
  have "zone2 = z" using assms(2) z(1) x(2) by (simp add: sched_laws_def slaw_any_def)
  moreover have "\<not> IsUnavailable (ip_uo_ops E) (ips_uo st') (it_name it2) z" using assms(4,9) z(2) by blast
  ultimately show ?thesis using marks [of zone2] False by auto
qed

theorem Failed_launch_not_repeated_witness:
  "let E = sample_ip_env (failing_api (ApiError 409 ''No valid host was found'' []));
       st' = snd (ip_Create E sample_launch_class sample_claim None sample_its (sample_ip_state ()));
       its2 = [sample_it ''g1.2'' (compute_offerings timed_cache (\<lambda>_. Some (Fin 1)) (ips_uo st') ''g1.2'' ''eu01''
                 [''eu01-1'', ''eu01-2''])]
   in \<exists>it2 zone2. cheapestOffering rat_quantity simple_sched its2 sample_claim = Inr (it2, zone2)
        \<and> \<not> (it_name it2 = ''g1.2'' \<and> zone2 = ''eu01-1'')"
proof -
  let ?e = "ApiError 409 ''No valid host was found'' []"
  let ?E = "sample_ip_env (failing_api ?e) :: (unit timed, server_instance timed, rat, unit) ip_env"
  let ?st = "snd (ip_Create ?E sample_launch_class sample_claim None sample_its (sample_ip_state ()))"
  let ?it = "sample_it ''g1.2'' [sample_offering ''eu01-1'' 1 True]"
  let ?os = "compute_offerings timed_cache (\<lambda>_. Some (Fin 1)) (ips_uo ?st) ''g1.2'' ''eu01'' [''eu01-1'', ''eu01-2'']"
  obtain p where p: "createPayload sample_launch_class sample_claim ?it ''eu01-1'' None = Inr p"
    using sample_payload [of ?it "''eu01-1''" None] unfolding is_ok_iff by blast
  have E: "ip_quantity ?E = rat_quantity" "ip_sched ?E = simple_sched" "ip_uo_ops ?E = timed_cache"
    by (simp_all add: sample_ip_env_def)
  have choice: "cheapestOffering (ip_quantity ?E) (ip_sched ?E) sample_its sample_claim = Inr (?it, ''eu01-1'')"
    by (simp add: E sample_choice)
  have api: "api_CreateServer (ip_client ?E) p (ips_world (sample_ip_state ())) = (Inl ?e, ())" by (simp add: sample_ip_defs)
  have laws: "cache_laws (ip_uo_ops ?E)" "sched_laws (ip_sched ?E)" by (simp_all add: E timed_cache_laws simple_sched_laws)
  have names: "no_colon (it_name ?it)" "no_colon ''g1.2''" by (simp_all add: no_colon_def sample_it_def)
  have kind: "\<not> IsUnauthorized ?e" "IsInsufficientCapacity (ip_lower ?E) ?e"
    by code_simp (simp add: sample_ip_env_def; code_simp)
  have new: "\<not> IsUnavailable timed_cache (ips_uo (sample_ip_state ())) t z" for t z
    by (simp add: new_available sample_ip_state_def timed_cache_laws)
  have un: "IsUnavailable timed_cache (ips_uo ?st) ''g1.2'' z = (z = ''eu01-1'')" for z
    using launch_marks [OF laws(1) names choice p api, of z, unfolded E(3)] kind new
    by (auto simp: split_beta sample_it_def)
  have "SanitizeZone ''eu01-1'' = ''eu01-1''" "SanitizeZone ''eu01-2'' = ''eu01-2''" by code_simp+
  then have "?os = [\<lparr>of_requirements = [(LabelTopologyZone, [''eu01-1'']), (LabelTopologyRegion, [''eu01'']),
        (CapacityTypeLabelKey, [CapacityTypeOnDemand])], of_price = Fin 1, of_available = False\<rparr>,
      \<lparr>of_requirements = [(LabelTopologyZone, [''eu01-2'']), (LabelTopologyRegion, [''eu01'']),
        (CapacityTypeLabelKey, [CapacityTypeOnDemand])], of_price = Fin 1, of_available = True\<rparr>]"
    by (simp add: compute_offerings_def zone_offering_def un)
  then have choice2: "cheapestOffering (ip_quantity ?E) (ip_sched ?E) [sample_it ''g1.2'' ?os] sample_claim
      = Inr (sample_it ''g1.2'' ?os, ''eu01-2'')"
    by (simp add: E cheapestOffering_def sample_choice_defs less_f64_def)
  have safe: "list_all (\<lambda>i. safe_offers (ip_uo_ops ?E) (ips_uo ?st) (it_name i) (it_offerings i)) [sample_it ''g1.2'' ?os]"
    using compute_safe [of timed_cache "ips_uo ?st" "''g1.2''"] by (simp add: E sample_it_def)
  have "no_colon (it_name (sample_it ''g1.2'' ?os))" using names(2) by (simp add: sample_it_def)
  from Failed_launch_not_repeated [OF laws names(1) this choice p api refl _ safe choice2] kind
  have "\<not> (it_name (sample_it ''g1.2'' ?os) = it_name ?it \<and> ''eu01-2'' = ''eu01-1'')" by simp
  with choice2 show ?thesis unfolding Let_def E by (auto simp: sample_it_def)
qed

section \<open>A NodeClass that validates and cannot be resolved\<close>

text \<open>
  C28 A reserved quantity of the kubelet configuration that does not parse is seen by nobody until
  it panics: validation answers the same whatever the kubelet configuration says, and when such a
  NodeClass is ready, has zones and its instance types are not cached, a launch from it panics, so
  does asking for its instance types, and when a server of it comes first in the listing, the
  listing of all servers and with it garbage collection panic too. The schema of the resource
  only checks the keys and the sign.
\<close>

theorem Bad_quantity_panics:
  assumes "cpe_types CE = default_type_provider E pricing uo get put" "pricing s = Some price"
    and "bad_quantity (env_quantity E) nc" "itp_machine_types (get s) \<noteq> []" "availability_zone_ids nc \<noteq> []"
    and "c_get (env_type_cache E) (itp_types (get s)) (itp_cacheKey E nc) = None"
  shows "fst (validate NE nc) = fst (validate NE (nc\<lparr>nc_spec := (nc_spec nc)\<lparr>spec_kubelet := None\<rparr>\<rparr>))
     \<and> (resolveNodeClassFromNodeClaim CE claim s = Inr nc \<and> cond_status (cpe_ready CE nc) = CondTrue
          \<and> cond_observed_generation (cpe_ready CE nc) = nc_generation nc \<longrightarrow> cp_Create CE claim s = None)
     \<and> (resolveNodeClassFromNodePool CE np s = Inr nc \<longrightarrow> GetInstanceTypes CE np s = None
          \<and> (ipr_List (cpe_instances CE) s0 = (Inr (i # others), s) \<and> resolveNodePoolFromInstance CE i s = Inr np \<longrightarrow>
               cp_List CE s0 = None \<and> (gc_list GE = cp_List CE \<longrightarrow> gc_Reconcile GE n s0 = None)))"
proof -
  have list: "tpr_List (cpe_types CE) nc s = None"
    using itp_List_panics [OF assms(3-6), of price "uo s"] assms(1,2) by (simp add: default_type_provider_def)
  have types: "GetInstanceTypes CE np s = None" if "resolveNodeClassFromNodePool CE np s = Inr nc"
    using that list by (simp add: GetInstanceTypes_def)
  have servers: "cp_List CE s0 = None"
    if "resolveNodeClassFromNodePool CE np s = Inr nc" "ipr_List (cpe_instances CE) s0 = (Inr (i # others), s)"
      "resolveNodePoolFromInstance CE i s = Inr np"
    using that types by (simp add: cp_List_def resolveInstanceTypeFromInstance_def)
  have "fst (validate NE nc) = fst (validate NE (nc\<lparr>nc_spec := (nc_spec nc)\<lparr>spec_kubelet := None\<rparr>\<rparr>))"
    by (simp add: validate_def validateNetworking_def split: option.split)
  moreover have "cp_Create CE claim s = None"
    if "resolveNodeClassFromNodeClaim CE claim s = Inr nc" "cond_status (cpe_ready CE nc) = CondTrue"
      "cond_observed_generation (cpe_ready CE nc) = nc_generation nc"
    using that list by (simp add: cp_Create_def Let_def)
  ultimately show ?thesis using types servers by (simp add: gc_Reconcile_def)
qed

definition bad_class :: nodeclass where
  "bad_class = sample_nodeclass\<lparr>nc_spec := (nc_spec sample_nodeclass)
     \<lparr>spec_kubelet := Some (empty_kubelet\<lparr>kc_kube_reserved := [(''cpu'', ''a lot'')]\<rparr>)\<rparr>\<rparr>"

definition bad_cp ::
  "(rat, (rat instance_type list timed, offering list timed, rat timed, machine_type list) itp_state) cp_env" where
  "bad_cp = (listing_cp bad_class [pooled_instance ''s-1'' (Some ''default'')])
     \<lparr>cpe_types := default_type_provider sample_env (\<lambda>_. Some (\<lambda>_. None)) (\<lambda>_. NewUnavailableOfferings timed_cache) id (\<lambda>a s. a)\<rparr>"

theorem Bad_quantity_panics_witness:
  "(\<forall>NE :: (unit, unit, unit) ncc_env. fst (validate NE bad_class) = None) \<and> (\<exists>s. cp_List bad_cp s = None)"
proof -
  let ?s = "sample_state\<lparr>itp_machine_types := [(''g1.2'', sample_type)]\<rparr>"
  let ?np = "\<lparr>pool_name = ''default'', pool_uid = ''p-1'', pool_nodeclass_ref = Some ''default''\<rparr>"
  have types: "cpe_types bad_cp = default_type_provider sample_env (\<lambda>_. Some (\<lambda>_. None))
      (\<lambda>_. NewUnavailableOfferings timed_cache) id (\<lambda>a s. a)"
    by (simp add: bad_cp_def)
  have "rat_parse ''a lot'' = None" by code_simp
  then have bad: "bad_quantity (env_quantity sample_env) bad_class"
    by (simp add: bad_quantity_def bad_class_def kubelet_configuration_of_def sample_env_def rat_quantity_def)
  have cat: "itp_machine_types (id ?s) \<noteq> []" "availability_zone_ids bad_class \<noteq> []"
      "c_get (env_type_cache sample_env) (itp_types (id ?s)) (itp_cacheKey sample_env bad_class) = None"
    by (simp_all add: availability_zone_ids_def bad_class_def sample_nodeclass_def sample_env_def sample_state_def timed_cache_laws)
  have "resolveNodePoolFromInstance bad_cp (pooled_instance ''s-1'' (Some ''default'')) ?s = Inr ?np"
      "resolveNodeClassFromNodePool bad_cp ?np ?s = Inr bad_class"
      "ipr_List (cpe_instances bad_cp) ?s = (Inr [pooled_instance ''s-1'' (Some ''default'')], ?s)"
    by (simp_all add: resolveNodePoolFromInstance_def resolveNodeClassFromNodePool_def pooled_instance_def bad_cp_def
        listing_cp_def is_zero_time_def bad_class_def sample_nodeclass_def)
  then have "cp_List bad_cp ?s = None"
    using Bad_quantity_panics [where CE = bad_cp and s = ?s and get = id and np = ?np and s0 = ?s and others = "[]"
        and i = "pooled_instance ''s-1'' (Some ''default'')", OF types refl bad cat, THEN conjunct2, THEN conjunct2]
    by (simp only: simp_thms)
  moreover have "ValidateLabels [] = None" by code_simp
  then have "fst (validate NE bad_class) = None" for NE :: "(unit, unit, unit) ncc_env"
    by (simp add: validate_def validateNetworking_def bad_class_def sample_nodeclass_def get_or_def Let_def)
  ultimately show ?thesis by blast
qed

end
